(* ===== verification/Prelude.thy ===== *)
theory Prelude
  imports Main "HOL-Library.State_Monad" "HOL-Library.Word"
begin

text \<open>
  What every other theory of the development shares: Go errors as values
  (\<open>errors.New\<close> sentinels, \<open>fmt.Errorf\<close> with \<open>%w\<close>, \<open>errors.Is\<close>), a weakest
  precondition calculus for the state monad in which the effectful code is written, and
  the lemmas on lists that the tables of the four databases use.

  Effectful Go functions are values of \<open>('s, error + 'a) state\<close>: a state transformer that
  returns Go's pair of a value and an error as a sum, \<open>Inl\<close> being a non-nil error. The
  idiom \<open>x, err := f(); if err != nil { return err }\<close> is a bind followed by a \<open>case\<close>.
\<close>

named_theorems wp_simps \<open>weakest preconditions of the program constructs, as rewrite rules\<close>
named_theorems preserves_rules \<open>introduction rules for \<open>preserves\<close>\<close>

section \<open>Go errors\<close>

text \<open>
  The sentinel errors of the repository and of the libraries whose sentinels the code
  compares with \<open>errors.Is\<close>.
\<close>

datatype sentinel =
    ErrNotFound | ErrAlreadyExists
  | ErrRateLimited | ErrUnauthorized | ErrNoRelease | ErrInvalidRepo | ErrRepoNotFound
  | ErrExpired | ErrInvalid
  | ErrTerminal | ErrNoTx
  | ErrNoRows | ErrTooManyRows | ErrTxClosed | ErrTxCommitRollback
  | Canceled | DeadlineExceeded | ErrTokenExpired

text \<open>
  \<open>Errorf m e\<close> is \<open>fmt.Errorf("m: %w", e)\<close>, \<open>Errorf2 a b\<close> is \<open>fmt.Errorf("%w: %w", a, b)\<close>,
  \<open>Errorf_post e m\<close> is \<open>fmt.Errorf("%w: m", e)\<close>, \<open>Join a b\<close> is \<open>errors.Join(a, b)\<close>; \<open>External m\<close> is an error of code outside
  the repository, known by its text only.
\<close>

datatype error =
    Sentinel sentinel
  | External string
  | Errorf string error
  | Errorf2 error error
  | Errorf_post error string
  | Join error error

primrec errors_Is :: "error \<Rightarrow> sentinel \<Rightarrow> bool" where
  "errors_Is (Sentinel s) t = (s = t)"
| "errors_Is (External m) t = False"
| "errors_Is (Errorf m e) t = errors_Is e t"
| "errors_Is (Errorf2 a b) t = (errors_Is a t \<or> errors_Is b t)"
| "errors_Is (Errorf_post e m) t = errors_Is e t"
| "errors_Is (Join a b) t = (errors_Is a t \<or> errors_Is b t)"

text \<open>The texts given to \<open>errors.New\<close>, and \<open>error.Error\<close>.\<close>

primrec sentinel_text :: "sentinel \<Rightarrow> string" where
  "sentinel_text ErrNotFound = ''not found''"
| "sentinel_text ErrAlreadyExists = ''already exists''"
| "sentinel_text ErrRateLimited = ''github API rate limit exceeded''"
| "sentinel_text ErrUnauthorized = ''github API unauthorized: check GITHUB_TOKEN''"
| "sentinel_text ErrNoRelease = ''no releases found''"
| "sentinel_text ErrInvalidRepo = ''invalid repository format, expected owner/repo''"
| "sentinel_text ErrRepoNotFound = ''repository not found on GitHub''"
| "sentinel_text ErrExpired = ''confirmation token expired''"
| "sentinel_text ErrInvalid = ''invalid confirmation token''"
| "sentinel_text ErrTerminal = ''terminal message error''"
| "sentinel_text ErrNoTx = ''eventpublisher: enqueue must run within a transaction''"
| "sentinel_text ErrNoRows = ''no rows in result set''"
| "sentinel_text ErrTooManyRows = ''too many rows in result set''"
| "sentinel_text ErrTxClosed = ''tx is closed''"
| "sentinel_text ErrTxCommitRollback = ''commit unexpectedly resulted in rollback''"
| "sentinel_text Canceled = ''context canceled''"
| "sentinel_text DeadlineExceeded = ''context deadline exceeded''"
| "sentinel_text ErrTokenExpired = ''token is expired''"

primrec Error :: "error \<Rightarrow> string" where
  "Error (Sentinel s) = sentinel_text s"
| "Error (External m) = m"
| "Error (Errorf m e) = m @ '': '' @ Error e"
| "Error (Errorf2 a b) = Error a @ '': '' @ Error b"
| "Error (Errorf_post e m) = Error e @ '': '' @ m"
| "Error (Join a b) = Error a @ [CHR 0x0A] @ Error b"

lemma Error_Errorf_nonempty [simp]: "Error (Errorf m e) \<noteq> []"
  by simp

section \<open>Programs with state and errors\<close>

abbreviation ok :: "'a \<Rightarrow> ('s, error + 'a) state" where
  "ok x \<equiv> State_Monad.return (Inr x)"

abbreviation err :: "error \<Rightarrow> ('s, error + 'a) state" where
  "err e \<equiv> State_Monad.return (Inl e)"

text \<open>
  \<open>bindE m f\<close> is \<open>x, err := m(); if err != nil { return err }; f(x)\<close>, and \<open>wrap s m\<close> returns
  the error of \<open>m\<close> as \<open>fmt.Errorf("s: %w", err)\<close>.
\<close>

definition bindE ::
  "('s, error + 'a) state \<Rightarrow> ('a \<Rightarrow> ('s, error + 'b) state) \<Rightarrow> ('s, error + 'b) state" where
  "bindE m f = do { r \<leftarrow> m; case r of Inl e \<Rightarrow> err e | Inr x \<Rightarrow> f x }"

definition wrap :: "string \<Rightarrow> ('s, error + 'a) state \<Rightarrow> ('s, error + 'a) state" where
  "wrap s m = do { r \<leftarrow> m; case r of Inl e \<Rightarrow> err (Errorf s e) | Inr x \<Rightarrow> ok x }"

text \<open>A check that does not touch the state, as a program.\<close>

definition liftE :: "error + 'a \<Rightarrow> ('s, error + 'a) state" where
  "liftE r = State_Monad.return r"

text \<open>The verbs \<open>%q\<close>, on text without quotes and control characters, and \<open>%d\<close>.\<close>

definition quote :: "string \<Rightarrow> string" where
  "quote s = CHR 0x22 # s @ [CHR 0x22]"

fun decimal :: "nat \<Rightarrow> string" where
  "decimal n = (if n < 10 then [] else decimal (n div 10)) @ [char_of (48 + n mod 10)]"

declare decimal.simps [simp del]

subsection \<open>Weakest preconditions\<close>

definition wp :: "('s, 'a) state \<Rightarrow> ('a \<Rightarrow> 's \<Rightarrow> bool) \<Rightarrow> 's \<Rightarrow> bool" where
  "wp m Q s = (case run_state m s of (a, s') \<Rightarrow> Q a s')"

lemma wp_return [wp_simps]: "wp (State_Monad.return a) Q = Q a"
  by (rule ext) (simp add: wp_def)

lemma wp_bind [wp_simps]: "wp (State_Monad.bind m f) Q = wp m (\<lambda>a. wp (f a) Q)"
  by (rule ext) (simp add: wp_def split: prod.splits)

lemma wp_State [wp_simps]: "wp (State f) Q = (\<lambda>s. case f s of (a, s') \<Rightarrow> Q a s')"
  by (rule ext) (simp add: wp_def)

lemma wp_get [wp_simps]: "wp State_Monad.get Q = (\<lambda>s. Q s s)"
  by (rule ext) (simp add: wp_def)

lemma wp_set [wp_simps]: "wp (State_Monad.set t) Q = (\<lambda>_. Q () t)"
  by (rule ext) (simp add: wp_def)

lemma wp_if [wp_simps]: "wp (if b then m else n) Q = (if b then wp m Q else wp n Q)"
  by simp

lemma wp_case_sum [wp_simps]:
  "wp (case x of Inl a \<Rightarrow> f a | Inr b \<Rightarrow> g b) Q =
   (case x of Inl a \<Rightarrow> wp (f a) Q | Inr b \<Rightarrow> wp (g b) Q)"
  by (simp split: sum.splits)

lemma wp_case_option [wp_simps]:
  "wp (case x of None \<Rightarrow> m | Some b \<Rightarrow> g b) Q =
   (case x of None \<Rightarrow> wp m Q | Some b \<Rightarrow> wp (g b) Q)"
  by (simp split: option.splits)

lemma wp_case_prod [wp_simps]:
  "wp (case x of (a, b) \<Rightarrow> g a b) Q = (case x of (a, b) \<Rightarrow> wp (g a b) Q)"
  by (simp split: prod.splits)

text \<open>Branches over predicates, applied to a state.\<close>

lemma branch_app [wp_simps]:
  "(if b then p else q) s = (if b then p s else q s)"
  "(case x of Inl a \<Rightarrow> f a | Inr b \<Rightarrow> g b) s = (case x of Inl a \<Rightarrow> f a s | Inr b \<Rightarrow> g b s)"
  "(case y of None \<Rightarrow> m | Some b \<Rightarrow> h b) s = (case y of None \<Rightarrow> m s | Some b \<Rightarrow> h b s)"
  "(case z of (a, b) \<Rightarrow> k a b) s = (case z of (a, b) \<Rightarrow> k a b s)"
  by (simp_all split: sum.splits option.splits prod.splits)

lemma wp_bindE [wp_simps]:
  "wp (bindE m f) Q = wp m (\<lambda>r t. case r of Inl e \<Rightarrow> Q (Inl e) t | Inr x \<Rightarrow> wp (f x) Q t)"
  by (rule ext) (auto simp: bindE_def wp_def split: prod.splits sum.splits)

lemma wp_wrap [wp_simps]:
  "wp (wrap m p) Q = wp p (\<lambda>r t. case r of Inl e \<Rightarrow> Q (Inl (Errorf m e)) t | Inr x \<Rightarrow> Q (Inr x) t)"
  by (rule ext) (auto simp: wrap_def wp_def split: prod.splits sum.splits)

lemma wp_liftE [wp_simps]: "wp (liftE r) Q = Q r"
  by (simp add: liftE_def wp_simps)

lemma wp_mono: "wp m Q s \<Longrightarrow> (\<And>a t. Q a t \<Longrightarrow> R a t) \<Longrightarrow> wp m R s"
  by (simp add: wp_def split: prod.splits)

lemma wp_conj: "wp m (\<lambda>a t. Q a t \<and> R a t) s \<longleftrightarrow> wp m Q s \<and> wp m R s"
  by (simp add: wp_def split: prod.splits)

lemma wpD: "wp m Q s \<Longrightarrow> run_state m s = (a, t) \<Longrightarrow> Q a t"
  by (simp add: wp_def)

lemma wpI: "(\<And>a t. run_state m s = (a, t) \<Longrightarrow> Q a t) \<Longrightarrow> wp m Q s"
  by (simp add: wp_def split: prod.splits)

lemma wp_snd: "wp m (\<lambda>_. Q) s \<longleftrightarrow> Q (snd (run_state m s))"
  by (simp add: wp_def split: prod.splits)

subsection \<open>Preservation of a state predicate\<close>

definition preserves :: "('s \<Rightarrow> bool) \<Rightarrow> ('s, 'a) state \<Rightarrow> bool" where
  "preserves I m \<longleftrightarrow> (\<forall>s. I s \<longrightarrow> wp m (\<lambda>_. I) s)"

lemma preservesI: "(\<And>s. I s \<Longrightarrow> wp m (\<lambda>_. I) s) \<Longrightarrow> preserves I m"
  by (simp add: preserves_def)

lemma preservesD: "preserves I m \<Longrightarrow> I s \<Longrightarrow> run_state m s = (a, t) \<Longrightarrow> I t"
  unfolding preserves_def using wpD by fastforce

lemma preserves_wp: "preserves I m \<Longrightarrow> I s \<Longrightarrow> wp m (\<lambda>_. I) s"
  by (simp add: preserves_def)

lemma preserves_return [preserves_rules]: "preserves I (State_Monad.return a)"
  by (simp add: preserves_def wp_simps)

lemma preserves_bind [preserves_rules]:
  assumes "preserves I m" and "\<And>a. preserves I (f a)"
  shows "preserves I (State_Monad.bind m f)"
proof (rule preservesI)
  fix s
  assume "I s"
  with assms(1) have "wp m (\<lambda>_. I) s" by (rule preserves_wp)
  then have "wp m (\<lambda>a. wp (f a) (\<lambda>_. I)) s"
    by (rule wp_mono) (rule preserves_wp [OF assms(2)])
  then show "wp (State_Monad.bind m f) (\<lambda>_. I) s" by (simp add: wp_simps)
qed

lemma preserves_if [preserves_rules]:
  "(b \<Longrightarrow> preserves I m) \<Longrightarrow> (\<not> b \<Longrightarrow> preserves I n) \<Longrightarrow> preserves I (if b then m else n)"
  by simp

lemma preserves_case_sum [preserves_rules]:
  "(\<And>a. x = Inl a \<Longrightarrow> preserves I (f a)) \<Longrightarrow> (\<And>b. x = Inr b \<Longrightarrow> preserves I (g b)) \<Longrightarrow>
   preserves I (case x of Inl a \<Rightarrow> f a | Inr b \<Rightarrow> g b)"
  by (simp split: sum.splits)

lemma preserves_case_option [preserves_rules]:
  "(x = None \<Longrightarrow> preserves I m) \<Longrightarrow> (\<And>b. x = Some b \<Longrightarrow> preserves I (g b)) \<Longrightarrow>
   preserves I (case x of None \<Rightarrow> m | Some b \<Rightarrow> g b)"
  by (simp split: option.splits)

lemma preserves_case_prod [preserves_rules]:
  "(\<And>a b. x = (a, b) \<Longrightarrow> preserves I (g a b)) \<Longrightarrow> preserves I (case x of (a, b) \<Rightarrow> g a b)"
  by (simp split: prod.splits)

lemma preserves_bindE [preserves_rules]:
  "preserves I m \<Longrightarrow> (\<And>a. preserves I (f a)) \<Longrightarrow> preserves I (bindE m f)"
  unfolding bindE_def by (intro preserves_bind preserves_case_sum preserves_return)

lemma wrap_Inr: "run_state (wrap s m) t = (Inr x, u) \<longleftrightarrow> run_state m t = (Inr x, u)"
  by (auto simp: wrap_def split: prod.splits sum.splits)

text \<open>The same where the rest depends on what a result of the first program can be.\<close>

lemma preserves_bindE_result:
  assumes "preserves I m" and "\<And>x s t. run_state m s = (Inr x, t) \<Longrightarrow> preserves I (f x)"
  shows "preserves I (bindE m f)"
proof (rule preservesI)
  fix s
  assume "I s"
  obtain r t where run: "run_state m s = (r, t)" by fastforce
  with preservesD [OF assms(1) \<open>I s\<close>] have "I t" by blast
  with run show "wp (bindE m f) (\<lambda>_. I) s"
    by (cases r) (auto simp: bindE_def wp_def intro: preservesD [OF assms(2)])
qed

lemma preserves_wrap [preserves_rules]: "preserves I m \<Longrightarrow> preserves I (wrap s m)"
  unfolding wrap_def by (intro preserves_bind preserves_case_sum preserves_return)

lemma preserves_liftE [preserves_rules]: "preserves I (liftE r)"
  unfolding liftE_def by (rule preserves_return)

lemma preserves_case_bool [preserves_rules]:
  "(b \<Longrightarrow> preserves I m) \<Longrightarrow> (\<not> b \<Longrightarrow> preserves I n) \<Longrightarrow>
   preserves I (case b of True \<Rightarrow> m | False \<Rightarrow> n)"
  by (simp split: bool.splits)

section \<open>Lists with a key\<close>

lemma filter_key_single:
  "distinct (map f xs) \<Longrightarrow> x \<in> set xs \<Longrightarrow> filter (\<lambda>y. f y = f x) xs = [x]"
  by (induction xs) (auto simp: filter_empty_conv image_iff)

lemma distinct_map_filter_key: "distinct (map f xs) \<Longrightarrow> distinct (map f (filter p xs))"
  by (rule distinct_map_filter)

end
