(* ===== verification/World.thy ===== *)
theory World
  imports Prelude
begin

text \<open>
  The state in which the handlers of a service run and the calls that leave the process:
  the service's PostgreSQL database with an optional open transaction
  (\<open>internal/infrastructure/db/tx.go\<close>), and the trace of what it sent to the outside.

  Everything that is not code of the repository is the argument \<open>env\<close>: the outcome of the
  \<open>n\<close>-th call that leaves the process, the clocks, fresh UUIDs, random bytes, the
  validators and codecs of third-party packages. Each such call draws the next call number
  from \<open>ncalls\<close>, so that a theorem for all \<open>env\<close> covers every sequence of failures.
\<close>

section \<open>Basic types\<close>

type_synonym time = int
type_synonym duration = int
type_synonym uuid = "128 word"
type_synonym byte = "8 word"

text \<open>
  The JSON value a message payload encodes. \<open>JOther\<close> is a number that is not an integer
  literal in the range of Go's \<open>int\<close>. A payload is a byte slice, by what
  \<open>json.Decoder.Decode\<close> reads from it first: a value, or a syntax error.
\<close>

datatype json =
    JNull
  | JBool bool
  | JInt int
  | JOther string
  | JStr string
  | JArr "json list"
  | JObj "(string \<times> json) list"

datatype payload = Doc json | Garbage

text \<open>
  The values a \<open>context.Context\<close> of the program carries: whether it holds a transaction
  (key \<open>txContextKey\<close>) and the identifiers of the logging package; an absent string value
  reads as the empty string.
\<close>

record ctx =
  ctx_tx :: bool
  ctx_requestID :: string
  ctx_scanID :: string
  ctx_sagaID :: string
  ctx_protocol :: string

definition Background :: ctx where
  "Background = \<lparr>ctx_tx = False, ctx_requestID = '''', ctx_scanID = '''', ctx_sagaID = '''',
     ctx_protocol = ''''\<rparr>"

definition WithSagaID :: "ctx \<Rightarrow> string \<Rightarrow> ctx" where
  "WithSagaID c i = c\<lparr>ctx_sagaID := i\<rparr>"

definition WithScanID :: "ctx \<Rightarrow> string \<Rightarrow> ctx" where
  "WithScanID c i = c\<lparr>ctx_scanID := i\<rparr>"

lemma Background_tx [simp]: "\<not> ctx_tx Background"
  by (simp add: Background_def)

lemma WithSagaID_tx [simp]: "ctx_tx (WithSagaID c i) = ctx_tx c"
  by (simp add: WithSagaID_def)

section \<open>The environment\<close>

text \<open>
  \<open>Fails m\<close>: the call reports an error with text \<open>m\<close> and had no effect. \<open>Lost m\<close>: it reports the
  error although the other side executed it (a connection that broke before the
  acknowledgement). Such errors are none of the sentinels the code tests for.
\<close>

datatype fault = NoFault | Fails string | Lost string

record env =
  env_fault :: "nat \<Rightarrow> fault"
  env_clock :: "nat \<Rightarrow> time"
  env_dbclock :: "nat \<Rightarrow> time"
  env_uuid :: "nat \<Rightarrow> uuid"
  env_rand :: "nat \<Rightarrow> error + (nat \<Rightarrow> byte)"
  env_locked :: "nat \<Rightarrow> nat \<Rightarrow> bool"
  uuid_String :: "uuid \<Rightarrow> string"
  uuid_Parse :: "string \<Rightarrow> error + uuid"
  valid_uuid :: "string \<Rightarrow> bool"
  valid_email :: "string \<Rightarrow> bool"
  valid_url :: "string \<Rightarrow> bool"

section \<open>The world of a service\<close>

text \<open>
  What leaves the process, in order: messages accepted by JetStream, e-mails accepted by
  the SMTP server, compensation RPCs executed by the subscription service.
\<close>

datatype effect =
    Published string payload
  | Mailed string string string
  | CompensateRPC string string string string

record 'db tx =
  tx_work :: 'db
  tx_start :: time
  tx_aborted :: bool

text \<open>
  \<open>committed\<close> is what other connections see; \<open>open_tx\<close> the working copy of the one open
  transaction; \<open>nudge\<close> whether the relay's channel of capacity one is full.
\<close>

record 'db world =
  committed :: 'db
  open_tx :: "'db tx option"
  ncalls :: nat
  trace :: "effect list"
  nudge :: bool

section \<open>Calls that leave the process\<close>

text \<open>The readings of clocks and generators take the number of the next call.\<close>

definition Now :: "env \<Rightarrow> ('db world, time) state" where
  "Now E = State (\<lambda>w. (env_clock E (ncalls w), w\<lparr>ncalls := Suc (ncalls w)\<rparr>))"

definition NewUUID :: "env \<Rightarrow> ('db world, uuid) state" where
  "NewUUID E = State (\<lambda>w. (env_uuid E (ncalls w), w\<lparr>ncalls := Suc (ncalls w)\<rparr>))"

definition NewString :: "env \<Rightarrow> ('db world, string) state" where
  "NewString E = do { u \<leftarrow> NewUUID E; State_Monad.return (uuid_String E u) }"

text \<open>\<open>rand.Read\<close> on a buffer of \<open>k\<close> bytes.\<close>

definition RandRead :: "env \<Rightarrow> nat \<Rightarrow> ('db world, error + byte list) state" where
  "RandRead E k = State (\<lambda>w.
     ((case env_rand E (ncalls w) of Inl e \<Rightarrow> Inl e | Inr f \<Rightarrow> Inr (map f [0..<k])),
      w\<lparr>ncalls := Suc (ncalls w)\<rparr>))"

subsection \<open>SQL statements\<close>

text \<open>
  A statement is a function of what the server supplies (\<open>now()\<close>, which is the start of the
  transaction; \<open>gen_random_uuid()\<close>; the next identity value; the rows other sessions hold
  locks on) and of the tables it runs on. It yields a constraint violation, or its result
  and the new tables. Identity values are call numbers: they grow, are never handed out
  twice and are not taken back by a rollback, as those of a PostgreSQL sequence.
\<close>

record stmt_in =
  st_now :: time
  st_uuid :: uuid
  st_id :: nat
  st_locked :: "nat \<Rightarrow> bool"

type_synonym ('db, 'r) stmt = "stmt_in \<Rightarrow> 'db \<Rightarrow> string + 'r \<times> 'db"

definition server_in :: "env \<Rightarrow> nat \<Rightarrow> time \<Rightarrow> stmt_in" where
  "server_in E n t = \<lparr>st_now = t, st_uuid = env_uuid E n, st_id = n, st_locked = env_locked E n\<rparr>"

text \<open>The columns of type \<open>INTEGER\<close>: 32 bits, PostgreSQL raises an error beyond.\<close>

definition max_integer :: int where
  "max_integer = 2147483647"

text \<open>
  \<open>db.FromContext\<close> chooses between the pool and the transaction of the context. On the pool
  a statement is its own transaction; in a transaction an error aborts it, and every later
  statement fails until the rollback.
\<close>

datatype conn = Pool | Tx

definition FromContext :: "ctx \<Rightarrow> conn" where
  "FromContext c = (if ctx_tx c then Tx else Pool)"

definition run_pool :: "fault \<Rightarrow> string + 'r \<times> 'db \<Rightarrow> 'db world \<Rightarrow> (error + 'r) \<times> 'db world" where
  "run_pool f res w =
     (case f of
        Fails m \<Rightarrow> (Inl (External m), w)
      | NoFault \<Rightarrow> (case res of Inl m \<Rightarrow> (Inl (External m), w) | Inr (r, d) \<Rightarrow> (Inr r, w\<lparr>committed := d\<rparr>))
      | Lost m \<Rightarrow> (case res of Inl m' \<Rightarrow> (Inl (External m'), w) | Inr (r, d) \<Rightarrow> (Inl (External m), w\<lparr>committed := d\<rparr>)))"

definition run_tx ::
  "fault \<Rightarrow> string + 'r \<times> 'db \<Rightarrow> 'db tx \<Rightarrow> 'db world \<Rightarrow> (error + 'r) \<times> 'db world" where
  "run_tx f res t w =
     (let abort = (\<lambda>m. (Inl (External m), w\<lparr>open_tx := Some (t\<lparr>tx_aborted := True\<rparr>)\<rparr>)) in
      if tx_aborted t then (Inl (External ''current transaction is aborted''), w)
      else case f of
        Fails m \<Rightarrow> abort m
      | Lost m \<Rightarrow> abort m
      | NoFault \<Rightarrow> (case res of Inl m \<Rightarrow> abort m
                    | Inr (r, d) \<Rightarrow> (Inr r, w\<lparr>open_tx := Some (t\<lparr>tx_work := d\<rparr>)\<rparr>)))"

definition sql :: "env \<Rightarrow> conn \<Rightarrow> ('db, 'r) stmt \<Rightarrow> ('db world, error + 'r) state" where
  "sql E c f = State (\<lambda>w.
     let n = ncalls w; w1 = w\<lparr>ncalls := Suc n\<rparr> in
     case c of
       Pool \<Rightarrow> run_pool (env_fault E n) (f (server_in E n (env_dbclock E n)) (committed w)) w1
     | Tx \<Rightarrow> (case open_tx w of
         None \<Rightarrow> (Inl (Sentinel ErrTxClosed), w1)
       | Some t \<Rightarrow> run_tx (env_fault E n) (f (server_in E n (tx_start t)) (tx_work t)) t w1))"

text \<open>
  \<open>Row.Scan\<close> after \<open>QueryRow\<close>, which reads columns by their position, and pgx's \<open>RowToStructByName\<close>, which matches the columns of the
  result with the \<open>db\<close> tags of the struct: a column without a field and a field without a column are errors. All names here are in
  lower case.
\<close>

definition Scan :: "'r list \<Rightarrow> error + 'r" where
  "Scan rows = (case rows of [] \<Rightarrow> Inl (Sentinel ErrNoRows) | r # _ \<Rightarrow> Inr r)"

definition RowToStructByName :: "string list \<Rightarrow> string list \<Rightarrow> 'r \<Rightarrow> error + 'r" where
  "RowToStructByName tags columns row =
     (if length tags = length columns \<and> set tags = set columns then Inr row
      else Inl (External ''cannot find field in returned row''))"

primrec CollectRows :: "('q \<Rightarrow> error + 'r) \<Rightarrow> 'q list \<Rightarrow> error + 'r list" where
  "CollectRows fn [] = Inr []"
| "CollectRows fn (row # rows) =
     (case fn row of
        Inl e \<Rightarrow> Inl e
      | Inr x \<Rightarrow> (case CollectRows fn rows of Inl e \<Rightarrow> Inl e | Inr xs \<Rightarrow> Inr (x # xs)))"

definition CollectExactlyOneRow :: "('q \<Rightarrow> error + 'r) \<Rightarrow> 'q list \<Rightarrow> error + 'r" where
  "CollectExactlyOneRow fn rows =
     (case rows of [] \<Rightarrow> Inl (Sentinel ErrNoRows)
      | row # rest \<Rightarrow> (case fn row of
          Inl e \<Rightarrow> Inl e
        | Inr x \<Rightarrow> if rest \<noteq> [] then Inl (Sentinel ErrTooManyRows) else Inr x))"

text \<open>When every column has its field, the rows are read as they are.\<close>

definition exactly_one :: "'r list \<Rightarrow> error + 'r" where
  "exactly_one rows =
     (case rows of [] \<Rightarrow> Inl (Sentinel ErrNoRows)
      | [r] \<Rightarrow> Inr r
      | _ \<Rightarrow> Inl (Sentinel ErrTooManyRows))"

lemma CollectRows_by_name:
  "CollectRows (RowToStructByName tags columns) rows =
     (if rows = [] \<or> length tags = length columns \<and> set tags = set columns then Inr rows
      else Inl (External ''cannot find field in returned row''))"
  by (induction rows) (auto simp: RowToStructByName_def)

lemma collect_matching:
  assumes "length tags = length columns" "set tags = set columns"
  shows "CollectRows (RowToStructByName tags columns) rows = Inr rows"
    and "CollectExactlyOneRow (RowToStructByName tags columns) rows = exactly_one rows"
  using assms
  by (auto simp: CollectRows_by_name CollectExactlyOneRow_def exactly_one_def RowToStructByName_def split: list.splits)

lemma collect_ok:
  fixes p :: "('s, error + 'r) state"
  shows "bindE p (\<lambda>rows. wrap m (liftE (Inr rows))) = p"
proof -
  have "(case r of Inl e \<Rightarrow> err e | Inr x \<Rightarrow> ok x) = (State_Monad.return r :: ('s, error + 'r) state)" for r
    by (cases r) simp_all
  then show ?thesis by (simp add: bindE_def wrap_def liftE_def cong: sum.case_cong)
qed

definition QueryRow :: "env \<Rightarrow> conn \<Rightarrow> ('db, 'r list) stmt \<Rightarrow> ('db world, error + 'r) state" where
  "QueryRow E c f = bindE (sql E c f) (\<lambda>rows. liftE (Scan rows))"

subsection \<open>Transactions\<close>

definition Begin :: "env \<Rightarrow> ('db world, error + unit) state" where
  "Begin E = State (\<lambda>w.
     let n = ncalls w; w1 = w\<lparr>ncalls := Suc n\<rparr> in
     case env_fault E n of
       NoFault \<Rightarrow> (Inr (), w1\<lparr>open_tx :=
         Some \<lparr>tx_work = committed w, tx_start = env_dbclock E n, tx_aborted = False\<rparr>\<rparr>)
     | Fails m \<Rightarrow> (Inl (External m), w1)
     | Lost m \<Rightarrow> (Inl (External m), w1))"

text \<open>
  A commit that is lost may have taken effect: \<open>Lost\<close> commits and reports the error. Either
  way the transaction is over.
\<close>

definition Commit :: "env \<Rightarrow> ('db world, error + unit) state" where
  "Commit E = State (\<lambda>w.
     let n = ncalls w; w1 = w\<lparr>ncalls := Suc n, open_tx := None\<rparr> in
     case open_tx w of
       None \<Rightarrow> (Inl (Sentinel ErrTxClosed), w1)
     | Some t \<Rightarrow>
         if tx_aborted t then (Inl (Sentinel ErrTxCommitRollback), w1)
         else case env_fault E n of
           NoFault \<Rightarrow> (Inr (), w1\<lparr>committed := tx_work t\<rparr>)
         | Fails m \<Rightarrow> (Inl (External m), w1)
         | Lost m \<Rightarrow> (Inl (External m), w1\<lparr>committed := tx_work t\<rparr>))"

text \<open>\<open>tx.Rollback\<close>: its error is dropped by every caller, and on a closed transaction it does nothing.\<close>

definition Rollback :: "('db world, unit) state" where
  "Rollback = State (\<lambda>w. ((), w\<lparr>open_tx := None\<rparr>))"

text \<open>\<open>Transactor.Within\<close>; the closure's captured result is the value it returns.\<close>

definition Within ::
  "env \<Rightarrow> ctx \<Rightarrow> (ctx \<Rightarrow> ('db world, error + 'a) state) \<Rightarrow> ('db world, error + 'a) state" where
  "Within E c fn =
     (if ctx_tx c then fn c
      else do {
        b \<leftarrow> Begin E;
        case b of
          Inl e \<Rightarrow> err (Errorf ''begin tx'' e)
        | Inr _ \<Rightarrow> do {
            r \<leftarrow> fn (c\<lparr>ctx_tx := True\<rparr>);
            case r of
              Inl e \<Rightarrow> do { _ \<leftarrow> Rollback; err e }
            | Inr x \<Rightarrow> do {
                k \<leftarrow> Commit E;
                _ \<leftarrow> Rollback;
                case k of
                  Inl e \<Rightarrow> err (Errorf ''commit tx'' e)
                | Inr _ \<Rightarrow> ok x
              }
          }
      })"

section \<open>Rules for calls and transactions\<close>

lemma wp_Now [wp_simps]:
  "wp (Now E) Q = (\<lambda>w. Q (env_clock E (ncalls w)) (w\<lparr>ncalls := Suc (ncalls w)\<rparr>))"
  by (simp add: Now_def wp_simps)

lemma wp_NewUUID [wp_simps]:
  "wp (NewUUID E) Q = (\<lambda>w. Q (env_uuid E (ncalls w)) (w\<lparr>ncalls := Suc (ncalls w)\<rparr>))"
  by (simp add: NewUUID_def wp_simps)

lemma wp_NewString [wp_simps]:
  "wp (NewString E) Q = (\<lambda>w. Q (uuid_String E (env_uuid E (ncalls w))) (w\<lparr>ncalls := Suc (ncalls w)\<rparr>))"
  by (simp add: NewString_def wp_simps)

lemma wp_RandRead [wp_simps]:
  "wp (RandRead E k) Q = (\<lambda>w. Q
     (case env_rand E (ncalls w) of Inl e \<Rightarrow> Inl e | Inr f \<Rightarrow> Inr (map f [0..<k])) (w\<lparr>ncalls := Suc (ncalls w)\<rparr>))"
  by (simp add: RandRead_def wp_simps)

lemma wp_Rollback [wp_simps]: "wp Rollback Q = (\<lambda>w. Q () (w\<lparr>open_tx := None\<rparr>))"
  by (simp add: Rollback_def wp_simps)

lemma world_same_tx: "open_tx w = t \<Longrightarrow> w\<lparr>ncalls := n, open_tx := t\<rparr> = w\<lparr>ncalls := n\<rparr>"
  for w :: "'db world"
  by (cases w) simp

text \<open>
  A statement on the pool: it fails without effect, it succeeds, or it takes effect and its
  acknowledgement is lost.
\<close>

lemma wp_sql_pool:
  assumes "\<And>m. Q (Inl (External m)) (w\<lparr>ncalls := Suc (ncalls w)\<rparr>)"
    and "\<And>r d. f (server_in E (ncalls w) (env_dbclock E (ncalls w))) (committed w) = Inr (r, d) \<Longrightarrow>
           Q (Inr r) (w\<lparr>ncalls := Suc (ncalls w), committed := d\<rparr>)"
    and "\<And>r d m. f (server_in E (ncalls w) (env_dbclock E (ncalls w))) (committed w) = Inr (r, d) \<Longrightarrow>
           Q (Inl (External m)) (w\<lparr>ncalls := Suc (ncalls w), committed := d\<rparr>)"
  shows "wp (sql E Pool f) Q w"
  using assms by (auto simp: sql_def run_pool_def wp_simps Let_def split: fault.splits sum.splits)

lemma world_same_db [simp]: "w\<lparr>ncalls := n, committed := committed w\<rparr> = w\<lparr>ncalls := n\<rparr>"
  for w :: "'db world"
  by (cases w) simp

text \<open>
  A statement in the open transaction: it fails, possibly aborting the transaction, or it
  updates the working copy.
\<close>

lemma wp_sql_tx:
  assumes "open_tx w = Some t"
    and "\<And>m t'. Q (Inl (External m)) (w\<lparr>ncalls := Suc (ncalls w), open_tx := Some t'\<rparr>)"
    and "\<And>r d. \<not> tx_aborted t \<Longrightarrow>
           f (server_in E (ncalls w) (tx_start t)) (tx_work t) = Inr (r, d) \<Longrightarrow>
           Q (Inr r) (w\<lparr>ncalls := Suc (ncalls w), open_tx := Some (t\<lparr>tx_work := d\<rparr>)\<rparr>)"
  shows "wp (sql E Tx f) Q w"
proof -
  have same: "Q (Inl (External m)) (w\<lparr>ncalls := Suc (ncalls w)\<rparr>)" for m
    using assms(2) [of m t] world_same_tx [OF assms(1)] by simp
  show ?thesis
    using assms(1,3) assms(2) [of _ "t\<lparr>tx_aborted := True\<rparr>"] same
    by (auto simp: sql_def run_tx_def wp_simps Let_def split: fault.splits sum.splits)
qed

lemma Scan_filter:
  "Scan (filter p xs) = (case find p xs of None \<Rightarrow> Inl (Sentinel ErrNoRows) | Some x \<Rightarrow> Inr x)"
  by (induction xs) (auto simp: Scan_def)

subsection \<open>Programs that only work inside the open transaction\<close>

definition tx_frame :: "'db world \<Rightarrow> 'db world \<Rightarrow> bool" where
  "tx_frame w w' \<longleftrightarrow> committed w' = committed w \<and> trace w' = trace w \<and> nudge w' = nudge w \<and>
     ncalls w \<le> ncalls w' \<and> open_tx w' \<noteq> None"

definition tx_only :: "('db world, 'a) state \<Rightarrow> bool" where
  "tx_only m \<longleftrightarrow> (\<forall>w. open_tx w \<noteq> None \<longrightarrow> wp m (\<lambda>_. tx_frame w) w)"

named_theorems tx_only_rules \<open>introduction rules for \<open>tx_only\<close>\<close>

lemma tx_onlyD: "tx_only m \<Longrightarrow> open_tx w \<noteq> None \<Longrightarrow> wp m (\<lambda>_. tx_frame w) w"
  by (simp add: tx_only_def)

lemma tx_frame_trans: "tx_frame a b \<Longrightarrow> tx_frame b c \<Longrightarrow> tx_frame a c"
  by (auto simp: tx_frame_def)

lemma tx_only_return [tx_only_rules]: "tx_only (State_Monad.return a)"
  by (simp add: tx_only_def tx_frame_def wp_simps)

lemma tx_only_bind [tx_only_rules]:
  fixes m :: "('db world, 'a) state" and f :: "'a \<Rightarrow> ('db world, 'b) state"
  assumes "tx_only m" and "\<And>a. tx_only (f a)"
  shows "tx_only (State_Monad.bind m f)"
  unfolding tx_only_def
proof (intro allI impI)
  fix w :: "'db world"
  assume "open_tx w \<noteq> None"
  with assms(1) have "wp m (\<lambda>_. tx_frame w) w" by (rule tx_onlyD)
  then have "wp m (\<lambda>a. wp (f a) (\<lambda>_. tx_frame w)) w"
  proof (rule wp_mono)
    fix a w1
    assume fr: "tx_frame w w1"
    then have "wp (f a) (\<lambda>_. tx_frame w1) w1"
      by (intro tx_onlyD assms(2)) (simp add: tx_frame_def)
    then show "wp (f a) (\<lambda>_. tx_frame w) w1"
      by (rule wp_mono) (rule tx_frame_trans [OF fr])
  qed
  then show "wp (State_Monad.bind m f) (\<lambda>_. tx_frame w) w" by (simp add: wp_simps)
qed

lemma tx_only_if [tx_only_rules]:
  "(b \<Longrightarrow> tx_only m) \<Longrightarrow> (\<not> b \<Longrightarrow> tx_only n) \<Longrightarrow> tx_only (if b then m else n)"
  by simp

lemma tx_only_case_sum [tx_only_rules]:
  "(\<And>a. x = Inl a \<Longrightarrow> tx_only (f a)) \<Longrightarrow> (\<And>b. x = Inr b \<Longrightarrow> tx_only (g b)) \<Longrightarrow>
   tx_only (case x of Inl a \<Rightarrow> f a | Inr b \<Rightarrow> g b)"
  by (simp split: sum.splits)

lemma tx_only_case_option [tx_only_rules]:
  "(x = None \<Longrightarrow> tx_only m) \<Longrightarrow> (\<And>b. x = Some b \<Longrightarrow> tx_only (g b)) \<Longrightarrow>
   tx_only (case x of None \<Rightarrow> m | Some b \<Rightarrow> g b)"
  by (simp split: option.splits)

lemma tx_only_bindE [tx_only_rules]:
  fixes m :: "('db world, error + 'a) state" and f :: "'a \<Rightarrow> ('db world, error + 'b) state"
  shows "tx_only m \<Longrightarrow> (\<And>a. tx_only (f a)) \<Longrightarrow> tx_only (bindE m f)"
  unfolding bindE_def by (intro tx_only_bind tx_only_case_sum tx_only_return)

lemma tx_only_wrap [tx_only_rules]:
  fixes m :: "('db world, error + 'a) state"
  shows "tx_only m \<Longrightarrow> tx_only (wrap s m)"
  unfolding wrap_def by (intro tx_only_bind tx_only_case_sum tx_only_return)

lemma tx_only_liftE [tx_only_rules]: "tx_only (liftE r)"
  unfolding liftE_def by (rule tx_only_return)

lemma tx_only_sql [tx_only_rules]: "tx_only (sql E Tx f)"
  unfolding tx_only_def
  by (auto intro!: wp_sql_tx simp: tx_frame_def)

lemma tx_only_QueryRow [tx_only_rules]: "tx_only (QueryRow E Tx f)"
  unfolding QueryRow_def by (intro tx_only_rules)

lemma tx_only_calls [tx_only_rules]:
  "tx_only (Now E)" "tx_only (NewUUID E)" "tx_only (NewString E)" "tx_only (RandRead E k)"
  by (auto simp: tx_only_def tx_frame_def wp_simps)

lemma FromContext_tx [simp]: "FromContext (c\<lparr>ctx_tx := True\<rparr>) = Tx"
  by (simp add: FromContext_def)

lemma FromContext_pool [simp]: "\<not> ctx_tx c \<Longrightarrow> FromContext c = Pool"
  by (simp add: FromContext_def)

subsection \<open>The transactor\<close>

definition begun :: "env \<Rightarrow> 'db world \<Rightarrow> 'db world" where
  "begun E w = w\<lparr>ncalls := Suc (ncalls w), open_tx :=
     Some \<lparr>tx_work = committed w, tx_start = env_dbclock E (ncalls w), tx_aborted = False\<rparr>\<rparr>"

lemma begun_simps [simp]:
  "ncalls (begun E w) = Suc (ncalls w)" "committed (begun E w) = committed w"
  "open_tx (begun E w) =
     Some \<lparr>tx_work = committed w, tx_start = env_dbclock E (ncalls w), tx_aborted = False\<rparr>"
  "trace (begun E w) = trace w" "nudge (begun E w) = nudge w"
  by (simp_all add: begun_def)

text \<open>
  The transactor's rule: a body that only works in the transaction either leaves nothing
  behind, or what it committed is its whole working copy. A lost commit reports an error
  over the committed copy.
\<close>

text \<open>The end of a transaction: what follows the body, from a state the body may have left.\<close>

lemma wp_Within_end:
  assumes w: "open_tx w = None" and fr: "tx_frame (begun E w) w1"
    and fails: "\<And>e n. ncalls w < n \<Longrightarrow> Q (Inl e) (w\<lparr>ncalls := n\<rparr>)"
    and post: "\<forall>x t n. r = Inr x \<longrightarrow> open_tx w1 = Some t \<longrightarrow> \<not> tx_aborted t \<longrightarrow> ncalls w1 < n \<longrightarrow>
      Q (Inr x) (w\<lparr>ncalls := n, committed := tx_work t\<rparr>) \<and> (\<forall>e. Q (Inl e) (w\<lparr>ncalls := n, committed := tx_work t\<rparr>))"
  shows "wp (case r of
      Inl e \<Rightarrow> do { _ \<leftarrow> Rollback; err e }
    | Inr x \<Rightarrow> do { k \<leftarrow> Commit E; _ \<leftarrow> Rollback;
        case k of Inl e \<Rightarrow> err (Errorf ''commit tx'' e) | Inr _ \<Rightarrow> ok x }) Q w1"
proof -
  from fr w have eq: "w1\<lparr>open_tx := None, ncalls := n\<rparr> = w\<lparr>ncalls := n\<rparr>"
    "w1\<lparr>ncalls := n, open_tx := None\<rparr> = w\<lparr>ncalls := n\<rparr>"
    "w1\<lparr>ncalls := n, open_tx := None, committed := d\<rparr> = w\<lparr>ncalls := n, committed := d\<rparr>" for n d
    by (cases w; cases w1; simp add: tx_frame_def)+
  from w have wn: "w\<lparr>ncalls := n, open_tx := None\<rparr> = w\<lparr>ncalls := n\<rparr>"
    "w\<lparr>ncalls := n, committed := d, open_tx := None\<rparr> = w\<lparr>ncalls := n, committed := d\<rparr>" for n d
    by (cases w; simp)+
  from fr have n: "ncalls w < ncalls w1" "ncalls w < Suc (ncalls w1)" by (simp_all add: tx_frame_def)
  have undone: "w1\<lparr>open_tx := None\<rparr> = w\<lparr>ncalls := ncalls w1\<rparr>"
    using eq(1) [of "ncalls w1"] by simp
  show ?thesis
  proof (cases r)
    case (Inl e)
    with fails [OF n(1)] undone show ?thesis by (simp add: wp_simps)
  next
    case (Inr x)
    from fr obtain t where t: "open_tx w1 = Some t" by (auto simp: tx_frame_def)
    from post Inr t have Q: "\<not> tx_aborted t \<Longrightarrow>
        Q (Inr x) (w\<lparr>ncalls := Suc (ncalls w1), committed := tx_work t\<rparr>)"
      "\<And>e. \<not> tx_aborted t \<Longrightarrow> Q (Inl e) (w\<lparr>ncalls := Suc (ncalls w1), committed := tx_work t\<rparr>)"
      by auto
    from Inr t show ?thesis
      by (auto simp: Commit_def wp_simps Let_def eq wn Q fails n split: fault.splits)
  qed
qed

lemma wp_Within:
  assumes c: "\<not> ctx_tx c" and w: "open_tx w = None"
    and only: "tx_only (fn (c\<lparr>ctx_tx := True\<rparr>))"
    and fails: "\<And>e n. ncalls w < n \<Longrightarrow> Q (Inl e) (w\<lparr>ncalls := n\<rparr>)"
    and body: "wp (fn (c\<lparr>ctx_tx := True\<rparr>)) (\<lambda>r w1. \<forall>x t n. r = Inr x \<longrightarrow> open_tx w1 = Some t \<longrightarrow>
        \<not> tx_aborted t \<longrightarrow> ncalls w1 < n \<longrightarrow>
        Q (Inr x) (w\<lparr>ncalls := n, committed := tx_work t\<rparr>) \<and>
        (\<forall>e. Q (Inl e) (w\<lparr>ncalls := n, committed := tx_work t\<rparr>))) (begun E w)"
  shows "wp (Within E c fn) Q w"
proof -
  let ?k = "\<lambda>r. case r of
      Inl e \<Rightarrow> do { _ \<leftarrow> Rollback; err e }
    | Inr x \<Rightarrow> do { k \<leftarrow> Commit E; _ \<leftarrow> Rollback;
        case k of Inl e \<Rightarrow> err (Errorf ''commit tx'' e) | Inr _ \<Rightarrow> ok x }"
  have frame: "wp (fn (c\<lparr>ctx_tx := True\<rparr>)) (\<lambda>_. tx_frame (begun E w)) (begun E w)"
    by (rule tx_onlyD [OF only]) simp
  have "wp (fn (c\<lparr>ctx_tx := True\<rparr>)) (\<lambda>r. wp (?k r) Q) (begun E w)"
    by (rule wp_mono [OF wp_conj [THEN iffD2, OF conjI [OF frame body]]], elim conjE)
      (rule wp_Within_end [where Q = Q, OF w _ fails])
  then have "wp (fn (c\<lparr>ctx_tx := True\<rparr>)) (\<lambda>r. wp (?k r) Q)
      (w\<lparr>ncalls := Suc (ncalls w), open_tx :=
         Some \<lparr>tx_work = committed w, tx_start = env_dbclock E (ncalls w), tx_aborted = False\<rparr>\<rparr>)"
    by (simp only: begun_def)
  then show ?thesis
    using c fails [of "Suc (ncalls w)"]
    by (auto simp: Within_def Begin_def wp_simps Let_def split: fault.splits)
qed

subsection \<open>Transaction bodies as relations\<close>

text \<open>
  \<open>tx_step m R\<close>: in an open transaction \<open>m\<close> only works on the working copy, and when it returns \<open>x\<close>
  the copies before and after are related by \<open>R x\<close>. The rules follow the structure of the body.
\<close>

definition tx_step :: "('db world, error + 'a) state \<Rightarrow> ('a \<Rightarrow> 'db \<Rightarrow> 'db \<Rightarrow> bool) \<Rightarrow> bool" where
  "tx_step m R \<longleftrightarrow> (\<forall>w t. open_tx w = Some t \<longrightarrow> wp m (\<lambda>r w1. tx_frame w w1 \<and>
     (\<forall>x t1. r = Inr x \<longrightarrow> open_tx w1 = Some t1 \<longrightarrow> R x (tx_work t) (tx_work t1))) w)"

named_theorems tx_step_rules \<open>introduction rules for \<open>tx_step\<close>\<close>

lemma tx_stepD:
  "tx_step m R \<Longrightarrow> open_tx w = Some t \<Longrightarrow> wp m (\<lambda>r w1. tx_frame w w1 \<and>
     (\<forall>x t1. r = Inr x \<longrightarrow> open_tx w1 = Some t1 \<longrightarrow> R x (tx_work t) (tx_work t1))) w"
  by (simp add: tx_step_def)

lemma tx_step_only: "tx_step m R \<Longrightarrow> tx_only m"
  unfolding tx_only_def by (blast intro: wp_mono [OF tx_stepD])

lemma tx_step_mono: "tx_step m R \<Longrightarrow> (\<And>x d d'. R x d d' \<Longrightarrow> S x d d') \<Longrightarrow> tx_step m S"
  unfolding tx_step_def by (blast intro: wp_mono)

lemma tx_step_ok [tx_step_rules]: "tx_step (ok x) (\<lambda>y d d'. y = x \<and> d' = d)"
  by (auto simp: tx_step_def tx_frame_def wp_return)

lemma tx_step_sql [tx_step_rules]: "tx_step (sql E Tx f) (\<lambda>x d d'. \<exists>i. f i d = Inr (x, d'))"
  unfolding tx_step_def
  by (intro allI impI, erule wp_sql_tx) (auto simp: tx_frame_def)

lemma tx_step_wrap [tx_step_rules]:
  assumes "tx_step m R"
  shows "tx_step (wrap s m) R"
  unfolding tx_step_def wp_wrap
  by (intro allI impI, erule wp_mono [OF tx_stepD [OF assms]]) (auto split: sum.splits)

lemma tx_step_if [tx_step_rules]:
  "(b \<Longrightarrow> tx_step m R) \<Longrightarrow> (\<not> b \<Longrightarrow> tx_step n S) \<Longrightarrow>
   tx_step (if b then m else n) (\<lambda>x d d'. if b then R x d d' else S x d d')"
  by simp

lemma tx_step_bindE [tx_step_rules]:
  fixes m :: "('db world, error + 'a) state" and f :: "'a \<Rightarrow> ('db world, error + 'b) state"
  assumes m: "tx_step m R" and f: "\<And>x. tx_step (f x) (S x)"
  shows "tx_step (bindE m f) (\<lambda>y d d''. \<exists>x d'. R x d d' \<and> S x y d' d'')"
  unfolding tx_step_def wp_bindE
proof (intro allI impI)
  fix w :: "'db world" and t
  assume t: "open_tx w = Some t"
  let ?post = "\<lambda>r w2. tx_frame w w2 \<and> (\<forall>y t2. r = Inr y \<longrightarrow> open_tx w2 = Some t2 \<longrightarrow>
    (\<exists>x d'. R x (tx_work t) d' \<and> S x y d' (tx_work t2)))"
  have rest: "wp (f x) ?post w1"
    if fr: "tx_frame w w1" and R: "\<forall>t1. open_tx w1 = Some t1 \<longrightarrow> R x (tx_work t) (tx_work t1)" for x w1
  proof -
    from fr obtain t1 where t1: "open_tx w1 = Some t1" by (auto simp: tx_frame_def)
    show ?thesis
      by (rule wp_mono [OF tx_stepD [OF f t1]]) (use R t1 tx_frame_trans [OF fr] in blast)
  qed
  show "wp m (\<lambda>r w1. case r of Inl e \<Rightarrow> ?post (Inl e) w1 | Inr x \<Rightarrow> wp (f x) ?post w1) w"
    by (rule wp_mono [OF tx_stepD [OF m t]]) (use rest in \<open>simp split: sum.splits\<close>)
qed

lemma wp_Within_step:
  assumes "\<not> ctx_tx c" and "open_tx w = None" and step: "tx_step (fn (c\<lparr>ctx_tx := True\<rparr>)) R"
    and fails: "\<And>e n. ncalls w < n \<Longrightarrow> Q (Inl e) (w\<lparr>ncalls := n\<rparr>)"
    and ends: "\<And>x d r n. R x (committed w) d \<Longrightarrow> r = Inr x \<or> isl r \<Longrightarrow> ncalls w < n \<Longrightarrow>
      Q r (w\<lparr>ncalls := n, committed := d\<rparr>)"
  shows "wp (Within E c fn) Q w"
proof (rule wp_Within [where c = c and w = w and fn = fn and Q = Q])
  show "tx_only (fn (c\<lparr>ctx_tx := True\<rparr>))" by (rule tx_step_only [OF step])
  show "wp (fn (c\<lparr>ctx_tx := True\<rparr>)) (\<lambda>r w1. \<forall>x t n. r = Inr x \<longrightarrow> open_tx w1 = Some t \<longrightarrow>
      \<not> tx_aborted t \<longrightarrow> ncalls w1 < n \<longrightarrow> Q (Inr x) (w\<lparr>ncalls := n, committed := tx_work t\<rparr>) \<and>
      (\<forall>e. Q (Inl e) (w\<lparr>ncalls := n, committed := tx_work t\<rparr>))) (begun E w)"
    by (rule wp_mono [OF tx_stepD [OF step begun_simps(3)]]) (auto simp: tx_frame_def intro!: ends)
qed (use assms in auto)

section \<open>Invariants of a database\<close>

text \<open>
  A property of the tables that the handlers keep, where it may mention the number of calls
  made so far (an identity value is smaller than the next call number). It holds of the
  committed tables and of the working copy of an open transaction.
\<close>

definition db_inv :: "(nat \<Rightarrow> 'db \<Rightarrow> bool) \<Rightarrow> 'db world \<Rightarrow> bool" where
  "db_inv P w \<longleftrightarrow> P (ncalls w) (committed w) \<and> (\<forall>t. open_tx w = Some t \<longrightarrow> P (ncalls w) (tx_work t))"

text \<open>A statement keeps the property if its result satisfies it once its call is made.\<close>

definition stmt_keeps :: "(nat \<Rightarrow> 'db \<Rightarrow> bool) \<Rightarrow> ('db, 'r) stmt \<Rightarrow> bool" where
  "stmt_keeps P f \<longleftrightarrow>
     (\<forall>i d r d'. P (st_id i) d \<longrightarrow> f i d = Inr (r, d') \<longrightarrow> P (Suc (st_id i)) d')"

lemma st_id_server_in [simp]: "st_id (server_in E n t) = n"
  by (simp add: server_in_def)

lemma preserves_committed:
  assumes "preserves (db_inv P) m" and "P (ncalls w) (committed w)" and "open_tx w = None"
    and "run_state m w = (r, w')"
  shows "P (ncalls w') (committed w')"
proof -
  have "db_inv P w" using assms(2,3) by (simp add: db_inv_def)
  from preservesD [OF assms(1) this assms(4)] show ?thesis by (simp add: db_inv_def)
qed

locale db_invariant =
  fixes P :: "nat \<Rightarrow> 'db \<Rightarrow> bool"
  assumes P_later: "P n d \<Longrightarrow> P (Suc n) d"
begin

lemma P_le: "n \<le> m \<Longrightarrow> P n d \<Longrightarrow> P m d"
  by (induction m rule: dec_induct) (auto intro: P_later)

lemma db_inv_call: "db_inv P w \<Longrightarrow> db_inv P (w\<lparr>ncalls := Suc (ncalls w)\<rparr>)"
  by (simp add: db_inv_def P_later)

lemma keeps_readonly: "(\<And>i d r d'. f i d = Inr (r, d') \<Longrightarrow> d' = d) \<Longrightarrow> stmt_keeps P f"
  unfolding stmt_keeps_def using P_later by metis

lemma preserves_sql [preserves_rules]:
  assumes "stmt_keeps P f"
  shows "preserves (db_inv P) (sql E c f)"
proof (rule preservesI)
  fix w
  assume inv: "db_inv P w"
  have keep: "P (ncalls w) d \<Longrightarrow> f (server_in E (ncalls w) t) d = Inr (r, d') \<Longrightarrow> P (Suc (ncalls w)) d'"
    for d t r d'
    using assms unfolding stmt_keeps_def by (metis st_id_server_in)
  show "wp (sql E c f) (\<lambda>_. db_inv P) w"
  proof (cases c)
    case Pool
    with inv keep show ?thesis
      by (auto intro!: wp_sql_pool simp: db_inv_def P_later)
  next
    case Tx
    with inv keep show ?thesis
      by (auto simp: sql_def run_tx_def wp_simps Let_def db_inv_def P_later
          split: option.splits fault.splits sum.splits)
  qed
qed

lemma preserves_QueryRow [preserves_rules]:
  "stmt_keeps P f \<Longrightarrow> preserves (db_inv P) (QueryRow E c f)"
  unfolding QueryRow_def by (intro preserves_bindE preserves_liftE preserves_sql)

lemma preserves_calls [preserves_rules]:
  "preserves (db_inv P) (Now E)" "preserves (db_inv P) (NewUUID E)"
  "preserves (db_inv P) (NewString E)" "preserves (db_inv P) (RandRead E k)"
  by (auto intro!: preservesI db_inv_call simp: wp_simps)

lemma preserves_Begin [preserves_rules]: "preserves (db_inv P) (Begin E)"
  by (rule preservesI) (auto simp: Begin_def wp_simps Let_def db_inv_def P_later split: fault.splits)

lemma preserves_Commit [preserves_rules]: "preserves (db_inv P) (Commit E)"
  by (rule preservesI)
    (auto simp: Commit_def wp_simps Let_def db_inv_def P_later split: option.splits fault.splits)

lemma preserves_Rollback [preserves_rules]: "preserves (db_inv P) Rollback"
  by (rule preservesI) (auto simp: Rollback_def wp_simps db_inv_def)

lemma preserves_Within [preserves_rules]:
  "(\<And>c'. preserves (db_inv P) (fn c')) \<Longrightarrow> preserves (db_inv P) (Within E c fn)"
  unfolding Within_def by (intro preserves_rules) auto

end

section \<open>A calm environment\<close>

text \<open>
  An environment in which no call fails, for concrete runs. UUIDs print in unary, so that
  parsing inverts printing.
\<close>

definition calm_env :: env where
  "calm_env =
     \<lparr>env_fault = (\<lambda>_. NoFault), env_clock = int, env_dbclock = int,
      env_uuid = (\<lambda>n. of_nat n), env_rand = (\<lambda>_. Inr (\<lambda>_. 0)),
      env_locked = (\<lambda>_ _. False),
      uuid_String = (\<lambda>u. CHR ''u'' # replicate (unat u) CHR ''1''),
      uuid_Parse = (\<lambda>s. Inr (of_nat (length s - 1))),
      valid_uuid = (\<lambda>s. s \<noteq> []), valid_email = (\<lambda>s. CHR ''@'' \<in> set s), valid_url = (\<lambda>s. s \<noteq> [])\<rparr>"

text \<open>The same environment with the outcomes of the numbered calls given.\<close>

definition faulty_env :: "(nat \<times> fault) list \<Rightarrow> env" where
  "faulty_env fs = calm_env\<lparr>env_fault := (\<lambda>n. case map_of fs n of None \<Rightarrow> NoFault | Some f \<Rightarrow> f)\<rparr>"

lemma calm_env_simps [simp]:
  "env_fault calm_env n = NoFault" "env_clock calm_env = int" "env_dbclock calm_env = int"
  "env_uuid calm_env = (\<lambda>n. of_nat n)" "env_rand calm_env n = Inr (\<lambda>_. 0)"
  "\<not> env_locked calm_env n i"
  "uuid_String calm_env = (\<lambda>u. CHR ''u'' # replicate (unat u) CHR ''1'')"
  "uuid_Parse calm_env s = Inr (of_nat (length s - 1))"
  "valid_uuid calm_env s \<longleftrightarrow> s \<noteq> []" "valid_email calm_env s \<longleftrightarrow> CHR ''@'' \<in> set s"
  "valid_url calm_env s \<longleftrightarrow> s \<noteq> []"
  by (simp_all add: calm_env_def)

lemma faulty_env_simps [simp]:
  "env_fault (faulty_env fs) n = (case map_of fs n of None \<Rightarrow> NoFault | Some f \<Rightarrow> f)"
  "env_clock (faulty_env fs) = int" "env_dbclock (faulty_env fs) = int"
  "env_uuid (faulty_env fs) = (\<lambda>n. of_nat n)" "env_rand (faulty_env fs) n = Inr (\<lambda>_. 0)"
  "\<not> env_locked (faulty_env fs) n i"
  "uuid_String (faulty_env fs) = (\<lambda>u. CHR ''u'' # replicate (unat u) CHR ''1'')"
  "uuid_Parse (faulty_env fs) s = Inr (of_nat (length s - 1))"
  "valid_uuid (faulty_env fs) s \<longleftrightarrow> s \<noteq> []" "valid_email (faulty_env fs) s \<longleftrightarrow> CHR ''@'' \<in> set s"
  "valid_url (faulty_env fs) s \<longleftrightarrow> s \<noteq> []"
  by (simp_all add: faulty_env_def)

definition fresh_world :: "'db \<Rightarrow> 'db world" where
  "fresh_world d = \<lparr>committed = d, open_tx = None, ncalls = 1, trace = [], nudge = False\<rparr>"

lemma fresh_world_simps [simp]:
  "committed (fresh_world d) = d" "open_tx (fresh_world d) = None" "ncalls (fresh_world d) = 1"
  "trace (fresh_world d) = []" "nudge (fresh_world d) = False"
  by (simp_all add: fresh_world_def)

text \<open>
  \<^bold>\<open>C9.\<close> Atomicity of \<open>Transactor.Within\<close> (\<open>db/tx.go\<close>), for every failure of begin, body
  statements and commit: the transaction is over afterwards; a returned value means the
  committed database is exactly the working copy with which the body succeeded; a returned
  error means the database is unchanged, or the body succeeded and only the acknowledgement
  of the commit was lost. Nothing in between is ever visible.
\<close>

theorem Within_atomic:
  assumes "\<not> ctx_tx c" and "open_tx w = None" and "tx_only (fn (c\<lparr>ctx_tx := True\<rparr>))"
    and "run_state (Within E c fn) w = (r, w')"
  shows "open_tx w' = None \<and> trace w' = trace w \<and>
    (isl r \<and> committed w' = committed w \<or>
     (\<exists>x w1 t. run_state (fn (c\<lparr>ctx_tx := True\<rparr>)) (begun E w) = (Inr x, w1) \<and>
        open_tx w1 = Some t \<and> \<not> tx_aborted t \<and> committed w' = tx_work t \<and> (r = Inr x \<or> isl r)))"
proof -
  let ?Q = "\<lambda>r w'. open_tx w' = None \<and> trace w' = trace w \<and>
    (isl r \<and> committed w' = committed w \<or>
     (\<exists>x w1 t. run_state (fn (c\<lparr>ctx_tx := True\<rparr>)) (begun E w) = (Inr x, w1) \<and>
        open_tx w1 = Some t \<and> \<not> tx_aborted t \<and> committed w' = tx_work t \<and> (r = Inr x \<or> isl r)))"
  have "wp (Within E c fn) ?Q w"
    by (rule wp_Within [where Q = ?Q and c = c and w = w and fn = fn and E = E])
      (use assms(1-3) in \<open>auto intro!: wpI\<close>)
  then show ?thesis using assms(4) by (rule wpD)
qed

text \<open>
  An insert inside \<open>Within\<close> whose commit takes effect while its acknowledgement is lost: the
  error comes back over the committed row.
\<close>

theorem Within_atomic_witness:
  "let E = faulty_env [(3, Lost ''reset'')];
       fn = (\<lambda>c. sql E (FromContext c) (\<lambda>i d. Inr ((), d @ [st_id i])));
       (r, w') = run_state (Within E Background fn) (fresh_world [])
   in r = Inl (Errorf ''commit tx'' (External ''reset'')) \<and> open_tx w' = None \<and> trace w' = [] \<and>
      committed w' = [2]"
proof -
  let ?E = "faulty_env [(3, Lost ''reset'')]"
  let ?fn = "\<lambda>c. sql ?E (FromContext c) (\<lambda>i d. Inr ((), d @ [st_id i]))"
  obtain r w' where run: "run_state (Within ?E Background ?fn) (fresh_world []) = (r, w')"
    by fastforce
  have "open_tx w' = None \<and> trace w' = trace (fresh_world [] :: nat list world)"
    using Within_atomic [of Background "fresh_world []" ?fn ?E r w'] run
    by (simp add: tx_only_rules)
  moreover from run have "r = Inl (Errorf ''commit tx'' (External ''reset''))" "committed w' = [2]"
    by (auto simp: Within_def Begin_def Commit_def Rollback_def sql_def run_tx_def bindE_def
        Background_def FromContext_def fresh_world_def Let_def
        server_in_def)
  ultimately show ?thesis using run by (simp add: Let_def)
qed

end
