(* ===== verification/Broker.thy ===== *)
theory Broker
  imports World
begin

text \<open>
  The NATS JetStream wrapper of \<open>internal/infrastructure/broker/broker.go\<close>: publishing,
  the classification of handler errors in \<open>dispatch\<close>, and the deliveries that a consumer
  with explicit acknowledgement and \<open>MaxDeliver = 5\<close> sees. The locale
  \<open>exactly_once_handler\<close> is the contract that makes at-least-once delivery harmless.
\<close>

section \<open>Publishing and dispatching\<close>

definition Terminal :: "error \<Rightarrow> error" where
  "Terminal e = Errorf2 (Sentinel ErrTerminal) e"

definition maxDeliver :: nat where
  "maxDeliver = 5"

text \<open>\<open>Conn.Publish\<close>: a publish whose acknowledgement is lost has reached the stream.\<close>

definition Publish :: "env \<Rightarrow> string \<Rightarrow> payload \<Rightarrow> ('db world, error + unit) state" where
  "Publish E subject data = State (\<lambda>w.
     let n = ncalls w;
         w1 = w\<lparr>ncalls := Suc n\<rparr>;
         sent = w1\<lparr>trace := trace w @ [Published subject data]\<rparr>
     in case env_fault E n of
          NoFault \<Rightarrow> (Inr (), sent)
        | Fails m \<Rightarrow> (Inl (Errorf (''publish to '' @ quote subject) (External m)), w1)
        | Lost m \<Rightarrow> (Inl (Errorf (''publish to '' @ quote subject) (External m)), sent))"

type_synonym 'db handler = "payload \<Rightarrow> ('db world, error + unit) state"

datatype disposition = Ack | Term | Nak

definition disposition_of :: "error + unit \<Rightarrow> disposition" where
  "disposition_of r =
     (case r of
        Inr _ \<Rightarrow> Ack
      | Inl e \<Rightarrow> if errors_Is e ErrTerminal then Term else Nak)"

text \<open>
  \<open>dispatch\<close> runs the handler and tells the server the outcome; an error of that call is only
  logged (\<open>Conn.ack\<close>). The second component says whether the server got it.
\<close>

definition acknowledge :: "env \<Rightarrow> ('db world, bool) state" where
  "acknowledge E = State (\<lambda>w.
     ((case env_fault E (ncalls w) of Fails e \<Rightarrow> False | _ \<Rightarrow> True), w\<lparr>ncalls := Suc (ncalls w)\<rparr>))"

definition dispatch :: "env \<Rightarrow> 'db handler \<Rightarrow> payload \<Rightarrow> ('db world, disposition \<times> bool) state" where
  "dispatch E handler data = do {
     r \<leftarrow> handler data;
     got \<leftarrow> acknowledge E;
     State_Monad.return (disposition_of r, got)
   }"

text \<open>
  What the consumer configuration of \<open>Consume\<close> (explicit acknowledgement, one message in
  flight, \<open>MaxDeliver\<close>) makes of one message: it is delivered again after a negative
  acknowledgement, or when no acknowledgement arrived within \<open>AckWait\<close>, until it was
  delivered \<open>MaxDeliver\<close> times. The result lists the outcomes of its deliveries.
\<close>

primrec deliver :: "nat \<Rightarrow> env \<Rightarrow> 'db handler \<Rightarrow> payload \<Rightarrow> ('db world, disposition list) state" where
  "deliver 0 E handler data = State_Monad.return []"
| "deliver (Suc k) E handler data = do {
     (d, got) \<leftarrow> dispatch E handler data;
     if got \<and> d \<noteq> Nak then State_Monad.return [d]
     else do { ds \<leftarrow> deliver k E handler data; State_Monad.return (d # ds) }
   }"

definition Consume :: "env \<Rightarrow> 'db handler \<Rightarrow> payload \<Rightarrow> ('db world, disposition list) state" where
  "Consume E = deliver maxDeliver E"

section \<open>Rules\<close>

lemma Terminal_Is [simp]: "errors_Is (Terminal e) ErrTerminal"
  by (simp add: Terminal_def)

lemma disposition_of_simps [simp]:
  "disposition_of (Inr u) = Ack" "disposition_of (Inl (Terminal e)) = Term"
  by (simp_all add: disposition_of_def)

lemma disposition_of_Ack [simp]:
  "disposition_of r = Ack \<longleftrightarrow> r = Inr ()" "Ack = disposition_of r \<longleftrightarrow> r = Inr ()"
  by (cases r; simp add: disposition_of_def)+

lemma wp_acknowledge [wp_simps]:
  "wp (acknowledge E) Q =
     (\<lambda>w. Q (case env_fault E (ncalls w) of Fails e \<Rightarrow> False | _ \<Rightarrow> True) (w\<lparr>ncalls := Suc (ncalls w)\<rparr>))"
  by (simp add: acknowledge_def wp_simps)

lemma wp_Publish:
  assumes "\<And>e. Q (Inl e) (w\<lparr>ncalls := Suc (ncalls w)\<rparr>)"
    and "\<And>r. Q r (w\<lparr>ncalls := Suc (ncalls w), trace := trace w @ [Published s p]\<rparr>)"
  shows "wp (Publish E s p) Q w"
  using assms by (auto simp: Publish_def wp_simps Let_def split: fault.splits)

context db_invariant
begin

lemma preserves_Publish [preserves_rules]: "preserves (db_inv P) (Publish E s p)"
  by (rule preservesI) (auto intro!: wp_Publish simp: db_inv_def P_later)

end

lemma length_deliver: "wp (deliver k E h p) (\<lambda>ds _. length ds \<le> k) w"
proof (induction k arbitrary: w)
  case 0
  then show ?case by (simp add: wp_simps)
next
  case (Suc k)
  have "wp (deliver k E h p) (\<lambda>ds _. length (d # ds) \<le> Suc k) w'" for d w'
    using Suc [of w'] by simp
  then show ?case
    by (simp add: dispatch_def wp_simps) (rule wpI, auto simp: wp_simps)
qed

section \<open>At-least-once delivery\<close>

text \<open>
  The contract of a handler whose effect on the database is applied once however often its
  message is delivered. \<open>applied p d d'\<close> says that the tables \<open>d'\<close> are \<open>d\<close> with the effect of
  \<open>p\<close>, \<open>settled p d\<close> that nothing is left to do for \<open>p\<close>. A run outside any transaction,
  whether it reports success or an error, changed nothing or applied the effect; it
  reports success only when the message is settled; an applied effect settles it; and a
  settled message changes nothing any more.
\<close>

definition once_post ::
  "(payload \<Rightarrow> 'db \<Rightarrow> 'db \<Rightarrow> bool) \<Rightarrow> (payload \<Rightarrow> 'db \<Rightarrow> bool) \<Rightarrow> payload \<Rightarrow> 'db world \<Rightarrow>
   error + unit \<Rightarrow> 'db world \<Rightarrow> bool" where
  "once_post applied settled p w r w' \<longleftrightarrow> open_tx w' = None \<and>
     (committed w' = committed w \<or> \<not> settled p (committed w) \<and> applied p (committed w) (committed w')) \<and>
     (r = Inr () \<longrightarrow> settled p (committed w'))"

lemma once_post_error:
  "open_tx w' = None \<Longrightarrow> committed w' = committed w \<Longrightarrow> once_post applied settled p w (Inl e) w'"
  by (simp add: once_post_def)

locale exactly_once_handler =
  fixes E :: env
    and handle :: "'db handler"
    and applied :: "payload \<Rightarrow> 'db \<Rightarrow> 'db \<Rightarrow> bool"
    and settled :: "payload \<Rightarrow> 'db \<Rightarrow> bool"
  assumes run: "open_tx w = None \<Longrightarrow> wp (handle p) (once_post applied settled p w) w"
    and applied_settles: "applied p d d' \<Longrightarrow> settled p d'"
begin

lemma settled_noop:
  assumes "settled p (committed w)" and "open_tx w = None"
  shows "wp (deliver k E handle p)
    (\<lambda>_ w'. committed w' = committed w \<and> open_tx w' = None) w"
  using assms
proof (induction k arbitrary: w)
  case 0
  then show ?case by (simp add: wp_simps)
next
  case (Suc k)
  have again: "wp (deliver k E handle p)
      (\<lambda>_ w'. committed w' = committed w \<and> open_tx w' = None) (w1\<lparr>ncalls := n\<rparr>)"
    if "committed w1 = committed w" "open_tx w1 = None" for w1 n
    using that Suc.prems Suc.IH [of "w1\<lparr>ncalls := n\<rparr>"] by simp
  show ?case
    using run [OF Suc.prems(2), of p] Suc.prems(1)
    by (auto simp: dispatch_def once_post_def wp_simps elim!: wp_mono intro!: again)
qed

text \<open>
  However the deliveries of a message go, its effect is applied at most once, and once one
  of them is acknowledged the message is settled.
\<close>

theorem deliver_once:
  assumes "open_tx w = None"
  shows "wp (deliver k E handle p) (\<lambda>ds w'. open_tx w' = None \<and>
      (committed w' = committed w \<or> applied p (committed w) (committed w')) \<and>
      (Ack \<in> set ds \<longrightarrow> settled p (committed w'))) w"
  using assms
proof (induction k arbitrary: w)
  case 0
  then show ?case by (simp add: wp_simps)
next
  case (Suc k)
  let ?Q = "\<lambda>r ds w'. open_tx w' = None \<and>
      (committed w' = committed w \<or> applied p (committed w) (committed w')) \<and>
      (Ack \<in> set (disposition_of r # ds) \<longrightarrow> settled p (committed w'))"
  have rest: "wp (deliver k E handle p) (?Q r) (w1\<lparr>ncalls := n\<rparr>)"
    if w1: "open_tx w1 = None" "committed w1 = committed w \<or> applied p (committed w) (committed w1)"
      "r = Inr () \<longrightarrow> settled p (committed w1)" for r w1 n
  proof (cases "settled p (committed w1)")
    case True
    then have "wp (deliver k E handle p)
        (\<lambda>_ w'. committed w' = committed w1 \<and> open_tx w' = None) (w1\<lparr>ncalls := n\<rparr>)"
      using settled_noop [of p "w1\<lparr>ncalls := n\<rparr>" k] w1(1) by simp
    then show ?thesis by (rule wp_mono) (use w1 True in auto)
  next
    case False
    with w1 applied_settles have eq: "committed w1 = committed w" "r \<noteq> Inr ()" by auto
    have "open_tx (w1\<lparr>ncalls := n\<rparr>) = None" using w1(1) by simp
    from Suc.IH [OF this] show ?thesis
      by (rule wp_mono) (use eq in auto)
  qed
  have step: "wp (acknowledge E) (\<lambda>got. wp (if got \<and> disposition_of r \<noteq> Nak
        then State_Monad.return [disposition_of r]
        else do { ds \<leftarrow> deliver k E handle p; State_Monad.return (disposition_of r # ds) })
      (\<lambda>ds w'. open_tx w' = None \<and>
        (committed w' = committed w \<or> applied p (committed w) (committed w')) \<and>
        (Ack \<in> set ds \<longrightarrow> settled p (committed w')))) w1"
    if "once_post applied settled p w r w1" for r w1
    using that rest [of w1 r "Suc (ncalls w1)"] by (auto simp: once_post_def wp_simps)
  show ?case
    unfolding deliver.simps dispatch_def wp_bind wp_return prod.case
    by (rule wp_mono [OF run [OF Suc.prems(1), of p]]) (rule step [unfolded wp_bind wp_return])
qed

end

section \<open>Poison messages\<close>

text \<open>
  \<open>Conn.dispatch\<close> and the consumer configuration: a message whose handler reports a
  terminal error is dropped after that delivery when the server gets the \<open>Term\<close>; any other
  error is answered with \<open>Nak\<close> and leads to redelivery, until the message has been delivered
  \<open>maxDeliver\<close> = 5 times. In a run without acknowledgement failures a handler that always
  fails is run exactly five times, and one that always succeeds exactly once.
\<close>

theorem Consume_outcomes:
  assumes answers: "\<And>n e. env_fault E n \<noteq> Fails e" and handler: "\<And>w. fst (run_state (h p) w) = r"
  shows "fst (run_state (Consume E h p) w) =
    (case r of Inr _ \<Rightarrow> [Ack]
     | Inl e \<Rightarrow> if errors_Is e ErrTerminal then [Term] else [Nak, Nak, Nak, Nak, Nak])"
proof -
  have got: "(case env_fault E n of Fails e \<Rightarrow> False | _ \<Rightarrow> True)" for n
    using answers [of n] by (cases "env_fault E n") auto
  have "wp (h p) (\<lambda>r' _. r' = r) w'" for w'
    using handler [of w'] by (auto simp: wp_def split: prod.splits)
  then have h: "wp (h p) Q w' = Q r (snd (run_state (h p) w'))" for Q w'
    unfolding wp_def by (metis (mono_tags, lifting) case_prod_unfold)
  have "wp (Consume E h p) (\<lambda>ds _. ds =
    (case r of Inr _ \<Rightarrow> [Ack]
     | Inl e \<Rightarrow> if errors_Is e ErrTerminal then [Term] else [Nak, Nak, Nak, Nak, Nak])) w"
    by (auto simp: Consume_def maxDeliver_def numeral_eq_Suc dispatch_def wp_simps h got
        disposition_of_def split: sum.splits)
  then show ?thesis by (auto simp: wp_def split: prod.splits)
qed

theorem Consume_outcomes_witness:
  "fst (run_state (Consume calm_env (\<lambda>p. err (External ''boom'')) Garbage) (fresh_world ())) =
     [Nak, Nak, Nak, Nak, Nak]"
  using Consume_outcomes [of calm_env "\<lambda>p. err (External ''boom'')" Garbage "Inl (External ''boom'')"
      "fresh_world ()"]
  by (simp add: calm_env_def)

end
