(* ===== verification/Outbox.thy ===== *)
theory Outbox
  imports Broker
begin

text \<open>
  The transactional outbox of \<open>internal/infrastructure/outbox\<close>: \<open>Enqueue\<close> writes a message
  in the transaction of the state change it announces, and the relay moves messages from
  the table \<open>outbox_messages\<close> to JetStream. The table is the first component of each
  service's database; the other tables extend the record \<open>outbox_db\<close>.
\<close>

section \<open>The table and the messages\<close>

record outbox_row =
  ob_id :: nat
  ob_subject :: string
  ob_payload :: payload

record outbox_db =
  outbox :: "outbox_row list"

definition insert_outbox :: "string \<Rightarrow> payload \<Rightarrow> ('a outbox_db_scheme, unit) stmt" where
  "insert_outbox subject data i d =
     Inr ((), d\<lparr>outbox := outbox d @ [\<lparr>ob_id = st_id i, ob_subject = subject, ob_payload = data\<rparr>]\<rparr>)"

text \<open>\<open>outbox.Enqueue\<close>; its \<open>tx\<close> argument is the transaction of the context.\<close>

definition Enqueue ::
  "env \<Rightarrow> string \<Rightarrow> payload \<Rightarrow> ('a outbox_db_scheme world, error + unit) state" where
  "Enqueue E subject data =
     wrap (''enqueue outbox message to '' @ quote subject) (sql E Tx (insert_outbox subject data))"

section \<open>The relay\<close>

text \<open>\<open>Relay.Notify\<close>: a send on a channel of capacity one that drops when it is full.\<close>

definition Notify :: "('db world, unit) state" where
  "Notify = State (\<lambda>w. ((), w\<lparr>nudge := True\<rparr>))"

definition select_locked :: "int \<Rightarrow> ('a outbox_db_scheme, outbox_row list) stmt" where
  "select_locked batchSize i d =
     (if batchSize < 0 then Inl ''LIMIT must not be negative''
      else Inr (take (nat batchSize)
                 (filter (\<lambda>m. \<not> st_locked i (ob_id m)) (sort_key ob_id (outbox d))), d))"

definition selectLocked ::
  "env \<Rightarrow> int \<Rightarrow> ('a outbox_db_scheme world, error + outbox_row list) state" where
  "selectLocked E batchSize =
     wrap ''select outbox messages'' (sql E Tx (select_locked batchSize))"

definition publish_error :: "outbox_row \<Rightarrow> error \<Rightarrow> error" where
  "publish_error m =
     Errorf (''publish outbox message '' @ decimal (ob_id m) @ '' to '' @ quote (ob_subject m))"

primrec publishAll ::
  "env \<Rightarrow> outbox_row list \<Rightarrow> ('db world, nat list \<times> error option) state" where
  "publishAll E [] = State_Monad.return ([], None)"
| "publishAll E (m # ms) = do {
     r \<leftarrow> Publish E (ob_subject m) (ob_payload m);
     case r of
       Inl e \<Rightarrow> State_Monad.return ([], Some (publish_error m e))
     | Inr _ \<Rightarrow> do {
         (ids, e) \<leftarrow> publishAll E ms;
         State_Monad.return (ob_id m # ids, e)
       }
   }"

definition delete_published :: "nat list \<Rightarrow> ('a outbox_db_scheme, unit) stmt" where
  "delete_published ids i d = Inr ((), d\<lparr>outbox := filter (\<lambda>m. ob_id m \<notin> set ids) (outbox d)\<rparr>)"

text \<open>
  The body of \<open>flushBatch\<close> between \<open>Begin\<close> and the deferred \<open>Rollback\<close>, first the part after
  \<open>publishAll\<close>.
\<close>

definition finish_batch ::
  "env \<Rightarrow> nat list \<Rightarrow> error option \<Rightarrow> ('a outbox_db_scheme world, int \<times> error option) state" where
  "finish_batch E ids publishErr =
     (if ids = [] then State_Monad.return (0, publishErr)
      else do {
        d \<leftarrow> sql E Tx (delete_published ids);
        case d of
          Inl e \<Rightarrow> State_Monad.return (0, Some (Errorf ''delete published messages'' e))
        | Inr _ \<Rightarrow> do {
            k \<leftarrow> Commit E;
            case k of
              Inl e \<Rightarrow> State_Monad.return (0, Some (Errorf ''commit outbox tx'' e))
            | Inr _ \<Rightarrow> State_Monad.return (int (length ids), publishErr)
          }
      })"

definition flush_locked ::
  "env \<Rightarrow> int \<Rightarrow> ('a outbox_db_scheme world, int \<times> error option) state" where
  "flush_locked E batchSize = do {
     r \<leftarrow> selectLocked E batchSize;
     case r of
       Inl e \<Rightarrow> State_Monad.return (0, Some e)
     | Inr messages \<Rightarrow>
         if messages = [] then State_Monad.return (0, None)
         else do {
           (ids, publishErr) \<leftarrow> publishAll E messages;
           finish_batch E ids publishErr
         }
   }"

definition flushBatch ::
  "env \<Rightarrow> int \<Rightarrow> ('a outbox_db_scheme world, int \<times> error option) state" where
  "flushBatch E batchSize = do {
     b \<leftarrow> Begin E;
     case b of
       Inl e \<Rightarrow> State_Monad.return (0, Some (Errorf ''begin outbox tx'' e))
     | Inr _ \<Rightarrow> do {
         r \<leftarrow> flush_locked E batchSize;
         _ \<leftarrow> Rollback;
         State_Monad.return r
       }
   }"

text \<open>
  \<open>Relay.flush\<close> loops until a batch is not full; \<open>None\<close> is a loop that has not ended within
  the fuel, \<open>Some None\<close> a flush that returned nil.
\<close>

primrec flush ::
  "nat \<Rightarrow> env \<Rightarrow> int \<Rightarrow> ('a outbox_db_scheme world, error option option) state" where
  "flush 0 E batchSize = State_Monad.return None"
| "flush (Suc fuel) E batchSize = do {
     (published, e) \<leftarrow> flushBatch E batchSize;
     case e of
       Some e \<Rightarrow> State_Monad.return (Some (Some e))
     | None \<Rightarrow>
         if published < batchSize then State_Monad.return (Some None)
         else flush fuel E batchSize
   }"

text \<open>The batch size every service gives its relay (\<open>bootstrap/*/run.go\<close>), and \<open>tryFlush\<close>.\<close>

definition relayBatchSize :: int where
  "relayBatchSize = 100"

definition tryFlush :: "nat \<Rightarrow> env \<Rightarrow> int \<Rightarrow> ('a outbox_db_scheme world, unit option) state" where
  "tryFlush fuel E batchSize = do {
     r \<leftarrow> flush fuel E batchSize;
     State_Monad.return (map_option (\<lambda>_. ()) r)
   }"

text \<open>
  \<open>Relay.Run\<close> as the sequence of the channel events it selects: a tick, a nudge (taken from
  the channel, so that it is empty again), or the end of the context.
\<close>

datatype relay_event = Tick | Nudged | Done

fun Run :: "nat \<Rightarrow> env \<Rightarrow> int \<Rightarrow> relay_event list \<Rightarrow> ('a outbox_db_scheme world, unit option) state" where
  "Run fuel E batchSize [] = State_Monad.return (Some ())"
| "Run fuel E batchSize (Done # evs) = State_Monad.return (Some ())"
| "Run fuel E batchSize (Tick # evs) = do {
     r \<leftarrow> tryFlush fuel E batchSize;
     case r of None \<Rightarrow> State_Monad.return None | Some _ \<Rightarrow> Run fuel E batchSize evs
   }"
| "Run fuel E batchSize (Nudged # evs) = do {
     _ \<leftarrow> State (\<lambda>w. ((), w\<lparr>nudge := False\<rparr>));
     r \<leftarrow> tryFlush fuel E batchSize;
     case r of None \<Rightarrow> State_Monad.return None | Some _ \<Rightarrow> Run fuel E batchSize evs
   }"

section \<open>Well-formedness\<close>

text \<open>The primary key of the table, and that the identity sequence is ahead of it.\<close>

definition outbox_wf :: "nat \<Rightarrow> 'a outbox_db_scheme \<Rightarrow> bool" where
  "outbox_wf n d \<longleftrightarrow> distinct (map ob_id (outbox d)) \<and> (\<forall>m \<in> set (outbox d). ob_id m < n)"

interpretation outbox_ids: db_invariant outbox_wf
  by unfold_locales (auto simp: outbox_wf_def)

lemma outbox_wf_other: "outbox d' = outbox d \<Longrightarrow> outbox_wf n d \<Longrightarrow> outbox_wf (Suc n) d'"
  by (auto simp: outbox_wf_def)

lemma stmt_keeps_wf_other:
  "(\<And>i d r d'. f i d = Inr (r, d') \<Longrightarrow> outbox d' = outbox d) \<Longrightarrow> stmt_keeps outbox_wf f"
  unfolding stmt_keeps_def using outbox_wf_other by metis

lemma keeps_insert_outbox: "stmt_keeps outbox_wf (insert_outbox s p)"
  by (auto simp: stmt_keeps_def insert_outbox_def outbox_wf_def)

lemma keeps_select_locked: "stmt_keeps outbox_wf (select_locked b)"
  by (rule stmt_keeps_wf_other) (auto simp: select_locked_def split: if_splits)

lemma keeps_delete_published: "stmt_keeps outbox_wf (delete_published ids)"
  by (auto simp: stmt_keeps_def delete_published_def outbox_wf_def distinct_map_filter)

lemmas keeps_outbox = keeps_insert_outbox keeps_select_locked keeps_delete_published

section \<open>Enqueueing\<close>

lemma tx_only_Enqueue [tx_only_rules]: "tx_only (Enqueue E s p)"
  unfolding Enqueue_def by (intro tx_only_rules)

section \<open>One batch\<close>

definition pub :: "outbox_row \<Rightarrow> effect" where
  "pub m = Published (ob_subject m) (ob_payload m)"

definition publish_post ::
  "outbox_row list \<Rightarrow> 'db world \<Rightarrow> nat list \<times> error option \<Rightarrow> 'db world \<Rightarrow> bool" where
  "publish_post ms w r w' \<longleftrightarrow> committed w' = committed w \<and> open_tx w' = open_tx w \<and>
     nudge w' = nudge w \<and> ncalls w \<le> ncalls w' \<and>
     (\<exists>j k. fst r = map ob_id (take k ms) \<and> k \<le> j \<and> j \<le> length ms \<and>
       (snd r = None \<longleftrightarrow> k = length ms) \<and> trace w' = trace w @ map pub (take j ms))"

lemma publish_post_stop:
  "publish_post (m # ms) w ([], Some e) (w\<lparr>ncalls := Suc (ncalls w)\<rparr>)"
  "publish_post (m # ms) w ([], Some e) (w\<lparr>ncalls := Suc (ncalls w), trace := trace w @ [pub m]\<rparr>)"
  unfolding publish_post_def
  by (auto intro: exI [of _ 0] exI [of _ "Suc 0"])

lemma publish_post_step:
  "publish_post ms (w\<lparr>ncalls := Suc (ncalls w), trace := trace w @ [pub m]\<rparr>) (ids, e) w' \<Longrightarrow>
   publish_post (m # ms) w (ob_id m # ids, e) w'"
  unfolding publish_post_def
  by (elim exE conjE, intro conjI, simp_all, rule_tac x = "Suc j" in exI, rule_tac x = "Suc k" in exI) auto

lemma publishAll_spec: "wp (publishAll E ms) (publish_post ms w) w"
proof (induction ms arbitrary: w)
  case Nil
  show ?case by (simp add: wp_simps publish_post_def)
next
  case (Cons m ms)
  have more: "wp (publishAll E ms) (\<lambda>(ids, e). publish_post (m # ms) w (ob_id m # ids, e))
      (w\<lparr>ncalls := Suc (ncalls w), trace := trace w @ [pub m]\<rparr>)"
    by (rule wp_mono [OF Cons]) (auto intro: publish_post_step)
  show ?case
    by (auto simp: Publish_def wp_simps Let_def pub_def [symmetric] publish_post_stop
        intro: wp_mono [OF more] split: fault.splits)
qed

text \<open>What a batch reads: the unlocked rows in the order of their ids, up to the batch size.\<close>

definition selection :: "env \<Rightarrow> nat \<Rightarrow> int \<Rightarrow> 'a outbox_db_scheme \<Rightarrow> outbox_row list" where
  "selection E n b d =
     take (nat b) (filter (\<lambda>m. \<not> env_locked E n (ob_id m)) (sort_key ob_id (outbox d)))"

definition without :: "outbox_row list \<Rightarrow> 'a outbox_db_scheme \<Rightarrow> 'a outbox_db_scheme" where
  "without ms d = d\<lparr>outbox := filter (\<lambda>m. ob_id m \<notin> ob_id ` set ms) (outbox d)\<rparr>"

lemma without_Nil [simp]: "without [] d = d"
  by (simp add: without_def)

definition batch_post ::
  "outbox_row list \<Rightarrow> int \<Rightarrow> 'a outbox_db_scheme world \<Rightarrow> int \<times> error option \<Rightarrow>
   'a outbox_db_scheme world \<Rightarrow> bool" where
  "batch_post ms b w r w' \<longleftrightarrow> open_tx w' = None \<and> nudge w' = nudge w \<and> ncalls w < ncalls w' \<and>
     (\<exists>j k. k \<le> j \<and> j \<le> length ms \<and> trace w' = trace w @ map pub (take j ms) \<and>
       committed w' = without (take k ms) (committed w) \<and>
       (snd r = None \<longrightarrow> 0 \<le> b \<and> k = length ms \<and> fst r = int k))"

lemma batch_postI:
  assumes "open_tx w' = None" "nudge w' = nudge w" "ncalls w < ncalls w'"
    "k \<le> j" "j \<le> length ms" "trace w' = trace w @ map pub (take j ms)"
    "committed w' = without (take k ms) (committed w)"
    "snd r = None \<Longrightarrow> 0 \<le> b \<and> k = length ms \<and> fst r = int k"
  shows "batch_post ms b w r w'"
  unfolding batch_post_def using assms by (intro conjI exI [of _ j] exI [of _ k]) auto

lemma batch_post_None:
  assumes "batch_post ms b w (n, None) w'"
  shows "open_tx w' = None" "trace w' = trace w @ map pub ms"
    "committed w' = without ms (committed w)" "n = int (length ms)"
  using assms by (auto simp: batch_post_def)

lemma finish_batch_spec:
  fixes w :: "'a outbox_db_scheme world"
  assumes post: "publish_post ms w1 (ids, perr) w2" and "ms \<noteq> []" and "0 \<le> b"
    and w1: "ncalls w < ncalls w1" "trace w1 = trace w" "committed w1 = committed w"
      "nudge w1 = nudge w" "open_tx w1 = Some t" "\<not> tx_aborted t" "tx_work t = committed w"
  shows "wp (do { r \<leftarrow> finish_batch E ids perr; _ \<leftarrow> Rollback; State_Monad.return r })
    (batch_post ms b w) w2"
proof -
  from post w1 obtain j k where jk: "ids = map ob_id (take k ms)" "k \<le> j" "j \<le> length ms"
      "perr = None \<longleftrightarrow> k = length ms" "trace w2 = trace w @ map pub (take j ms)"
    and w2: "committed w2 = committed w" "open_tx w2 = Some t" "nudge w2 = nudge w" "ncalls w < ncalls w2"
    by (auto simp: publish_post_def)
  have kept: "batch_post ms b w r w3"
    if "snd r \<noteq> None" "open_tx w3 = None" "nudge w3 = nudge w2" "ncalls w2 \<le> ncalls w3"
      "trace w3 = trace w2" "committed w3 = committed w2" for r w3
    by (rule batch_postI [of _ _ 0 j]) (use that jk w2 in auto)
  have gone: "batch_post ms b w r w3"
    if "snd r = None \<longrightarrow> k = length ms \<and> fst r = int k"
      "open_tx w3 = None" "nudge w3 = nudge w2" "ncalls w2 \<le> ncalls w3"
      "trace w3 = trace w2" "committed w3 = without (take k ms) (committed w)" for r w3
    by (rule batch_postI [of _ _ k j]) (use that jk w2 assms(3) in auto)
  show ?thesis
  proof (cases "ids = []")
    case True
    with jk assms(2) show ?thesis
      by (auto simp: finish_batch_def wp_simps intro: kept)
  next
    case False
    have del: "delete_published ids i (committed w) = Inr ((), without (take k ms) (committed w))" for i
      by (simp add: delete_published_def without_def jk(1) w1)
    have commit: "wp (Commit E) (\<lambda>r w4. case r of
          Inl e \<Rightarrow> batch_post ms b w (0, Some (Errorf ''commit outbox tx'' e)) (w4\<lparr>open_tx := None\<rparr>)
        | Inr _ \<Rightarrow> batch_post ms b w (int (length ids), perr) (w4\<lparr>open_tx := None\<rparr>)) w3"
      if "open_tx w3 = Some t'" "\<not> tx_aborted t'" "tx_work t' = without (take k ms) (committed w)"
        "nudge w3 = nudge w2" "ncalls w2 \<le> ncalls w3" "trace w3 = trace w2"
        "committed w3 = committed w2" for w3 t'
      using that jk
      by (simp add: Commit_def wp_simps Let_def split: fault.splits) (intro conjI impI allI kept gone; simp)
    show ?thesis
      unfolding finish_batch_def if_not_P [OF False] wp_simps
      by (rule wp_sql_tx [OF w2(2)]) (auto simp: wp_simps del w1 intro!: kept commit)
  qed
qed

lemma flushBatch_spec:
  fixes w :: "'a outbox_db_scheme world"
  assumes w: "open_tx w = None"
  shows "wp (flushBatch E b) (batch_post (selection E (Suc (ncalls w)) b (committed w)) b w) w"
proof -
  let ?ms = "selection E (Suc (ncalls w)) b (committed w)"
  let ?t = "\<lparr>tx_work = committed w, tx_start = env_dbclock E (ncalls w), tx_aborted = False\<rparr>"
  have same: "batch_post ?ms b w r w1"
    if "snd r \<noteq> None" "open_tx w1 = None" "nudge w1 = nudge w" "ncalls w < ncalls w1"
      "trace w1 = trace w" "committed w1 = committed w" for r w1
    by (rule batch_postI [of _ _ 0 0]) (use that in auto)
  have empty: "batch_post [] b w (0, None) w1"
    if "\<not> b < 0" "open_tx w1 = None" "nudge w1 = nudge w" "ncalls w < ncalls w1"
      "trace w1 = trace w" "committed w1 = committed w" for w1
    by (rule batch_postI [of _ _ 0 0]) (use that in auto)
  have publish: "wp (publishAll E ?ms) (\<lambda>(ids, perr).
      wp (do { r \<leftarrow> finish_batch E ids perr; _ \<leftarrow> Rollback; State_Monad.return r }) (batch_post ?ms b w)) w1"
    if "?ms \<noteq> []" "0 \<le> b" "ncalls w < ncalls w1" "trace w1 = trace w" "committed w1 = committed w"
      "nudge w1 = nudge w" "open_tx w1 = Some ?t" for w1
    by (rule wp_mono [OF publishAll_spec])
      (use that in \<open>auto intro!: finish_batch_spec [of ?ms w1 _ _ _ b w ?t]\<close>)
  have locked: "wp (do { r \<leftarrow> flush_locked E b; _ \<leftarrow> Rollback; State_Monad.return r })
      (batch_post ?ms b w) (begun E w)"
    unfolding flush_locked_def selectLocked_def wp_simps
    by (rule wp_sql_tx [where t = ?t])
      (auto simp: wp_simps select_locked_def server_in_def selection_def [symmetric] split: if_splits
        intro!: same empty wp_mono [OF publish] simp flip: not_less)
  then show ?thesis
    using w by (auto simp: flushBatch_def Begin_def begun_def wp_simps Let_def intro!: same split: fault.splits)
qed

section \<open>Nothing is lost\<close>

text \<open>
  The effect of any amount of relay work: some messages are published, the rows removed are
  among the published ones, and every other row and table stays as it is.
\<close>

definition relayed :: "'a outbox_db_scheme world \<Rightarrow> 'a outbox_db_scheme world \<Rightarrow> bool" where
  "relayed w w' \<longleftrightarrow> open_tx w' = None \<and> ncalls w \<le> ncalls w' \<and>
     (\<exists>sent gone. trace w' = trace w @ map pub sent \<and> set gone \<subseteq> set sent \<and>
       set sent \<subseteq> set (outbox (committed w)) \<and>
       committed w' = (committed w)\<lparr>outbox := filter (\<lambda>m. m \<notin> set gone) (outbox (committed w))\<rparr>)"

lemma relayed_refl: "open_tx w = None \<Longrightarrow> relayed w w"
  unfolding relayed_def by (intro conjI exI [of _ "[]"]) auto

lemma relayed_trans: "relayed w w1 \<Longrightarrow> relayed w1 w2 \<Longrightarrow> relayed w w2"
  unfolding relayed_def
  by (elim conjE exE, intro conjI, simp, simp,
      rule_tac x = "sent @ senta" in exI, rule_tac x = "gone @ gonea" in exI) auto

lemma relayed_wf: "relayed w w' \<Longrightarrow> outbox_wf (ncalls w) (committed w) \<Longrightarrow> outbox_wf (ncalls w') (committed w')"
  by (fastforce simp: relayed_def outbox_wf_def distinct_map_filter)

lemma relayed_open: "relayed w w' \<Longrightarrow> open_tx w' = None"
  by (simp add: relayed_def)

lemma relayed_then: "wp m (\<lambda>_. relayed w1) w1 \<Longrightarrow> relayed w w1 \<Longrightarrow> wp m (\<lambda>_. relayed w) w1"
  by (auto elim!: wp_mono intro: relayed_trans)

lemma relayed_nudge [simp]: "relayed (w\<lparr>nudge := b\<rparr>) = relayed w"
  by (rule ext) (simp add: relayed_def)

lemma selection_props:
  "set (selection E n b d) \<subseteq> set (outbox d)" "sorted (map ob_id (selection E n b d))"
  by (auto simp: selection_def take_map [symmetric] intro!: sorted_wrt_take sorted_filter
      dest!: in_set_takeD)

lemma without_distinct:
  assumes "distinct (map ob_id (outbox d))" and "set ms \<subseteq> set (outbox d)"
  shows "without ms d = d\<lparr>outbox := filter (\<lambda>m. m \<notin> set ms) (outbox d)\<rparr>"
proof -
  have "ob_id m \<in> ob_id ` set ms \<longleftrightarrow> m \<in> set ms" if "m \<in> set (outbox d)" for m
    using assms that by (auto simp: distinct_map inj_on_def)
  then show ?thesis by (simp add: without_def cong: filter_cong)
qed

lemma batch_post_relayed:
  assumes post: "batch_post ms b w r w'" and wf: "outbox_wf n (committed w)"
    and ms: "set ms \<subseteq> set (outbox (committed w))"
  shows "relayed w w'"
proof -
  from post obtain j k where jk: "k \<le> j" "trace w' = trace w @ map pub (take j ms)"
    "committed w' = without (take k ms) (committed w)" and "open_tx w' = None" "ncalls w \<le> ncalls w'"
    by (auto simp: batch_post_def)
  moreover have sub: "set (take i ms) \<subseteq> set (outbox (committed w))" for i
    using ms set_take_subset by fast
  moreover have "without (take k ms) (committed w) =
      (committed w)\<lparr>outbox := filter (\<lambda>m. m \<notin> set (take k ms)) (outbox (committed w))\<rparr>"
    using wf sub by (intro without_distinct) (auto simp: outbox_wf_def)
  ultimately show ?thesis
    unfolding relayed_def using set_take_subset_set_take [OF jk(1)]
    by (intro conjI exI [where x = "take j ms"] exI [where x = "take k ms"]) simp_all
qed

lemma flushBatch_relayed:
  "open_tx w = None \<Longrightarrow> outbox_wf (ncalls w) (committed w) \<Longrightarrow> wp (flushBatch E b) (\<lambda>_. relayed w) w"
  by (rule wp_mono [OF flushBatch_spec]) (auto elim: batch_post_relayed [OF _ _ selection_props(1)])

lemma flush_relayed:
  "open_tx w = None \<Longrightarrow> outbox_wf (ncalls w) (committed w) \<Longrightarrow> wp (flush fuel E b) (\<lambda>_. relayed w) w"
proof (induction fuel arbitrary: w)
  case 0
  then show ?case by (simp add: wp_simps relayed_refl)
next
  case (Suc fuel)
  have "wp (flush fuel E b) (\<lambda>_. relayed w) w1" if "relayed w w1" for w1
    using relayed_then [OF Suc.IH that] relayed_open [OF that] relayed_wf [OF that Suc.prems(2)] by simp
  then show ?case
    by (auto simp: wp_simps intro!: wp_mono [OF flushBatch_relayed [OF Suc.prems]] split: option.splits)
qed

lemma Run_relayed:
  "open_tx w = None \<Longrightarrow> outbox_wf (ncalls w) (committed w) \<Longrightarrow> wp (Run fuel E b evs) (\<lambda>_. relayed w) w"
proof (induction fuel E b evs arbitrary: w rule: Run.induct)
  case (3 fuel E b evs)
  have "wp (Run fuel E b evs) (\<lambda>_. relayed w) w1" if "relayed w w1" for w1
    using relayed_then [OF "3.IH" that] relayed_open [OF that] relayed_wf [OF that "3.prems"(2)] by simp
  then show ?case
    by (auto simp: tryFlush_def wp_simps intro!: wp_mono [OF flush_relayed [OF "3.prems"]]
        split: option.splits)
next
  case (4 fuel E b evs)
  have "wp (Run fuel E b evs) (\<lambda>_. relayed w) w1" if "relayed w w1" for w1
    using relayed_then [OF "4.IH" that] relayed_open [OF that] relayed_wf [OF that "4.prems"(2)] by simp
  moreover have "wp (flush fuel E b) (\<lambda>_. relayed w) (w\<lparr>nudge := False\<rparr>)"
    using flush_relayed [of "w\<lparr>nudge := False\<rparr>" fuel E b] "4.prems" by simp
  ultimately show ?case
    by (auto simp: tryFlush_def wp_simps elim!: wp_mono split: option.splits)
qed (auto simp: wp_simps relayed_refl)

section \<open>Progress\<close>

lemma without_shorter:
  assumes "ms \<noteq> []" and "set ms \<subseteq> set (outbox d)"
  shows "length (outbox (without ms d)) < length (outbox d)"
proof -
  from assms have "hd ms \<in> set (outbox d)" "hd ms \<in> set ms" by (auto simp: hd_in_set subset_iff)
  then show ?thesis by (auto simp: without_def intro!: length_filter_less)
qed

lemma full_batch_shrinks:
  assumes "batch_post ms b w r w'" and "snd r = None" and "\<not> fst r < b" and "0 < b"
    and "set ms \<subseteq> set (outbox (committed w))"
  shows "length (outbox (committed w')) < length (outbox (committed w))"
  using assms without_shorter [of ms "committed w"] by (cases "ms = []") (auto simp: batch_post_def)

lemma flush_ends:
  assumes "0 < b" and "open_tx w = None" and "length (outbox (committed w)) < fuel"
  shows "wp (flush fuel E b) (\<lambda>r _. r \<noteq> None) w"
  using assms
proof (induction fuel arbitrary: w)
  case (Suc fuel)
  have "wp (flush fuel E b) (\<lambda>r _. r \<noteq> None) w1"
    if "batch_post (selection E (Suc (ncalls w)) b (committed w)) b w (n, None) w1" "\<not> n < b" for n w1
    using that full_batch_shrinks [OF that(1)] Suc.prems selection_props(1) [of E _ b "committed w"]
    by (intro Suc.IH) (auto simp: batch_post_def)
  then show ?case
    by (auto simp: wp_simps intro!: wp_mono [OF flushBatch_spec [OF Suc.prems(2)]] split: option.splits)
qed simp

subsection \<open>Without faults\<close>

lemma publishAll_calm:
  "\<forall>n. env_fault E n = NoFault \<Longrightarrow> wp (publishAll E ms) (\<lambda>r _. snd r = None) w"
  by (induction ms arbitrary: w) (auto simp: Publish_def wp_simps Let_def case_prod_unfold)

lemma finish_batch_calm:
  "\<forall>n. env_fault E n = NoFault \<Longrightarrow> open_tx w = Some t \<Longrightarrow> \<not> tx_aborted t \<Longrightarrow>
   wp (finish_batch E ids None) (\<lambda>r _. snd r = None) w"
  by (auto simp: finish_batch_def sql_def run_tx_def delete_published_def Commit_def wp_simps Let_def)

lemma flushBatch_calm:
  fixes w :: "'a outbox_db_scheme world"
  assumes calm: "\<forall>n. env_fault E n = NoFault" and "0 \<le> b" and "open_tx w = None"
  shows "wp (flushBatch E b) (\<lambda>r _. snd r = None) w"
proof -
  have "wp (publishAll E ms) (\<lambda>(ids, e). wp (finish_batch E ids e) (\<lambda>r _. snd r = None)) w1"
    if "open_tx w1 = Some t" "\<not> tx_aborted t" for ms t and w1 :: "'a outbox_db_scheme world"
    by (rule wp_mono [OF wp_conj [THEN iffD2, OF conjI [OF publishAll_calm [OF calm] publishAll_spec]]])
      (use that calm in \<open>auto simp: publish_post_def intro: finish_batch_calm\<close>)
  then show ?thesis
    using assms
    by (auto simp: flushBatch_def flush_locked_def selectLocked_def select_locked_def Begin_def
        sql_def run_tx_def wp_simps Let_def)
qed

lemma sort_without:
  assumes "distinct (map ob_id (outbox d))" and "ms = take n (sort_key ob_id (outbox d))"
  shows "sort_key ob_id (outbox (without ms d)) = drop n (sort_key ob_id (outbox d))"
proof -
  let ?s = "sort_key ob_id (outbox d)"
  have "distinct (map ob_id ?s)" using assms(1) by (simp add: distinct_map)
  then have d: "distinct (map ob_id (take n ?s @ drop n ?s))" by simp
  have "filter (\<lambda>m. ob_id m \<notin> ob_id ` set (take n ?s)) (take n ?s @ drop n ?s) = drop n ?s"
    using d unfolding filter_append distinct_map distinct_append map_append
    by (subst filter_False, simp, subst filter_True) auto
  then show ?thesis using assms(2) by (simp add: without_def filter_sort [symmetric])
qed

lemma flush_drains:
  assumes calm: "\<forall>n. env_fault E n = NoFault" "\<forall>n i. \<not> env_locked E n i" and b: "0 < b"
    and "open_tx w = None" and "outbox_wf (ncalls w) (committed w)"
    and "length (outbox (committed w)) < fuel"
  shows "wp (flush fuel E b) (\<lambda>r w'. r = Some None \<and> open_tx w' = None \<and>
    trace w' = trace w @ map pub (sort_key ob_id (outbox (committed w))) \<and>
    committed w' = (committed w)\<lparr>outbox := []\<rparr>) w"
  using assms(4-)
proof (induction fuel arbitrary: w)
  case (Suc fuel)
  let ?s = "sort_key ob_id (outbox (committed w))"
  have sel: "selection E (Suc (ncalls w)) b (committed w) = take (nat b) ?s"
    using calm(2) by (simp add: selection_def)
  have batch: "wp (flushBatch E b) (\<lambda>r w'. snd r = None \<and> batch_post (take (nat b) ?s) b w r w') w"
    using flushBatch_calm [OF calm(1), of b w] flushBatch_spec [of w E b] b Suc.prems(1)
    by (simp add: wp_conj sel [symmetric])
  have all_gone: "without ?s (committed w) = (committed w)\<lparr>outbox := []\<rparr>"
    by (auto simp: without_def filter_empty_conv)
  have again: "wp (flush fuel E b) (\<lambda>r w'. r = Some None \<and> open_tx w' = None \<and>
      trace w' = trace w @ map pub ?s \<and> committed w' = (committed w)\<lparr>outbox := []\<rparr>) w1"
    if post: "batch_post (take (nat b) ?s) b w (n, None) w1" and full: "\<not> n < b" for n w1
  proof -
    let ?ms = "take (nat b) ?s"
    note w1 = batch_post_None [OF post]
    have sub: "set ?ms \<subseteq> set (outbox (committed w))" by (auto dest: in_set_takeD)
    have "sort_key ob_id (outbox (committed w1)) = drop (nat b) ?s"
      using Suc.prems(2) w1(3) sort_without [of "committed w" ?ms "nat b"] by (simp add: outbox_wf_def)
    moreover have "outbox_wf (ncalls w1) (committed w1)"
      using relayed_wf [OF batch_post_relayed [OF post Suc.prems(2) sub] Suc.prems(2)] .
    moreover have "length (outbox (committed w1)) < fuel"
      using full_batch_shrinks [OF post _ _ b sub] full Suc.prems(3) by simp
    ultimately show ?thesis
      using Suc.IH [OF w1(1)] w1 by (auto simp: without_def elim!: wp_mono simp flip: map_append)
  qed
  have last: "open_tx w1 = None \<and> trace w1 = trace w @ map pub ?s \<and> committed w1 = (committed w)\<lparr>outbox := []\<rparr>"
    if post: "batch_post (take (nat b) ?s) b w (n, None) w1" and short: "n < b" for n w1
  proof -
    have "take (nat b) ?s = ?s" using batch_post_None(4) [OF post] short by simp
    with batch_post_None [OF post] all_gone show ?thesis by simp
  qed
  show ?case
    by (simp add: wp_simps, rule wp_mono [OF batch]) (auto simp: wp_simps again dest: last)
qed simp

section \<open>The properties of the relay\<close>

text \<open>
  Concrete rows and an environment whose second publish is lost, for the witnesses below.
\<close>

definition demo_outbox :: outbox_db where
  "demo_outbox = \<lparr>outbox =
     [\<lparr>ob_id = 0, ob_subject = ''b'', ob_payload = Garbage\<rparr>]\<rparr>"

lemma demo_outbox_wf: "outbox_wf 1 demo_outbox"
  by (simp add: outbox_wf_def demo_outbox_def)

text \<open>
  \<^bold>\<open>C4.\<close> The outbox relay delivers at least once (\<open>outbox/relay.go\<close>): whatever fails, and
  however often the relay is ticked or nudged, it publishes only messages of the outbox, a row
  it removes has been published, and every row it does not remove, with all other tables, stays
  as it was. No message is lost or altered.
\<close>

theorem relay_at_least_once:
  assumes "open_tx w = None" and "outbox_wf (ncalls w) (committed w)"
    and "run_state (Run fuel E batchSize evs) w = (r, w')"
  shows "\<exists>sent gone. trace w' = trace w @ map (\<lambda>m. Published (ob_subject m) (ob_payload m)) sent \<and>
    set gone \<subseteq> set sent \<and> set sent \<subseteq> set (outbox (committed w)) \<and>
    committed w' = (committed w)\<lparr>outbox := filter (\<lambda>m. m \<notin> set gone) (outbox (committed w))\<rparr>"
proof -
  have "relayed w w'" using wpD [OF Run_relayed [OF assms(1,2)] assms(3)] .
  then show ?thesis by (simp add: relayed_def pub_def [abs_def])
qed

theorem relay_at_least_once_witness:
  "\<exists>sent gone. trace (snd (run_state (Run 3 (faulty_env [(3, Lost ''x'')]) 100 [Tick])
        (fresh_world demo_outbox))) = map (\<lambda>m. Published (ob_subject m) (ob_payload m)) sent \<and>
      set gone \<subseteq> set sent \<and> set sent \<subseteq> set (outbox demo_outbox)"
  using relay_at_least_once [of "fresh_world demo_outbox" 3 "faulty_env [(3, Lost ''x'')]" 100 "[Tick]"
      "fst (run_state (Run 3 (faulty_env [(3, Lost ''x'')]) 100 [Tick]) (fresh_world demo_outbox))"
      "snd (run_state (Run 3 (faulty_env [(3, Lost ''x'')]) 100 [Tick]) (fresh_world demo_outbox))"]
    demo_outbox_wf
  by (simp del: Run.simps) blast

text \<open>
  \<^bold>\<open>C21.\<close> \<open>Relay.flush\<close> ends, for every positive batch size (the services use 100) and whatever
  fails: a round that does not end the loop has removed at least one row, so the loop runs at
  most once more than there are rows.
\<close>

theorem flush_terminates:
  assumes "0 < batchSize" and "open_tx w = None" and "length (outbox (committed w)) < fuel"
  shows "\<exists>e w'. run_state (flush fuel E batchSize) w = (Some e, w')"
  using flush_ends [OF assms, of E] by (auto simp: wp_def split: prod.splits)

theorem flush_terminates_witness:
  "\<exists>e w'. run_state (flush 2 (faulty_env [(3, Lost ''x'')]) relayBatchSize)
     (fresh_world demo_outbox) = (Some e, w')"
  using flush_terminates [of relayBatchSize "fresh_world demo_outbox" 2]
  by (simp add: relayBatchSize_def demo_outbox_def)

text \<open>
  \<^bold>\<open>C20.\<close> When no call fails and no other session holds locks, one \<open>flush\<close> returns nil, has
  published every message of the outbox exactly once, in the order of their ids, and leaves
  the outbox empty and the other tables untouched.
\<close>

theorem flush_publishes_in_order:
  assumes "\<forall>n. env_fault E n = NoFault" and "\<forall>n i. \<not> env_locked E n i" and "0 < batchSize"
    and "open_tx w = None" and "outbox_wf (ncalls w) (committed w)"
    and "length (outbox (committed w)) < fuel"
    and "run_state (flush fuel E batchSize) w = (r, w')"
  shows "r = Some None \<and>
    trace w' = trace w @ map (\<lambda>m. Published (ob_subject m) (ob_payload m)) (sort_key ob_id (outbox (committed w))) \<and>
    committed w' = (committed w)\<lparr>outbox := []\<rparr>"
  using wpD [OF flush_drains [OF assms(1-6)] assms(7)] by (simp add: pub_def [abs_def])

theorem flush_publishes_in_order_witness:
  "trace (snd (run_state (flush 2 calm_env relayBatchSize) (fresh_world demo_outbox))) =
     [Published ''b'' Garbage]"
  using flush_publishes_in_order [of calm_env relayBatchSize "fresh_world demo_outbox" 2
      "fst (run_state (flush 2 calm_env relayBatchSize) (fresh_world demo_outbox))"
      "snd (run_state (flush 2 calm_env relayBatchSize) (fresh_world demo_outbox))"]
    demo_outbox_wf
  by (simp add: relayBatchSize_def demo_outbox_def calm_env_def)

end
