(* ===== verification/Repo_Name.thy ===== *)
theory Repo_Name
  imports Prelude
begin

text \<open>
  Repository names: the pattern \<open>^[A-Za-z0-9_.-]+/[A-Za-z0-9_.-]+$\<close>, which
  \<open>internal/shared/github/parse_repo.go\<close> and \<open>internal/shared/events/marshal.go\<close> both
  compile, and \<open>ParseRepo\<close>. Go's \<open>$\<close> without the flag \<open>m\<close> matches at the end of the text
  only, so the pattern has to match the whole string.
\<close>

text \<open>A release, \<open>internal/shared/domain/domain.go\<close>.\<close>

record release =
  TagName :: string
  HTMLURL :: string

section \<open>The pattern\<close>

definition char_between :: "char \<Rightarrow> char \<Rightarrow> char \<Rightarrow> bool" where
  "char_between lo hi c \<longleftrightarrow>
     (of_char lo :: nat) \<le> of_char c \<and> (of_char c :: nat) \<le> of_char hi"

definition repo_char :: "char \<Rightarrow> bool" where
  "repo_char c \<longleftrightarrow> char_between CHR ''A'' CHR ''Z'' c \<or> char_between CHR ''a'' CHR ''z'' c \<or>
     char_between CHR ''0'' CHR ''9'' c \<or> c = CHR ''_'' \<or> c = CHR ''.'' \<or> c = CHR ''-''"

text \<open>
  The class excludes the slash, so the greedy match of the first group is the only
  candidate: the matcher needs no backtracking.
\<close>

definition repoRegex_MatchString :: "string \<Rightarrow> bool" where
  "repoRegex_MatchString s =
     (takeWhile repo_char s \<noteq> [] \<and>
      (case dropWhile repo_char s of
         [] \<Rightarrow> False
       | c # rest \<Rightarrow> c = CHR ''/'' \<and> rest \<noteq> [] \<and> list_all repo_char rest))"

section \<open>ParseRepo\<close>

text \<open>\<open>strings.SplitN(s, "/", 2)\<close>: the parts before and after the first slash.\<close>

definition SplitN_slash :: "string \<Rightarrow> string list" where
  "SplitN_slash s =
     (case dropWhile (\<lambda>c. c \<noteq> CHR ''/'') s of
        [] \<Rightarrow> [s]
      | _ # rest \<Rightarrow> [takeWhile (\<lambda>c. c \<noteq> CHR ''/'') s, rest])"

definition ParseRepo :: "string \<Rightarrow> error + string \<times> string" where
  "ParseRepo repo =
     (if \<not> repoRegex_MatchString repo then Inl (Sentinel ErrInvalidRepo)
      else case SplitN_slash repo of
        a # b # _ \<Rightarrow> Inr (a, b)
      | _ \<Rightarrow> Inl (External ''index out of range''))"

section \<open>What the matcher and the parser do\<close>

lemma repo_char_not_slash [simp]: "\<not> repo_char CHR ''/''"
  by (simp add: repo_char_def char_between_def)

lemma repo_char_slash: "repo_char c \<Longrightarrow> c \<noteq> CHR ''/''"
  by auto

text \<open>The regular language the pattern denotes.\<close>

definition repo_language :: "string set" where
  "repo_language = {a @ CHR ''/'' # b | a b. a \<noteq> [] \<and> b \<noteq> [] \<and>
     (\<forall>c \<in> set a. repo_char c) \<and> (\<forall>c \<in> set b. repo_char c)}"

lemma takeWhile_repo: "\<forall>c \<in> set a. repo_char c \<Longrightarrow> takeWhile repo_char (a @ CHR ''/'' # b) = a"
  by (simp add: takeWhile_append)

lemma dropWhile_repo:
  "\<forall>c \<in> set a. repo_char c \<Longrightarrow> dropWhile repo_char (a @ CHR ''/'' # b) = CHR ''/'' # b"
  by (simp add: dropWhile_append)

lemma repoRegex_iff: "repoRegex_MatchString s \<longleftrightarrow> s \<in> repo_language"
proof
  assume m: "repoRegex_MatchString s"
  then obtain b where d: "dropWhile repo_char s = CHR ''/'' # b" and b: "b \<noteq> []" "list_all repo_char b"
    and a: "takeWhile repo_char s \<noteq> []"
    by (auto simp: repoRegex_MatchString_def split: list.splits)
  have "s = takeWhile repo_char s @ CHR ''/'' # b"
    using d takeWhile_dropWhile_id [of repo_char s] by simp
  with a b show "s \<in> repo_language"
    unfolding repo_language_def by (auto simp: list_all_iff dest: set_takeWhileD)
next
  assume "s \<in> repo_language"
  then show "repoRegex_MatchString s"
    by (auto simp: repo_language_def repoRegex_MatchString_def takeWhile_repo dropWhile_repo list_all_iff)
qed

lemma ParseRepo_split:
  assumes "\<forall>c \<in> set a. repo_char c" "\<forall>c \<in> set b. repo_char c" "a \<noteq> []" "b \<noteq> []"
  shows "ParseRepo (a @ CHR ''/'' # b) = Inr (a, b)"
proof -
  have "repoRegex_MatchString (a @ CHR ''/'' # b)"
    using assms by (auto simp: repoRegex_iff repo_language_def)
  moreover have "\<forall>c \<in> set a. c \<noteq> CHR ''/''" using assms(1) repo_char_slash by blast
  then have "SplitN_slash (a @ CHR ''/'' # b) = [a, b]"
    by (simp add: SplitN_slash_def takeWhile_append dropWhile_append)
  ultimately show ?thesis by (simp add: ParseRepo_def)
qed

lemma ParseRepo_eq:
  "ParseRepo s = (if s \<in> repo_language then Inr (takeWhile repo_char s, tl (dropWhile repo_char s))
                  else Inl (Sentinel ErrInvalidRepo))"
proof (cases "s \<in> repo_language")
  case True
  then show ?thesis
    by (auto simp: repo_language_def ParseRepo_split takeWhile_repo dropWhile_repo)
next
  case False
  then show ?thesis by (simp add: ParseRepo_def repoRegex_iff)
qed

text \<open>
  \<open>ParseRepo\<close> accepts exactly the names of the form \<open>owner/name\<close> over the allowed
  characters, returns the two parts such that joining them with a slash gives the input
  back, and rejects every other string with \<open>ErrInvalidRepo\<close>; it never indexes out of range.
\<close>

theorem ParseRepo_correct:
  "(\<exists>owner name. ParseRepo s = Inr (owner, name) \<and> s = owner @ CHR ''/'' # name \<and>
      owner \<noteq> [] \<and> name \<noteq> [] \<and> list_all repo_char owner \<and> list_all repo_char name) \<or>
   (ParseRepo s = Inl (Sentinel ErrInvalidRepo) \<and>
      (\<nexists>owner name. s = owner @ CHR ''/'' # name \<and> owner \<noteq> [] \<and> name \<noteq> [] \<and>
         list_all repo_char owner \<and> list_all repo_char name))"
proof (cases "s \<in> repo_language")
  case True
  then show ?thesis
    by (auto simp: repo_language_def ParseRepo_split list_all_iff)
next
  case False
  then show ?thesis
    by (auto simp: ParseRepo_eq repo_language_def list_all_iff)
qed

end
