(* ===== verification/Events.thy ===== *)
theory Events
  imports World Repo_Name
begin

text \<open>
  The event contract, \<open>internal/shared/events\<close>: subjects and streams, the event structs with
  their \<open>json\<close> and \<open>validate\<close> tags, and the generic \<open>Marshal\<close> and \<open>Unmarshal\<close>. The tags are
  data here as they are in the source: \<open>tags\<close> lists, for each struct, its fields in order.
  The rules \<open>uuid\<close>, \<open>email\<close> and \<open>url\<close> of go-playground/validator are arguments (in \<open>env\<close>);
  \<open>reponame\<close> is the repository's own. Of \<open>encoding/json\<close> the model has what the two
  functions use: field order and \<open>omitempty\<close> when encoding; unknown fields refused, exact
  and then case-folded field names, \<open>null\<close> as no-op and type errors when decoding.
\<close>

section \<open>Subjects and streams\<close>

definition SubjectSubscriptionPending :: string where "SubjectSubscriptionPending = ''subscriptions.pending''"
definition SubjectSubscriptionConfirmed :: string where "SubjectSubscriptionConfirmed = ''subscriptions.confirmed''"
definition SubjectSubscriptionRemoved :: string where "SubjectSubscriptionRemoved = ''subscriptions.removed''"
definition SubjectSubscriptionExpired :: string where "SubjectSubscriptionExpired = ''subscriptions.expired''"
definition SubjectReleaseDetected :: string where "SubjectReleaseDetected = ''releases.detected''"
definition SubjectReleaseNotified :: string where "SubjectReleaseNotified = ''releases.notified''"
definition SubjectNotificationConfirmationSent :: string where "SubjectNotificationConfirmationSent = ''notifications.confirmation.sent''"
definition SubjectNotificationConfirmationFailed :: string where "SubjectNotificationConfirmationFailed = ''notifications.confirmation.failed''"
definition SubjectNotificationConfirmationDead :: string where "SubjectNotificationConfirmationDead = ''notifications.confirmation.dead''"
definition SubjectNotificationReleaseSent :: string where "SubjectNotificationReleaseSent = ''notifications.release.sent''"
definition SubjectNotificationReleaseFailed :: string where "SubjectNotificationReleaseFailed = ''notifications.release.failed''"
definition SubjectNotificationReleaseDead :: string where "SubjectNotificationReleaseDead = ''notifications.release.dead''"
definition SubjectSagaCompensate :: string where "SubjectSagaCompensate = ''saga.compensate''"

definition StreamSubscriptions :: string where "StreamSubscriptions = ''SUBSCRIPTIONS''"
definition StreamReleases :: string where "StreamReleases = ''RELEASES''"
definition StreamNotifications :: string where "StreamNotifications = ''NOTIFICATIONS''"
definition StreamSagas :: string where "StreamSagas = ''SAGAS''"

lemmas subject_defs =
  SubjectSubscriptionPending_def SubjectSubscriptionConfirmed_def SubjectSubscriptionRemoved_def
  SubjectSubscriptionExpired_def SubjectReleaseDetected_def SubjectReleaseNotified_def
  SubjectNotificationConfirmationSent_def SubjectNotificationConfirmationFailed_def
  SubjectNotificationConfirmationDead_def SubjectNotificationReleaseSent_def
  SubjectNotificationReleaseFailed_def SubjectNotificationReleaseDead_def SubjectSagaCompensate_def

lemmas stream_defs =
  StreamSubscriptions_def StreamReleases_def StreamNotifications_def StreamSagas_def

definition SubjectsSubscriptions :: "string list" where
  "SubjectsSubscriptions = [SubjectSubscriptionPending, SubjectSubscriptionConfirmed,
     SubjectSubscriptionRemoved, SubjectSubscriptionExpired]"

definition SubjectsReleases :: "string list" where
  "SubjectsReleases = [SubjectReleaseDetected, SubjectReleaseNotified]"

definition SubjectsNotifications :: "string list" where
  "SubjectsNotifications = [SubjectNotificationConfirmationSent,
     SubjectNotificationConfirmationFailed, SubjectNotificationConfirmationDead,
     SubjectNotificationReleaseSent, SubjectNotificationReleaseFailed, SubjectNotificationReleaseDead]"

definition SubjectsSagas :: "string list" where
  "SubjectsSagas = [SubjectSagaCompensate]"

section \<open>The event structs\<close>

datatype event =
    SubscriptionPending (SagaID: string) (Email: string) (RepoName: string) (ConfirmURL: string)
  | SubscriptionConfirmed (SagaID: string) (Email: string) (RepoName: string) (UnsubToken: string)
  | SubscriptionRemoved (SagaID: string) (Email: string) (RepoName: string)
  | SubscriptionExpired (SagaID: string) (Email: string) (RepoName: string)
  | ReleaseDetected (SagaID: string) (RepoName: string) (Tag: string) (ReleaseURL: string)
  | ReleaseNotified (SagaID: string) (RepoName: string) (Tag: string) (SentCount: int)
      (FailedEmails: "string list")
  | NotificationConfirmationSent (SagaID: string) (Email: string)
  | NotificationConfirmationFailed (SagaID: string) (Email: string) (Reason: string)
  | NotificationConfirmationDead (SagaID: string) (Email: string) (Reason: string)
  | NotificationReleaseSent (SagaID: string) (RepoName: string) (Tag: string) (Email: string)
  | NotificationReleaseFailed (SagaID: string) (RepoName: string) (Tag: string) (Email: string)
      (Reason: string)
  | NotificationReleaseDead (SagaID: string) (RepoName: string) (Tag: string) (Email: string)
      (Reason: string)
  | SagaCompensate (SagaID: string) (SagaType: string) (Email: string) (RepoName: string)

text \<open>The type argument of the generic functions.\<close>

datatype event_type =
    TSubscriptionPending | TSubscriptionConfirmed | TSubscriptionRemoved | TSubscriptionExpired
  | TReleaseDetected | TReleaseNotified
  | TConfirmationSent | TConfirmationFailed | TConfirmationDead
  | TReleaseSent | TReleaseFailed | TReleaseDead
  | TSagaCompensate

primrec type_of :: "event \<Rightarrow> event_type" where
  "type_of (SubscriptionPending a b c d) = TSubscriptionPending"
| "type_of (SubscriptionConfirmed a b c d) = TSubscriptionConfirmed"
| "type_of (SubscriptionRemoved a b c) = TSubscriptionRemoved"
| "type_of (SubscriptionExpired a b c) = TSubscriptionExpired"
| "type_of (ReleaseDetected a b c d) = TReleaseDetected"
| "type_of (ReleaseNotified a b c d e) = TReleaseNotified"
| "type_of (NotificationConfirmationSent a b) = TConfirmationSent"
| "type_of (NotificationConfirmationFailed a b c) = TConfirmationFailed"
| "type_of (NotificationConfirmationDead a b c) = TConfirmationDead"
| "type_of (NotificationReleaseSent a b c d) = TReleaseSent"
| "type_of (NotificationReleaseFailed a b c d e) = TReleaseFailed"
| "type_of (NotificationReleaseDead a b c d e) = TReleaseDead"
| "type_of (SagaCompensate a b c d) = TSagaCompensate"

text \<open>The subject under which events of a type are published.\<close>

primrec subject_for :: "event_type \<Rightarrow> string" where
  "subject_for TSubscriptionPending = SubjectSubscriptionPending"
| "subject_for TSubscriptionConfirmed = SubjectSubscriptionConfirmed"
| "subject_for TSubscriptionRemoved = SubjectSubscriptionRemoved"
| "subject_for TSubscriptionExpired = SubjectSubscriptionExpired"
| "subject_for TReleaseDetected = SubjectReleaseDetected"
| "subject_for TReleaseNotified = SubjectReleaseNotified"
| "subject_for TConfirmationSent = SubjectNotificationConfirmationSent"
| "subject_for TConfirmationFailed = SubjectNotificationConfirmationFailed"
| "subject_for TConfirmationDead = SubjectNotificationConfirmationDead"
| "subject_for TReleaseSent = SubjectNotificationReleaseSent"
| "subject_for TReleaseFailed = SubjectNotificationReleaseFailed"
| "subject_for TReleaseDead = SubjectNotificationReleaseDead"
| "subject_for TSagaCompensate = SubjectSagaCompensate"

definition subject_of :: "event \<Rightarrow> string" where
  "subject_of ev = subject_for (type_of ev)"

lemma subject_of_simps [simp]:
  "subject_of (SubscriptionPending a b c d) = SubjectSubscriptionPending"
  "subject_of (SubscriptionConfirmed a b c d) = SubjectSubscriptionConfirmed"
  "subject_of (SubscriptionRemoved a b c) = SubjectSubscriptionRemoved"
  "subject_of (SubscriptionExpired a b c) = SubjectSubscriptionExpired"
  "subject_of (ReleaseDetected a b c d) = SubjectReleaseDetected"
  "subject_of (ReleaseNotified a b c n fs) = SubjectReleaseNotified"
  "subject_of (NotificationConfirmationSent a b) = SubjectNotificationConfirmationSent"
  "subject_of (NotificationConfirmationFailed a b c) = SubjectNotificationConfirmationFailed"
  "subject_of (NotificationConfirmationDead a b c) = SubjectNotificationConfirmationDead"
  "subject_of (NotificationReleaseSent a b c d) = SubjectNotificationReleaseSent"
  "subject_of (NotificationReleaseFailed a b c d e) = SubjectNotificationReleaseFailed"
  "subject_of (NotificationReleaseDead a b c d e) = SubjectNotificationReleaseDead"
  "subject_of (SagaCompensate a b c d) = SubjectSagaCompensate"
  by (simp_all add: subject_of_def)

lemma subject_for_inj [simp]: "subject_for a = subject_for b \<longleftrightarrow> a = b"
  by (cases a; cases b) (simp_all add: subject_defs)

text \<open>The verb \<open>%T\<close> of the error messages.\<close>

primrec type_name :: "event_type \<Rightarrow> string" where
  "type_name TSubscriptionPending = ''events.SubscriptionPending''"
| "type_name TSubscriptionConfirmed = ''events.SubscriptionConfirmed''"
| "type_name TSubscriptionRemoved = ''events.SubscriptionRemoved''"
| "type_name TSubscriptionExpired = ''events.SubscriptionExpired''"
| "type_name TReleaseDetected = ''events.ReleaseDetected''"
| "type_name TReleaseNotified = ''events.ReleaseNotified''"
| "type_name TConfirmationSent = ''events.NotificationConfirmationSent''"
| "type_name TConfirmationFailed = ''events.NotificationConfirmationFailed''"
| "type_name TConfirmationDead = ''events.NotificationConfirmationDead''"
| "type_name TReleaseSent = ''events.NotificationReleaseSent''"
| "type_name TReleaseFailed = ''events.NotificationReleaseFailed''"
| "type_name TReleaseDead = ''events.NotificationReleaseDead''"
| "type_name TSagaCompensate = ''events.SagaCompensate''"

subsection \<open>Field tags\<close>

datatype kind = KString | KInt | KStrings

datatype rule = Required | RUuid | REmail | RReponame | RUrl | RGte0 | ROmitemptyDiveEmail

datatype fval = FStr string | FInt int | FStrs "string list"

type_synonym field_tag = "string \<times> kind \<times> rule list"

primrec tags :: "event_type \<Rightarrow> field_tag list" where
  "tags TSubscriptionPending =
     [(''sagaID'', KString, [Required, RUuid]), (''email'', KString, [Required, REmail]),
      (''repoName'', KString, [Required, RReponame]), (''confirmURL'', KString, [Required, RUrl])]"
| "tags TSubscriptionConfirmed =
     [(''sagaID'', KString, [Required, RUuid]), (''email'', KString, [Required, REmail]),
      (''repoName'', KString, [Required, RReponame]), (''unsubToken'', KString, [Required])]"
| "tags TSubscriptionRemoved =
     [(''sagaID'', KString, [Required, RUuid]), (''email'', KString, [Required, REmail]),
      (''repoName'', KString, [Required, RReponame])]"
| "tags TSubscriptionExpired =
     [(''sagaID'', KString, [Required, RUuid]), (''email'', KString, [Required, REmail]),
      (''repoName'', KString, [Required, RReponame])]"
| "tags TReleaseDetected =
     [(''sagaID'', KString, [Required, RUuid]), (''repoName'', KString, [Required, RReponame]),
      (''tag'', KString, [Required]), (''releaseURL'', KString, [Required, RUrl])]"
| "tags TReleaseNotified =
     [(''sagaID'', KString, [Required, RUuid]), (''repoName'', KString, [Required, RReponame]),
      (''tag'', KString, [Required]), (''sentCount'', KInt, [RGte0]),
      (''failedEmails'', KStrings, [ROmitemptyDiveEmail])]"
| "tags TConfirmationSent =
     [(''sagaID'', KString, [Required, RUuid]), (''email'', KString, [Required, REmail])]"
| "tags TConfirmationFailed =
     [(''sagaID'', KString, [Required, RUuid]), (''email'', KString, [Required, REmail]),
      (''reason'', KString, [Required])]"
| "tags TConfirmationDead =
     [(''sagaID'', KString, [Required, RUuid]), (''email'', KString, [Required, REmail]),
      (''reason'', KString, [Required])]"
| "tags TReleaseSent =
     [(''sagaID'', KString, [Required, RUuid]), (''repoName'', KString, [Required, RReponame]),
      (''tag'', KString, [Required]), (''email'', KString, [Required, REmail])]"
| "tags TReleaseFailed =
     [(''sagaID'', KString, [Required, RUuid]), (''repoName'', KString, [Required, RReponame]),
      (''tag'', KString, [Required]), (''email'', KString, [Required, REmail]),
      (''reason'', KString, [Required])]"
| "tags TReleaseDead =
     [(''sagaID'', KString, [Required, RUuid]), (''repoName'', KString, [Required, RReponame]),
      (''tag'', KString, [Required]), (''email'', KString, [Required, REmail]),
      (''reason'', KString, [Required])]"
| "tags TSagaCompensate =
     [(''sagaID'', KString, [Required, RUuid]), (''sagaType'', KString, [Required]),
      (''email'', KString, [Required, REmail]), (''repoName'', KString, [Required, RReponame])]"

text \<open>The fields of a struct value in the order of its tags, and back.\<close>

primrec fields_of :: "event \<Rightarrow> fval list" where
  "fields_of (SubscriptionPending a b c d) = [FStr a, FStr b, FStr c, FStr d]"
| "fields_of (SubscriptionConfirmed a b c d) = [FStr a, FStr b, FStr c, FStr d]"
| "fields_of (SubscriptionRemoved a b c) = [FStr a, FStr b, FStr c]"
| "fields_of (SubscriptionExpired a b c) = [FStr a, FStr b, FStr c]"
| "fields_of (ReleaseDetected a b c d) = [FStr a, FStr b, FStr c, FStr d]"
| "fields_of (ReleaseNotified a b c d e) = [FStr a, FStr b, FStr c, FInt d, FStrs e]"
| "fields_of (NotificationConfirmationSent a b) = [FStr a, FStr b]"
| "fields_of (NotificationConfirmationFailed a b c) = [FStr a, FStr b, FStr c]"
| "fields_of (NotificationConfirmationDead a b c) = [FStr a, FStr b, FStr c]"
| "fields_of (NotificationReleaseSent a b c d) = [FStr a, FStr b, FStr c, FStr d]"
| "fields_of (NotificationReleaseFailed a b c d e) = [FStr a, FStr b, FStr c, FStr d, FStr e]"
| "fields_of (NotificationReleaseDead a b c d e) = [FStr a, FStr b, FStr c, FStr d, FStr e]"
| "fields_of (SagaCompensate a b c d) = [FStr a, FStr b, FStr c, FStr d]"

primrec fstr :: "fval \<Rightarrow> string" where
  "fstr (FStr s) = s" | "fstr (FInt n) = ''''" | "fstr (FStrs xs) = ''''"

primrec fint :: "fval \<Rightarrow> int" where
  "fint (FStr s) = 0" | "fint (FInt n) = n" | "fint (FStrs xs) = 0"

primrec fstrs :: "fval \<Rightarrow> string list" where
  "fstrs (FStr s) = []" | "fstrs (FInt n) = []" | "fstrs (FStrs xs) = xs"

primrec mk_event :: "event_type \<Rightarrow> fval list \<Rightarrow> event" where
  "mk_event TSubscriptionPending v =
     SubscriptionPending (fstr (v!0)) (fstr (v!1)) (fstr (v!2)) (fstr (v!3))"
| "mk_event TSubscriptionConfirmed v =
     SubscriptionConfirmed (fstr (v!0)) (fstr (v!1)) (fstr (v!2)) (fstr (v!3))"
| "mk_event TSubscriptionRemoved v = SubscriptionRemoved (fstr (v!0)) (fstr (v!1)) (fstr (v!2))"
| "mk_event TSubscriptionExpired v = SubscriptionExpired (fstr (v!0)) (fstr (v!1)) (fstr (v!2))"
| "mk_event TReleaseDetected v =
     ReleaseDetected (fstr (v!0)) (fstr (v!1)) (fstr (v!2)) (fstr (v!3))"
| "mk_event TReleaseNotified v =
     ReleaseNotified (fstr (v!0)) (fstr (v!1)) (fstr (v!2)) (fint (v!3)) (fstrs (v!4))"
| "mk_event TConfirmationSent v = NotificationConfirmationSent (fstr (v!0)) (fstr (v!1))"
| "mk_event TConfirmationFailed v =
     NotificationConfirmationFailed (fstr (v!0)) (fstr (v!1)) (fstr (v!2))"
| "mk_event TConfirmationDead v =
     NotificationConfirmationDead (fstr (v!0)) (fstr (v!1)) (fstr (v!2))"
| "mk_event TReleaseSent v =
     NotificationReleaseSent (fstr (v!0)) (fstr (v!1)) (fstr (v!2)) (fstr (v!3))"
| "mk_event TReleaseFailed v =
     NotificationReleaseFailed (fstr (v!0)) (fstr (v!1)) (fstr (v!2)) (fstr (v!3)) (fstr (v!4))"
| "mk_event TReleaseDead v =
     NotificationReleaseDead (fstr (v!0)) (fstr (v!1)) (fstr (v!2)) (fstr (v!3)) (fstr (v!4))"
| "mk_event TSagaCompensate v =
     SagaCompensate (fstr (v!0)) (fstr (v!1)) (fstr (v!2)) (fstr (v!3))"

section \<open>Validation\<close>

primrec check_rule :: "env \<Rightarrow> rule \<Rightarrow> fval \<Rightarrow> bool" where
  "check_rule E Required v = (fstr v \<noteq> [])"
| "check_rule E RUuid v = valid_uuid E (fstr v)"
| "check_rule E REmail v = valid_email E (fstr v)"
| "check_rule E RReponame v = repoRegex_MatchString (fstr v)"
| "check_rule E RUrl v = valid_url E (fstr v)"
| "check_rule E RGte0 v = (0 \<le> fint v)"
| "check_rule E ROmitemptyDiveEmail v = list_all (valid_email E) (fstrs v)"

definition valid_fields :: "env \<Rightarrow> event_type \<Rightarrow> fval list \<Rightarrow> bool" where
  "valid_fields E ty vs =
     list_all2 (\<lambda>(name, k, rules) v. list_all (\<lambda>r. check_rule E r v) rules) (tags ty) vs"

definition eventValidator_Struct :: "env \<Rightarrow> event \<Rightarrow> bool" where
  "eventValidator_Struct E e = valid_fields E (type_of e) (fields_of e)"

section \<open>Marshal\<close>

text \<open>\<open>json.Marshal\<close> of one field; only \<open>failedEmails\<close> has the option \<open>omitempty\<close>.\<close>

fun encode_field :: "field_tag \<Rightarrow> fval \<Rightarrow> (string \<times> json) list" where
  "encode_field (name, k, rules) (FStr s) = [(name, JStr s)]"
| "encode_field (name, k, rules) (FInt n) = [(name, JInt n)]"
| "encode_field (name, k, rules) (FStrs xs) = (if xs = [] then [] else [(name, JArr (map JStr xs))])"

definition encode :: "event \<Rightarrow> json" where
  "encode e = JObj (concat (map2 encode_field (tags (type_of e)) (fields_of e)))"

definition Marshal :: "env \<Rightarrow> event \<Rightarrow> error + payload" where
  "Marshal E e =
     (if eventValidator_Struct E e then Inr (Doc (encode e))
      else Inl (Errorf (''validate event '' @ type_name (type_of e)) (External ''validation failed'')))"

section \<open>Unmarshal\<close>

text \<open>
  Field lookup of \<open>encoding/json\<close>: the exact name, else the case-folded one. Simple case
  folding maps ASCII letters to upper case, and the two non-ASCII letters that fold to
  ASCII ones: U+017F (bytes C5 BF) to S and U+212A (bytes E2 84 AA) to K.
\<close>

definition fold_char :: "char \<Rightarrow> char" where
  "fold_char c = (if char_between CHR ''a'' CHR ''z'' c then char_of (of_char c - (32 :: nat)) else c)"

fun foldName :: "string \<Rightarrow> string" where
  "foldName (a # b # c # s) =
     (if a = CHR 0xC5 \<and> b = CHR 0xBF then CHR ''S'' # foldName (c # s)
      else if a = CHR 0xE2 \<and> b = CHR 0x84 \<and> c = CHR 0xAA then CHR ''K'' # foldName s
      else fold_char a # foldName (b # c # s))"
| "foldName [a, b] = (if a = CHR 0xC5 \<and> b = CHR 0xBF then [CHR ''S''] else [fold_char a, fold_char b])"
| "foldName [a] = [fold_char a]"
| "foldName [] = []"

fun index_of :: "('a \<Rightarrow> bool) \<Rightarrow> 'a list \<Rightarrow> nat option" where
  "index_of p [] = None"
| "index_of p (x # xs) = (if p x then Some 0 else map_option Suc (index_of p xs))"

definition field_index :: "event_type \<Rightarrow> string \<Rightarrow> nat option" where
  "field_index ty key =
     (case index_of (\<lambda>t. fst t = key) (tags ty) of
        Some i \<Rightarrow> Some i
      | None \<Rightarrow> index_of (\<lambda>t. foldName (fst t) = foldName key) (tags ty))"

primrec zero_field :: "kind \<Rightarrow> fval" where
  "zero_field KString = FStr ''''" | "zero_field KInt = FInt 0" | "zero_field KStrings = FStrs []"

definition zero_struct :: "event_type \<Rightarrow> fval list" where
  "zero_struct ty = map (\<lambda>(name, k, rules). zero_field k) (tags ty)"

text \<open>An element of a string slice: a string, or null, which leaves the zero value.\<close>

fun decode_elem :: "json \<Rightarrow> string option" where
  "decode_elem (JStr s) = Some s"
| "decode_elem JNull = Some ''''"
| "decode_elem _ = None"

definition in_int64 :: "int \<Rightarrow> bool" where
  "in_int64 n \<longleftrightarrow> - (2 ^ 63) \<le> n \<and> n < 2 ^ 63"

fun decode_value :: "fval \<Rightarrow> json \<Rightarrow> fval option" where
  "decode_value (FStrs old) JNull = Some (FStrs [])"
| "decode_value old JNull = Some old"
| "decode_value (FStr old) (JStr s) = Some (FStr s)"
| "decode_value (FInt old) (JInt n) = (if in_int64 n then Some (FInt n) else None)"
| "decode_value (FStrs old) (JArr xs) = map_option FStrs (those (map decode_elem xs))"
| "decode_value _ _ = None"

definition json_error :: "string \<Rightarrow> error" where
  "json_error m = External (''json: '' @ m)"

fun decode_members :: "event_type \<Rightarrow> fval list \<Rightarrow> (string \<times> json) list \<Rightarrow> error + fval list" where
  "decode_members ty vs [] = Inr vs"
| "decode_members ty vs ((key, v) # ms) =
     (case field_index ty key of
        None \<Rightarrow> Inl (json_error ''unknown field'')
      | Some i \<Rightarrow> (case decode_value (vs ! i) v of
          None \<Rightarrow> Inl (json_error ''cannot unmarshal'')
        | Some x \<Rightarrow> decode_members ty (vs[i := x]) ms))"

fun Decode :: "event_type \<Rightarrow> payload \<Rightarrow> error + fval list" where
  "Decode ty Garbage = Inl (json_error ''syntax error'')"
| "Decode ty (Doc (JObj ms)) = decode_members ty (zero_struct ty) ms"
| "Decode ty (Doc JNull) = Inr (zero_struct ty)"
| "Decode ty (Doc _) = Inl (json_error ''cannot unmarshal'')"

definition Unmarshal :: "env \<Rightarrow> event_type \<Rightarrow> payload \<Rightarrow> error + event" where
  "Unmarshal E ty data =
     (case Decode ty data of
        Inl e \<Rightarrow> Inl (Errorf (''unmarshal event '' @ type_name ty) e)
      | Inr vs \<Rightarrow>
          (if eventValidator_Struct E (mk_event ty vs) then Inr (mk_event ty vs)
           else Inl (Errorf (''validate event '' @ type_name ty) (External ''validation failed''))))"

section \<open>Correctness of the codec\<close>

lemma mk_event_fields_of [simp]: "mk_event (type_of e) (fields_of e) = e"
  by (cases e) simp_all

lemma type_of_mk_event [simp]: "type_of (mk_event ty vs) = ty"
  by (cases ty) simp_all

lemma length_fields_of [simp]: "length (fields_of e) = length (tags (type_of e))"
  by (cases e) simp_all

lemma Marshal_Inr_iff: "Marshal E e = Inr p \<longleftrightarrow> eventValidator_Struct E e \<and> p = Doc (encode e)"
  by (auto simp: Marshal_def)

lemma those_map_JStr [simp]: "those (map (decode_elem \<circ> JStr) xs) = Some xs"
  by (induction xs) simp_all

lemmas codec_simps =
  encode_def zero_struct_def field_index_def Unmarshal_def Marshal_def

text \<open>Decoding what was encoded gives the fields back; the only number has to fit Go's \<open>int\<close>.\<close>

lemma Decode_encode:
  assumes "in_int64 (SentCount e) \<or> type_of e \<noteq> TReleaseNotified"
  shows "Decode (type_of e) (Doc (encode e)) = Inr (fields_of e)"
  using assms by (cases e) (simp_all add: encode_def zero_struct_def field_index_def)



text \<open>
  Nothing invalid enters a service: an event that \<open>Unmarshal\<close> returns has the
  requested type, satisfies every validation rule of its struct, and is accepted by
  \<open>Marshal\<close>; so a consumer can forward the fields it received in events of its own.
\<close>

theorem Unmarshal_sound:
  assumes "Unmarshal E ty p = Inr e"
  shows "type_of e = ty \<and> eventValidator_Struct E e \<and> Marshal E e = Inr (Doc (encode e))"
  using assms by (auto simp: Unmarshal_def Marshal_def split: sum.splits if_splits)

theorem Unmarshal_sound_witness:
  "type_of (NotificationConfirmationSent ''u1'' ''a@b'') = TConfirmationSent \<and>
   eventValidator_Struct calm_env (NotificationConfirmationSent ''u1'' ''a@b'')"
  using Unmarshal_sound [of calm_env TConfirmationSent
      "Doc (JObj [(''email'', JStr ''a@b''), (''SAGAID'', JStr ''u1'')])"
      "NotificationConfirmationSent ''u1'' ''a@b''"]
  by (simp add: Unmarshal_def zero_struct_def field_index_def fold_char_def char_between_def
      eventValidator_Struct_def valid_fields_def calm_env_def)

end
