(* ===== verification/Publishing.thy ===== *)
theory Publishing
  imports Outbox Events
begin

text \<open>
  The method \<open>enqueue\<close> that the event publishers of the services share: an event is
  validated, encoded and written to the outbox, only ever inside a transaction; the
  decoding with which their consumers start; and the links of the e-mails.
\<close>

definition enqueue ::
  "env \<Rightarrow> ctx \<Rightarrow> string \<Rightarrow> event \<Rightarrow> ('a outbox_db_scheme world, error + unit) state" where
  "enqueue E c subject ev =
     (if \<not> ctx_tx c then err (Sentinel ErrNoTx)
      else bindE (wrap (''marshal '' @ subject) (liftE (Marshal E ev)))
             (\<lambda>data. Enqueue E subject data))"

text \<open>The methods of the publisher of the subscription service, and those of the notifier's.\<close>

definition pub_SubscriptionPending :: "env \<Rightarrow> ctx \<Rightarrow> event \<Rightarrow> ('a outbox_db_scheme world, error + unit) state" where
  "pub_SubscriptionPending E c ev = enqueue E c SubjectSubscriptionPending ev"

definition pub_SubscriptionConfirmed :: "env \<Rightarrow> ctx \<Rightarrow> event \<Rightarrow> ('a outbox_db_scheme world, error + unit) state" where
  "pub_SubscriptionConfirmed E c ev = enqueue E c SubjectSubscriptionConfirmed ev"

definition pub_SubscriptionRemoved :: "env \<Rightarrow> ctx \<Rightarrow> event \<Rightarrow> ('a outbox_db_scheme world, error + unit) state" where
  "pub_SubscriptionRemoved E c ev = enqueue E c SubjectSubscriptionRemoved ev"

definition pub_SubscriptionExpired :: "env \<Rightarrow> ctx \<Rightarrow> event \<Rightarrow> ('a outbox_db_scheme world, error + unit) state" where
  "pub_SubscriptionExpired E c ev = enqueue E c SubjectSubscriptionExpired ev"

definition pub_ConfirmationSent :: "env \<Rightarrow> ctx \<Rightarrow> event \<Rightarrow> ('a outbox_db_scheme world, error + unit) state" where
  "pub_ConfirmationSent E c ev = enqueue E c SubjectNotificationConfirmationSent ev"

definition pub_ConfirmationFailed :: "env \<Rightarrow> ctx \<Rightarrow> event \<Rightarrow> ('a outbox_db_scheme world, error + unit) state" where
  "pub_ConfirmationFailed E c ev = enqueue E c SubjectNotificationConfirmationFailed ev"

definition pub_ConfirmationDead :: "env \<Rightarrow> ctx \<Rightarrow> event \<Rightarrow> ('a outbox_db_scheme world, error + unit) state" where
  "pub_ConfirmationDead E c ev = enqueue E c SubjectNotificationConfirmationDead ev"

definition pub_ReleaseSent :: "env \<Rightarrow> ctx \<Rightarrow> event \<Rightarrow> ('a outbox_db_scheme world, error + unit) state" where
  "pub_ReleaseSent E c ev = enqueue E c SubjectNotificationReleaseSent ev"

definition pub_ReleaseFailed :: "env \<Rightarrow> ctx \<Rightarrow> event \<Rightarrow> ('a outbox_db_scheme world, error + unit) state" where
  "pub_ReleaseFailed E c ev = enqueue E c SubjectNotificationReleaseFailed ev"

definition pub_ReleaseDead :: "env \<Rightarrow> ctx \<Rightarrow> event \<Rightarrow> ('a outbox_db_scheme world, error + unit) state" where
  "pub_ReleaseDead E c ev = enqueue E c SubjectNotificationReleaseDead ev"

definition pub_ReleaseNotified :: "env \<Rightarrow> ctx \<Rightarrow> event \<Rightarrow> ('a outbox_db_scheme world, error + unit) state" where
  "pub_ReleaseNotified E c ev = enqueue E c SubjectReleaseNotified ev"

lemmas publisher_methods [simp] =
  pub_SubscriptionPending_def pub_SubscriptionConfirmed_def pub_SubscriptionRemoved_def pub_SubscriptionExpired_def
  pub_ConfirmationSent_def pub_ConfirmationFailed_def pub_ConfirmationDead_def pub_ReleaseSent_def
  pub_ReleaseFailed_def pub_ReleaseDead_def pub_ReleaseNotified_def

text \<open>
  How every consumer starts: an event that does not decode or validate is a poison message,
  \<open>broker.Terminal(err)\<close>.
\<close>

definition decode_event :: "env \<Rightarrow> event_type \<Rightarrow> payload \<Rightarrow> ('db world, error + event) state" where
  "decode_event E ty data =
     (case Unmarshal E ty data of Inl e \<Rightarrow> err (Terminal e) | Inr ev \<Rightarrow> ok ev)"

text \<open>The links of the e-mails, \<open>internal/infrastructure/urlbuilder\<close>.\<close>

definition URLBuilder_ConfirmURL :: "string \<Rightarrow> string \<Rightarrow> string" where
  "URLBuilder_ConfirmURL baseURL token = baseURL @ ''/api/confirm/'' @ token"

definition URLBuilder_UnsubscribeURL :: "string \<Rightarrow> string \<Rightarrow> string" where
  "URLBuilder_UnsubscribeURL baseURL token = baseURL @ ''/api/unsubscribe/'' @ token"

lemma tx_only_enqueue [tx_only_rules]: "tx_only (enqueue E c s ev)"
  unfolding enqueue_def by (intro tx_only_rules)

text \<open>The tables with one more message.\<close>

definition with_message :: "nat \<Rightarrow> string \<Rightarrow> event \<Rightarrow> 'a outbox_db_scheme \<Rightarrow> 'a outbox_db_scheme" where
  "with_message n s ev d =
     d\<lparr>outbox := outbox d @ [\<lparr>ob_id = n, ob_subject = s, ob_payload = Doc (encode ev)\<rparr>]\<rparr>"

lemma with_message_outbox [simp]:
  "outbox (with_message n s ev d) =
     outbox d @ [\<lparr>ob_id = n, ob_subject = s, ob_payload = Doc (encode ev)\<rparr>]"
  by (simp add: with_message_def)

lemma wp_enqueue:
  assumes "open_tx w = Some t"
    and "\<And>e n t'. ncalls w \<le> n \<Longrightarrow> Q (Inl e) (w\<lparr>ncalls := n, open_tx := Some t'\<rparr>)"
    and "ctx_tx c \<Longrightarrow> \<not> tx_aborted t \<Longrightarrow> eventValidator_Struct E ev \<Longrightarrow>
      Q (Inr ()) (w\<lparr>ncalls := Suc (ncalls w),
        open_tx := Some (t\<lparr>tx_work := with_message (ncalls w) s ev (tx_work t)\<rparr>)\<rparr>)"
  shows "wp (enqueue E c s ev) Q w"
proof -
  have same: "Q (Inl e) w" for e
    using assms(2) [of "ncalls w" e t] world_same_tx [OF assms(1), of "ncalls w"] by simp
  show ?thesis
  proof (cases "ctx_tx c \<and> eventValidator_Struct E ev")
    case True
    then show ?thesis
      unfolding enqueue_def Enqueue_def
      by (simp add: Marshal_def wp_simps)
        (rule wp_sql_tx [OF assms(1)],
          auto simp: insert_outbox_def with_message_def intro!: assms(2) assms(3) [unfolded with_message_def])
  next
    case False
    then show ?thesis by (auto simp: enqueue_def Marshal_def wp_simps same)
  qed
qed

lemma tx_step_enqueue [tx_step_rules]:
  "tx_step (enqueue E c s ev) (\<lambda>x d d'. \<exists>n. d' = with_message n s ev d)"
  unfolding tx_step_def by (intro allI impI, erule wp_enqueue) (auto simp: tx_frame_def)

lemma enqueue_unfold:
  "enqueue E c s ev =
     (if \<not> ctx_tx c then err (Sentinel ErrNoTx)
      else if eventValidator_Struct E ev then Enqueue E s (Doc (encode ev))
      else err (Errorf (''marshal '' @ s) (Errorf (''validate event '' @ type_name (type_of ev)) (External ''validation failed''))))"
  by (simp add: enqueue_def Marshal_def bindE_def wrap_def liftE_def)

text \<open>
  A database invariant that the emitted messages keep is kept by \<open>enqueue\<close>: \<open>emits\<close> says which events
  a service may put into its outbox, and under which subject. Every service instantiates it with the
  constraints of its tables.
\<close>

locale outbox_invariant = db_invariant P
  for P :: "nat \<Rightarrow> 'a outbox_db_scheme \<Rightarrow> bool" +
  fixes E :: env and emits :: "string \<Rightarrow> event \<Rightarrow> bool"
  assumes keeps_message:
    "eventValidator_Struct E ev \<Longrightarrow> emits s ev \<Longrightarrow> stmt_keeps P (insert_outbox s (Doc (encode ev)))"
begin

lemma preserves_enqueue [preserves_rules]: "emits s ev \<Longrightarrow> preserves (db_inv P) (enqueue E c s ev)"
  unfolding enqueue_unfold Enqueue_def by (auto intro!: preserves_rules keeps_message)

lemma preserves_Notify [preserves_rules]: "preserves (db_inv P) Notify"
  by (rule preservesI) (simp add: Notify_def wp_simps db_inv_def)

end

interpretation outbox_ids: outbox_invariant outbox_wf E "\<lambda>_ _. True" for E
  by unfold_locales (rule keeps_insert_outbox)

lemma preserves_decode_event [preserves_rules]: "preserves I (decode_event E ty p)"
  unfolding decode_event_def by (intro preserves_rules)

lemma wp_decode_event [wp_simps]:
  "wp (decode_event E ty p) Q =
     Q (case Unmarshal E ty p of Inl e \<Rightarrow> Inl (Terminal e) | Inr ev \<Rightarrow> Inr ev)"
  by (simp add: decode_event_def wp_simps split: sum.splits)

lemma wp_Notify [wp_simps]: "wp Notify Q = (\<lambda>w. Q () (w\<lparr>nudge := True\<rparr>))"
  by (rule ext) (simp add: Notify_def wp_simps)

end
