(* ===== verification/Saga.thy ===== *)
theory Saga
  imports Publishing
begin

text \<open>
  The saga orchestrator (\<open>internal/saga\<close>): the state machine of a subscribe saga, the table
  \<open>sagas\<close> and its repository, the coordinator with its two compensation transports, and the
  handlers of the consumed subjects.
\<close>

section \<open>Domain\<close>

datatype State =
  StatePending | StateConfirmationSent | StateCompleted | StateCompensated | StateExpired

primrec State_text :: "State \<Rightarrow> string" where
  "State_text StatePending = ''pending''"
| "State_text StateConfirmationSent = ''confirmation_sent''"
| "State_text StateCompleted = ''completed''"
| "State_text StateCompensated = ''compensated''"
| "State_text StateExpired = ''expired''"

definition SagaTypeSubscribe :: string where
  "SagaTypeSubscribe = ''subscribe''"

record saga_row =
  sg_id :: uuid
  sg_type :: string
  sg_state :: State
  sg_email :: string
  sg_repo :: string
  sg_created :: time
  sg_updated :: time

text \<open>The Go map of transitions, as its association list.\<close>

definition allowedTransitions :: "(State \<times> State list) list" where
  "allowedTransitions =
     [(StatePending, [StateConfirmationSent, StateCompleted, StateCompensated, StateExpired]),
      (StateConfirmationSent, [StateCompleted, StateCompensated, StateExpired])]"

text \<open>\<open>SourceStates\<close>; Go visits the map in any order, and the callers only test membership.\<close>

definition SourceStates :: "State \<Rightarrow> State list" where
  "SourceStates to =
     concat (map (\<lambda>(from, targets). concat (map (\<lambda>t. if t = to then [from] else []) targets))
       allowedTransitions)"

definition sourceStrings :: "State \<Rightarrow> string list" where
  "sourceStrings to = map State_text (SourceStates to)"

section \<open>Repository\<close>

record saga_db = outbox_db +
  sagas :: "saga_row list"

definition saga_key :: "saga_row \<Rightarrow> string \<times> string \<times> string" where
  "saga_key s = (sg_type s, sg_email s, sg_repo s)"

text \<open>
  \<open>INSERT ... ON CONFLICT (type, email, repo_name) DO UPDATE\<close>: a row with that key takes the new
  id and state; the primary key on \<open>id\<close> still rejects an id another row has.
\<close>

definition start_saga :: "uuid \<Rightarrow> string \<Rightarrow> string \<Rightarrow> string \<Rightarrow> ('a saga_db_scheme, unit) stmt" where
  "start_saga sid ty email repo i d =
     (let same = (\<lambda>s. saga_key s = (ty, email, repo)) in
      if \<exists>s \<in> set (sagas d). sg_id s = sid \<and> \<not> same s
      then Inl ''duplicate key value violates unique constraint sagas_pkey''
      else if \<exists>s \<in> set (sagas d). same s
      then Inr ((), d\<lparr>sagas := map (\<lambda>s. if same s
             then s\<lparr>sg_id := sid, sg_state := StatePending, sg_updated := st_now i\<rparr> else s) (sagas d)\<rparr>)
      else Inr ((), d\<lparr>sagas := sagas d @
             [\<lparr>sg_id = sid, sg_type = ty, sg_state = StatePending, sg_email = email, sg_repo = repo,
               sg_created = st_now i, sg_updated = st_now i\<rparr>]\<rparr>))"

definition Start :: "env \<Rightarrow> ctx \<Rightarrow> uuid \<Rightarrow> string \<Rightarrow> string \<Rightarrow> string \<Rightarrow>
    ('a saga_db_scheme world, error + unit) state" where
  "Start E c sid ty email repo =
     wrap ''start saga'' (sql E (FromContext c) (start_saga sid ty email repo))"

text \<open>The \<open>UPDATE\<close> of both transitions; the result is the number of affected rows.\<close>

definition move :: "State \<Rightarrow> (saga_row \<Rightarrow> bool) \<Rightarrow> time \<Rightarrow> saga_row \<Rightarrow> saga_row" where
  "move to p now s =
     (if p s \<and> State_text (sg_state s) \<in> set (sourceStrings to)
      then s\<lparr>sg_state := to, sg_updated := now\<rparr> else s)"

definition transition :: "State \<Rightarrow> (saga_row \<Rightarrow> bool) \<Rightarrow> ('a saga_db_scheme, nat) stmt" where
  "transition to p i d =
     Inr (length (filter (\<lambda>s. p s \<and> State_text (sg_state s) \<in> set (sourceStrings to)) (sagas d)),
          d\<lparr>sagas := map (move to p (st_now i)) (sagas d)\<rparr>)"

definition TransitionByID :: "env \<Rightarrow> ctx \<Rightarrow> uuid \<Rightarrow> State \<Rightarrow>
    ('a saga_db_scheme world, error + bool) state" where
  "TransitionByID E c sid to =
     bindE (wrap (''transition saga '' @ uuid_String E sid @ '' -> '' @ State_text to)
              (sql E (FromContext c) (transition to (\<lambda>s. sg_id s = sid))))
       (\<lambda>n. ok (n > 0))"

definition TransitionByEmailRepo :: "env \<Rightarrow> ctx \<Rightarrow> string \<Rightarrow> string \<Rightarrow> string \<Rightarrow> State \<Rightarrow>
    ('a saga_db_scheme world, error + bool) state" where
  "TransitionByEmailRepo E c ty email repo to =
     bindE (wrap (''transition saga ('' @ email @ '', '' @ repo @ '') -> '' @ State_text to)
              (sql E (FromContext c) (transition to (\<lambda>s. saga_key s = (ty, email, repo)))))
       (\<lambda>n. ok (n > 0))"

definition select_saga :: "uuid \<Rightarrow> ('a saga_db_scheme, saga_row list) stmt" where
  "select_saga sid i d = Inr (filter (\<lambda>s. sg_id s = sid) (sagas d), d)"

definition Get :: "env \<Rightarrow> ctx \<Rightarrow> uuid \<Rightarrow> ('a saga_db_scheme world, error + saga_row option) state" where
  "Get E c sid = do {
     r \<leftarrow> QueryRow E (FromContext c) (select_saga sid);
     case r of
       Inr s \<Rightarrow> ok (Some s)
     | Inl e \<Rightarrow>
         if errors_Is e ErrNoRows then ok None
         else err (Errorf (''get saga '' @ uuid_String E sid) e)
   }"

section \<open>Publisher and compensation client\<close>

definition Compensate_event ::
  "env \<Rightarrow> ctx \<Rightarrow> event \<Rightarrow> ('a outbox_db_scheme world, error + unit) state" where
  "Compensate_event E c ev =
     (if \<not> ctx_tx c then err (Sentinel ErrNoTx)
      else bindE (wrap (''marshal '' @ SubjectSagaCompensate) (liftE (Marshal E ev)))
             (\<lambda>data. Enqueue E SubjectSagaCompensate data))"

text \<open>\<open>Client.Compensate\<close>; its boolean result is dropped by the only caller.\<close>

definition Compensate_rpc ::
  "env \<Rightarrow> string \<Rightarrow> string \<Rightarrow> string \<Rightarrow> string \<Rightarrow> ('db world, error + unit) state" where
  "Compensate_rpc E sagaID sagaType email repo = State (\<lambda>w.
     let n = ncalls w;
         w1 = w\<lparr>ncalls := Suc n\<rparr>;
         called = w1\<lparr>trace := trace w @ [CompensateRPC sagaID sagaType email repo]\<rparr>
     in case env_fault E n of
          NoFault \<Rightarrow> (Inr (), called)
        | Fails m \<Rightarrow> (Inl (Errorf ''compensate rpc'' (External m)), w1)
        | Lost m \<Rightarrow> (Inl (Errorf ''compensate rpc'' (External m)), called))"

section \<open>Compensators\<close>

definition compensate_event_of :: "env \<Rightarrow> saga_row \<Rightarrow> event" where
  "compensate_event_of E s =
     SagaCompensate (uuid_String E (sg_id s)) (sg_type s) (sg_email s) (sg_repo s)"

definition NATSCompensate :: "env \<Rightarrow> ctx \<Rightarrow> saga_row \<Rightarrow> ('a saga_db_scheme world, error + unit) state" where
  "NATSCompensate E c s =
     bindE (Within E c (\<lambda>txCtx.
              bindE (TransitionByID E txCtx (sg_id s) StateCompensated)
                (\<lambda>_. Compensate_event E txCtx (compensate_event_of E s))))
       (\<lambda>_. do { _ \<leftarrow> Notify; ok () })"

definition GRPCCompensate :: "env \<Rightarrow> ctx \<Rightarrow> saga_row \<Rightarrow> ('a saga_db_scheme world, error + unit) state" where
  "GRPCCompensate E c s =
     bindE (TransitionByID E c (sg_id s) StateCompensated)
       (\<lambda>_. bindE (Compensate_rpc E (uuid_String E (sg_id s)) (sg_type s) (sg_email s) (sg_repo s))
         (\<lambda>_. ok ()))"

text \<open>\<open>newCoordinator\<close>: the configured transport chooses the compensator.\<close>

definition transportGRPC :: string where
  "transportGRPC = ''grpc''"

definition compensator :: "string \<Rightarrow> env \<Rightarrow> ctx \<Rightarrow> saga_row \<Rightarrow> ('a saga_db_scheme world, error + unit) state" where
  "compensator CompensateTransport =
     (if CompensateTransport = transportGRPC then GRPCCompensate else NATSCompensate)"

section \<open>Coordinator\<close>

definition parse_saga_id :: "env \<Rightarrow> string \<Rightarrow> ('db world, error + uuid) state" where
  "parse_saga_id E sagaID = wrap ''parse saga id'' (liftE (uuid_Parse E sagaID))"

definition OnPending :: "env \<Rightarrow> ctx \<Rightarrow> string \<Rightarrow> string \<Rightarrow> string \<Rightarrow>
    ('a saga_db_scheme world, error + unit) state" where
  "OnPending E c sagaID email repo =
     bindE (parse_saga_id E sagaID) (\<lambda>sid. Start E c sid SagaTypeSubscribe email repo)"

definition OnConfirmationSent :: "env \<Rightarrow> ctx \<Rightarrow> string \<Rightarrow> ('a saga_db_scheme world, error + unit) state" where
  "OnConfirmationSent E c sagaID =
     bindE (parse_saga_id E sagaID)
       (\<lambda>sid. bindE (TransitionByID E c sid StateConfirmationSent) (\<lambda>_. ok ()))"

definition OnConfirmed :: "env \<Rightarrow> ctx \<Rightarrow> string \<Rightarrow> string \<Rightarrow> ('a saga_db_scheme world, error + unit) state" where
  "OnConfirmed E c email repo =
     bindE (TransitionByEmailRepo E c SagaTypeSubscribe email repo StateCompleted) (\<lambda>_. ok ())"

definition OnExpired :: "env \<Rightarrow> ctx \<Rightarrow> string \<Rightarrow> string \<Rightarrow> ('a saga_db_scheme world, error + unit) state" where
  "OnExpired E c email repo =
     bindE (TransitionByEmailRepo E c SagaTypeSubscribe email repo StateExpired) (\<lambda>_. ok ())"

definition OnConfirmationDead :: "string \<Rightarrow> env \<Rightarrow> ctx \<Rightarrow> string \<Rightarrow>
    ('a saga_db_scheme world, error + unit) state" where
  "OnConfirmationDead T E c sagaID =
     bindE (parse_saga_id E sagaID) (\<lambda>sid.
     bindE (Get E c sid) (\<lambda>found.
       case found of
         None \<Rightarrow> ok ()
       | Some saga \<Rightarrow>
           if sg_state saga \<in> {StateCompleted, StateExpired, StateCompensated} then ok ()
           else bindE (compensator T E c saga) (\<lambda>_. ok ())))"

section \<open>Consumer\<close>

definition HandlePending :: "env \<Rightarrow> ctx \<Rightarrow> 'a saga_db_scheme handler" where
  "HandlePending E c data = bindE (decode_event E TSubscriptionPending data) (\<lambda>ev.
     OnPending E (WithSagaID c (SagaID ev)) (SagaID ev) (Email ev) (RepoName ev))"

definition HandleConfirmationSent :: "env \<Rightarrow> ctx \<Rightarrow> 'a saga_db_scheme handler" where
  "HandleConfirmationSent E c data = bindE (decode_event E TConfirmationSent data) (\<lambda>ev.
     OnConfirmationSent E (WithSagaID c (SagaID ev)) (SagaID ev))"

definition HandleConfirmationDead :: "string \<Rightarrow> env \<Rightarrow> ctx \<Rightarrow> 'a saga_db_scheme handler" where
  "HandleConfirmationDead T E c data = bindE (decode_event E TConfirmationDead data) (\<lambda>ev.
     OnConfirmationDead T E (WithSagaID c (SagaID ev)) (SagaID ev))"

definition HandleConfirmed :: "env \<Rightarrow> ctx \<Rightarrow> 'a saga_db_scheme handler" where
  "HandleConfirmed E c data = bindE (decode_event E TSubscriptionConfirmed data) (\<lambda>ev.
     OnConfirmed E (WithSagaID c (SagaID ev)) (Email ev) (RepoName ev))"

definition HandleExpired :: "env \<Rightarrow> ctx \<Rightarrow> 'a saga_db_scheme handler" where
  "HandleExpired E c data = bindE (decode_event E TSubscriptionExpired data) (\<lambda>ev.
     OnExpired E (WithSagaID c (SagaID ev)) (Email ev) (RepoName ev))"

text \<open>\<open>startConsumers\<close>: the handler of every subject the orchestrator consumes.\<close>

definition saga_consumers :: "string \<Rightarrow> env \<Rightarrow> ctx \<Rightarrow> (string \<times> string \<times> 'a saga_db_scheme handler) list" where
  "saga_consumers T E c =
     [(StreamSubscriptions, SubjectSubscriptionPending, HandlePending E c),
      (StreamSubscriptions, SubjectSubscriptionConfirmed, HandleConfirmed E c),
      (StreamSubscriptions, SubjectSubscriptionExpired, HandleExpired E c),
      (StreamNotifications, SubjectNotificationConfirmationSent, HandleConfirmationSent E c),
      (StreamNotifications, SubjectNotificationConfirmationDead, HandleConfirmationDead T E c)]"

section \<open>The state machine\<close>

lemma SourceStates_simps [simp]:
  "SourceStates StatePending = []"
  "SourceStates StateConfirmationSent = [StatePending]"
  "SourceStates StateCompleted = [StatePending, StateConfirmationSent]"
  "SourceStates StateCompensated = [StatePending, StateConfirmationSent]"
  "SourceStates StateExpired = [StatePending, StateConfirmationSent]"
  by (simp_all add: SourceStates_def allowedTransitions_def)

lemma State_text_inj [simp]: "State_text a = State_text b \<longleftrightarrow> a = b"
  by (cases a; cases b) simp_all

lemma in_sourceStrings [simp]: "State_text a \<in> set (sourceStrings b) \<longleftrightarrow> a \<in> set (SourceStates b)"
  by (auto simp: sourceStrings_def)

lemma move_simps [simp]:
  "sg_id (move to p now s) = sg_id s" "sg_type (move to p now s) = sg_type s"
  "sg_email (move to p now s) = sg_email s" "sg_repo (move to p now s) = sg_repo s"
  "saga_key (move to p now s) = saga_key s" "sg_created (move to p now s) = sg_created s"
  by (simp_all add: move_def saga_key_def)

lemma Compensate_event_enqueue: "Compensate_event E c ev = enqueue E c SubjectSagaCompensate ev"
  by (simp add: Compensate_event_def enqueue_def)

text \<open>A saga only moves along the transitions of the domain.\<close>

definition allowed :: "State \<Rightarrow> State \<Rightarrow> bool" where
  "allowed a b \<longleftrightarrow> a \<in> set (SourceStates b)"

lemma allowed_trans: "allowed a b \<Longrightarrow> allowed b c \<Longrightarrow> allowed a c"
  by (cases b; cases c) (auto simp: allowed_def)

lemma allowed_terminal: "allowed a b \<Longrightarrow> a \<notin> {StateCompleted, StateExpired, StateCompensated}"
  by (cases b) (auto simp: allowed_def)

section \<open>Invariants of the saga database\<close>

text \<open>
  What a property of the tables has to satisfy to be kept by the handlers: the transitions
  keep it, and for \<open>HandlePending\<close> also the upsert of \<open>Start\<close>.
\<close>

locale saga_moves = outbox_invariant P E emits
  for P :: "nat \<Rightarrow> 'a saga_db_scheme \<Rightarrow> bool" and E emits +
  assumes keeps_transition: "stmt_keeps P (transition to p)"
    and emits_compensate [preserves_rules]: "emits SubjectSagaCompensate (SagaCompensate sid ty email repo)"
begin

lemma preserves_transitions [preserves_rules]:
  "preserves (db_inv P) (TransitionByID E c sid to)"
  "preserves (db_inv P) (TransitionByEmailRepo E c ty email repo to)"
  unfolding TransitionByID_def TransitionByEmailRepo_def
  by (intro preserves_rules keeps_transition)+

lemma preserves_Get [preserves_rules]: "preserves (db_inv P) (Get E c sid)"
  unfolding Get_def by (intro preserves_rules keeps_readonly) (simp add: select_saga_def)

lemma preserves_Compensate_rpc [preserves_rules]: "preserves (db_inv P) (Compensate_rpc E a b e r)"
  by (rule preservesI)
    (auto simp: Compensate_rpc_def wp_simps Let_def db_inv_def P_later split: fault.splits)

lemma preserves_compensator [preserves_rules]: "preserves (db_inv P) (compensator T E c s)"
  unfolding compensator_def NATSCompensate_def GRPCCompensate_def Compensate_event_enqueue compensate_event_of_def
  by (auto intro!: preserves_rules)

lemma preserves_parse [preserves_rules]: "preserves (db_inv P) (parse_saga_id E s)"
  unfolding parse_saga_id_def by (intro preserves_rules)

lemma preserves_moves [preserves_rules]:
  "preserves (db_inv P) (HandleConfirmationSent E c data)"
  "preserves (db_inv P) (HandleConfirmationDead T E c data)"
  "preserves (db_inv P) (HandleConfirmed E c data)"
  "preserves (db_inv P) (HandleExpired E c data)"
  unfolding HandleConfirmationSent_def HandleConfirmationDead_def HandleConfirmed_def HandleExpired_def
    OnConfirmationSent_def OnConfirmationDead_def OnConfirmed_def OnExpired_def
  by (intro preserves_rules)+

end

locale saga_tables = saga_moves +
  assumes keeps_start: "stmt_keeps P (start_saga sid ty email repo)"
begin

lemma preserves_consumers:
  "(stream, subject, handler) \<in> set (saga_consumers T E c) \<Longrightarrow> preserves (db_inv P) (handler data)"
  unfolding saga_consumers_def HandlePending_def OnPending_def Start_def
  by (auto intro!: preserves_rules keeps_start simp: HandlePending_def OnPending_def Start_def)

end

text \<open>The constraints of the schema: \<open>PRIMARY KEY (id)\<close>, \<open>UNIQUE (type, email, repo_name)\<close>.\<close>

definition saga_wf :: "nat \<Rightarrow> 'a saga_db_scheme \<Rightarrow> bool" where
  "saga_wf n d \<longleftrightarrow> outbox_wf n d \<and> distinct (map sg_id (sagas d)) \<and> distinct (map saga_key (sagas d))"

lemma map_move [simp]:
  "map (sg_id \<circ> move to p now) ss = map sg_id ss" "map (saga_key \<circ> move to p now) ss = map saga_key ss"
  by simp_all

text \<open>Replacing the ids of the one row with a given key by an id no other row has.\<close>

lemma distinct_reid:
  assumes "distinct (map saga_key ss)" and "distinct (map sg_id ss)"
    and "\<forall>s \<in> set ss. sg_id s = sid \<longrightarrow> saga_key s = k"
  shows "distinct (map (\<lambda>s. if saga_key s = k then sid else sg_id s) ss)"
  using assms by (induction ss) (auto simp: image_iff split: if_splits)

lemma keeps_start_wf: "stmt_keeps saga_wf (start_saga sid ty email repo)"
  unfolding stmt_keeps_def
proof (intro allI impI)
  fix i and d d' :: "'a saga_db_scheme" and r
  assume wf: "saga_wf (st_id i) d" and start: "start_saga sid ty email repo i d = Inr (r, d')"
  let ?k = "(ty, email, repo)"
  let ?reset = "\<lambda>s. if saga_key s = ?k
    then s\<lparr>sg_id := sid, sg_state := StatePending, sg_updated := st_now i\<rparr> else s"
  from start have other: "\<forall>s \<in> set (sagas d). sg_id s = sid \<longrightarrow> saga_key s = ?k"
    by (auto simp: start_saga_def Let_def split: if_splits)
  have reset: "map sg_id (map ?reset ss) = map (\<lambda>s. if saga_key s = ?k then sid else sg_id s) ss"
    "map saga_key (map ?reset ss) = map saga_key ss" for ss
    by (auto simp: saga_key_def)
  from start consider
      "sagas d' = map ?reset (sagas d)" "outbox d' = outbox d"
    | s where "sagas d' = sagas d @ [s]" "sg_id s = sid" "saga_key s = ?k" "outbox d' = outbox d"
        "\<forall>s \<in> set (sagas d). saga_key s \<noteq> ?k"
    by (fastforce simp: start_saga_def Let_def saga_key_def split: if_splits)
  then show "saga_wf (Suc (st_id i)) d'"
  proof cases
    case 1
    with wf other distinct_reid [of "sagas d" sid ?k] show ?thesis
      by (simp only: saga_wf_def reset) (auto intro: outbox_wf_other)
  next
    case 2
    with wf other show ?thesis
      by (auto simp: saga_wf_def intro: outbox_wf_other)
  qed
qed

interpretation saga_wf: saga_tables saga_wf E "\<lambda>_ _. True" for E
proof
  show "stmt_keeps saga_wf (start_saga sid ty email repo)" for sid ty email repo
    by (rule keeps_start_wf)
qed (auto simp: saga_wf_def stmt_keeps_def transition_def insert_outbox_def outbox_wf_def)

text \<open>The progress of the sagas from the tables \<open>d0\<close> on.\<close>

definition row_step :: "saga_row \<Rightarrow> saga_row \<Rightarrow> bool" where
  "row_step s s' \<longleftrightarrow> sg_id s' = sg_id s \<and> saga_key s' = saga_key s \<and> sg_created s' = sg_created s \<and>
     (s' = s \<or> allowed (sg_state s) (sg_state s'))"

definition saga_progress :: "'a saga_db_scheme \<Rightarrow> 'a saga_db_scheme \<Rightarrow> bool" where
  "saga_progress d d' \<longleftrightarrow> list_all2 row_step (sagas d) (sagas d')"

lemma row_step_move: "row_step s s' \<Longrightarrow> row_step s (move to p now s')"
  by (auto simp: row_step_def move_def saga_key_def allowed_def [symmetric] intro: allowed_trans)

interpretation saga_progress: saga_moves "\<lambda>_. saga_progress d0" E "\<lambda>_ _. True" for d0 E
  by unfold_locales
    (auto simp: stmt_keeps_def saga_progress_def transition_def insert_outbox_def list_all2_map2
      elim!: list_all2_mono intro: row_step_move)

lemma saga_progress_refl: "saga_progress d d"
  by (simp add: saga_progress_def row_step_def list_all2_refl)

lemma saga_progress_terminal:
  assumes "saga_progress d d'" and "s \<in> set (sagas d)"
    and "sg_state s \<in> {StateCompleted, StateExpired, StateCompensated}"
  shows "s \<in> set (sagas d')"
proof -
  from assms(2) obtain k where k: "k < length (sagas d)" "s = sagas d ! k"
    by (auto simp: in_set_conv_nth)
  with assms(1) have "row_step s (sagas d' ! k)" "k < length (sagas d')"
    by (auto simp: saga_progress_def list_all2_conv_all_nth)
  with assms(3) allowed_terminal [of "sg_state s"] show ?thesis
    by (auto simp: row_step_def)
qed

lemma start_saga_result:
  assumes start: "start_saga sid ty email repo i d = Inr (r, d')" and wf: "distinct (map saga_key (sagas d))"
  shows "(\<exists>s. filter (\<lambda>s. saga_key s = (ty, email, repo)) (sagas d') = [s] \<and> sg_id s = sid \<and>
      sg_state s = StatePending) \<and>
    filter (\<lambda>s. saga_key s \<noteq> (ty, email, repo)) (sagas d') = filter (\<lambda>s. saga_key s \<noteq> (ty, email, repo)) (sagas d) \<and>
    outbox d' = outbox d"
proof (cases "\<exists>s \<in> set (sagas d). saga_key s = (ty, email, repo)")
  case True
  let ?k = "(ty, email, repo)"
  let ?reset = "\<lambda>s. if saga_key s = ?k
    then s\<lparr>sg_id := sid, sg_state := StatePending, sg_updated := st_now i\<rparr> else s"
  from True start have d': "d' = d\<lparr>sagas := map ?reset (sagas d)\<rparr>"
    by (auto simp: start_saga_def Let_def split: if_splits)
  from True filter_key_single [OF wf] obtain s where s: "filter (\<lambda>s. saga_key s = ?k) (sagas d) = [s]"
    by metis
  have key: "saga_key (?reset s) = saga_key s" for s by (simp add: saga_key_def)
  have "filter (\<lambda>s. saga_key s = ?k) (map ?reset (sagas d)) = map ?reset [s]"
    by (simp only: filter_map comp_def key s)
  moreover have "filter (\<lambda>s. saga_key s \<noteq> ?k) (map ?reset xs) = filter (\<lambda>s. saga_key s \<noteq> ?k) xs" for xs
    by (induction xs) (simp_all add: saga_key_def)
  moreover from s have "saga_key s = ?k" by (auto dest: filter_eq_ConsD)
  ultimately show ?thesis by (simp add: d')
next
  case False
  with start have "sagas d' = sagas d @ [\<lparr>sg_id = sid, sg_type = ty, sg_state = StatePending, sg_email = email,
      sg_repo = repo, sg_created = st_now i, sg_updated = st_now i\<rparr>]" "outbox d' = outbox d"
    by (auto simp: start_saga_def Let_def split: if_splits)
  with False show ?thesis by (auto simp: saga_key_def filter_empty_conv)
qed

section \<open>Exactly-once transitions\<close>

lemma wp_TransitionByEmailRepo:
  assumes "\<not> ctx_tx c"
    and "\<And>e. Q (Inl e) (w\<lparr>ncalls := Suc (ncalls w)\<rparr>)"
    and "\<And>r now. Q r (w\<lparr>ncalls := Suc (ncalls w), committed := (committed w)
      \<lparr>sagas := map (move to (\<lambda>s. saga_key s = (ty, email, repo)) now) (sagas (committed w))\<rparr>\<rparr>)"
  shows "wp (TransitionByEmailRepo E c ty email repo to) Q w"
  unfolding TransitionByEmailRepo_def FromContext_pool [OF assms(1)] wp_simps
  by (rule wp_sql_pool) (auto simp: transition_def wp_simps assms(2,3))

lemma wp_TransitionByID:
  assumes "\<not> ctx_tx c"
    and "\<And>e. Q (Inl e) (w\<lparr>ncalls := Suc (ncalls w)\<rparr>)"
    and "\<And>r now. Q r (w\<lparr>ncalls := Suc (ncalls w), committed := (committed w)
      \<lparr>sagas := map (move to (\<lambda>s. sg_id s = sid) now) (sagas (committed w))\<rparr>\<rparr>)"
  shows "wp (TransitionByID E c sid to) Q w"
  unfolding TransitionByID_def FromContext_pool [OF assms(1)] wp_simps
  by (rule wp_sql_pool) (auto simp: transition_def wp_simps assms(2,3))

text \<open>No saga selected by \<open>p\<close> can still move to \<open>to\<close>.\<close>

definition no_source :: "State \<Rightarrow> (saga_row \<Rightarrow> bool) \<Rightarrow> 'a saga_db_scheme \<Rightarrow> bool" where
  "no_source to p d \<longleftrightarrow> (\<forall>s \<in> set (sagas d). p s \<longrightarrow> \<not> allowed (sg_state s) to)"

definition moved :: "State \<Rightarrow> (saga_row \<Rightarrow> bool) \<Rightarrow> 'a saga_db_scheme \<Rightarrow> 'a saga_db_scheme \<Rightarrow> bool" where
  "moved to p d d' \<longleftrightarrow> (\<exists>now. d' = d\<lparr>sagas := map (move to p now) (sagas d)\<rparr>)"

lemma not_allowed_self [simp]: "\<not> allowed s s"
  by (cases s) (simp_all add: allowed_def)

lemma moved_settles:
  assumes "\<And>s now. p (move to p now s) = p s" and "moved to p d d'"
  shows "no_source to p d'"
  using assms by (auto simp: moved_def no_source_def move_def allowed_def [symmetric])

lemma no_source_noop: "no_source to p d \<Longrightarrow> d\<lparr>sagas := map (move to p now) (sagas d)\<rparr> = d"
proof -
  assume "no_source to p d"
  then have "map (move to p now) (sagas d) = sagas d"
    by (intro map_idI) (auto simp: no_source_def move_def allowed_def)
  then show ?thesis by simp
qed

text \<open>
  The handlers of \<open>subscriptions.confirmed\<close>, \<open>subscriptions.expired\<close> and
  \<open>notifications.confirmation.sent\<close> satisfy the contract of exactly-once handlers.
\<close>

definition by_key :: "event \<Rightarrow> saga_row \<Rightarrow> bool" where
  "by_key ev s \<longleftrightarrow> saga_key s = (SagaTypeSubscribe, Email ev, RepoName ev)"

lemma by_key_move [simp]: "by_key ev (move to p now s) = by_key ev s"
  by (simp add: by_key_def)

text \<open>
  A message whose handling is one transition. \<open>U\<close> decodes it to the selected rows, or to
  nothing when the handler rejects it.
\<close>

definition applies :: "State \<Rightarrow> (payload \<Rightarrow> (saga_row \<Rightarrow> bool) option) \<Rightarrow> payload \<Rightarrow>
    'a saga_db_scheme \<Rightarrow> 'a saga_db_scheme \<Rightarrow> bool" where
  "applies to U p d d' \<longleftrightarrow> (\<exists>sel. U p = Some sel \<and> moved to sel d d')"

definition settles :: "State \<Rightarrow> (payload \<Rightarrow> (saga_row \<Rightarrow> bool) option) \<Rightarrow> payload \<Rightarrow>
    'a saga_db_scheme \<Rightarrow> bool" where
  "settles to U p d \<longleftrightarrow> (\<exists>sel. U p = Some sel \<and> no_source to sel d)"

lemma once_post_move:
  fixes w :: "'a saga_db_scheme world"
  assumes "U p = Some sel" and sel: "\<And>s now. sel (move to sel now s) = sel s" and "open_tx w = None"
  shows "once_post (applies to U) (settles to U) p w r
    (w\<lparr>ncalls := n, committed := (committed w)\<lparr>sagas := map (move to sel now) (sagas (committed w))\<rparr>\<rparr>)"
    (is "once_post _ _ _ _ _ ?w'")
proof -
  have m: "moved to sel (committed w) (committed ?w')" by (auto simp: moved_def)
  from moved_settles [OF sel this] have "no_source to sel (committed ?w')" .
  moreover have "no_source to sel (committed w) \<Longrightarrow> committed ?w' = committed w"
    using no_source_noop [of to sel "committed w" now] by simp
  ultimately show ?thesis using assms(1,3) m by (auto simp: once_post_def settles_def applies_def)
qed

definition rows_by_key :: "env \<Rightarrow> event_type \<Rightarrow> payload \<Rightarrow> (saga_row \<Rightarrow> bool) option" where
  "rows_by_key E ty p = (case Unmarshal E ty p of Inl e \<Rightarrow> None | Inr ev \<Rightarrow> Some (by_key ev))"

definition rows_by_id :: "env \<Rightarrow> event_type \<Rightarrow> payload \<Rightarrow> (saga_row \<Rightarrow> bool) option" where
  "rows_by_id E ty p = (case Unmarshal E ty p of Inl e \<Rightarrow> None
     | Inr ev \<Rightarrow> (case uuid_Parse E (SagaID ev) of Inl e \<Rightarrow> None | Inr sid \<Rightarrow> Some (\<lambda>s. sg_id s = sid)))"

lemma by_key_eq: "by_key ev = (\<lambda>s. saga_key s = (SagaTypeSubscribe, Email ev, RepoName ev))"
  by (simp add: by_key_def fun_eq_iff)

lemma HandleConfirmed_once:
  assumes w: "open_tx w = None"
  shows "wp (HandleConfirmed E Background p) (once_post
    (applies StateCompleted (rows_by_key E TSubscriptionConfirmed))
    (settles StateCompleted (rows_by_key E TSubscriptionConfirmed)) p w) w"
proof (cases "Unmarshal E TSubscriptionConfirmed p")
  case (Inr ev)
  then show ?thesis
    unfolding HandleConfirmed_def OnConfirmed_def wp_simps
    by (auto simp: wp_simps w rows_by_key_def once_post_error by_key_eq [symmetric]
        intro!: wp_TransitionByEmailRepo once_post_move split: sum.splits)
qed (simp add: HandleConfirmed_def wp_simps once_post_error w)

lemma HandleExpired_once:
  assumes w: "open_tx w = None"
  shows "wp (HandleExpired E Background p) (once_post
    (applies StateExpired (rows_by_key E TSubscriptionExpired))
    (settles StateExpired (rows_by_key E TSubscriptionExpired)) p w) w"
proof (cases "Unmarshal E TSubscriptionExpired p")
  case (Inr ev)
  then show ?thesis
    unfolding HandleExpired_def OnExpired_def wp_simps
    by (auto simp: wp_simps w rows_by_key_def once_post_error by_key_eq [symmetric]
        intro!: wp_TransitionByEmailRepo once_post_move split: sum.splits)
qed (simp add: HandleExpired_def wp_simps once_post_error w)

lemma HandleConfirmationSent_once:
  assumes w: "open_tx w = None"
  shows "wp (HandleConfirmationSent E Background p) (once_post
    (applies StateConfirmationSent (rows_by_id E TConfirmationSent))
    (settles StateConfirmationSent (rows_by_id E TConfirmationSent)) p w) w"
proof (cases "Unmarshal E TConfirmationSent p")
  case (Inr ev)
  then show ?thesis
    unfolding HandleConfirmationSent_def OnConfirmationSent_def parse_saga_id_def wp_simps
    by (auto simp: wp_simps w rows_by_id_def once_post_error
        intro!: wp_TransitionByID once_post_move split: sum.splits)
qed (simp add: HandleConfirmationSent_def wp_simps once_post_error w)

lemma applies_settles:
  assumes "\<And>sel s now. U p = Some sel \<Longrightarrow> sel (move to sel now s) = sel s"
  shows "applies to U p d d' \<Longrightarrow> settles to U p d'"
  by (auto simp: applies_def settles_def intro: moved_settles [OF assms])

lemma rows_by_move:
  "rows_by_key E ty p = Some sel \<Longrightarrow> sel (move to q now s) = sel s"
  "rows_by_id E ty p = Some sel \<Longrightarrow> sel (move to q now s) = sel s"
  by (auto simp: rows_by_key_def rows_by_id_def split: sum.splits)

interpretation confirmed: exactly_once_handler E "HandleConfirmed E Background"
  "applies StateCompleted (rows_by_key E TSubscriptionConfirmed)"
  "settles StateCompleted (rows_by_key E TSubscriptionConfirmed)" for E
  by unfold_locales (auto intro: HandleConfirmed_once elim!: applies_settles [rotated] dest: rows_by_move)

interpretation expired: exactly_once_handler E "HandleExpired E Background"
  "applies StateExpired (rows_by_key E TSubscriptionExpired)"
  "settles StateExpired (rows_by_key E TSubscriptionExpired)" for E
  by unfold_locales (auto intro: HandleExpired_once elim!: applies_settles [rotated] dest: rows_by_move)

interpretation confirmation_sent: exactly_once_handler E "HandleConfirmationSent E Background"
  "applies StateConfirmationSent (rows_by_id E TConfirmationSent)"
  "settles StateConfirmationSent (rows_by_id E TConfirmationSent)" for E
  by unfold_locales (auto intro: HandleConfirmationSent_once elim!: applies_settles [rotated] dest: rows_by_move)

section \<open>Compensation over NATS\<close>

lemma tx_only_TransitionByID [tx_only_rules]: "tx_only (TransitionByID E (c\<lparr>ctx_tx := True\<rparr>) sid to)"
  unfolding TransitionByID_def FromContext_tx by (intro tx_only_rules)

text \<open>The tables after a compensation: the saga is compensated and the command is in the outbox.\<close>

definition compensated :: "env \<Rightarrow> saga_row \<Rightarrow> time \<Rightarrow> nat \<Rightarrow> 'a saga_db_scheme \<Rightarrow> 'a saga_db_scheme" where
  "compensated E s now n d = with_message n SubjectSagaCompensate (compensate_event_of E s)
     (d\<lparr>sagas := map (move StateCompensated (\<lambda>r. sg_id r = sg_id s) now) (sagas d)\<rparr>)"

lemma wp_NATSCompensate:
  fixes w :: "'a saga_db_scheme world"
  assumes c: "\<not> ctx_tx c" and w: "open_tx w = None"
    and fails: "\<And>e n. Q (Inl e) (w\<lparr>ncalls := n\<rparr>)"
    and lost: "\<And>e n now k. Q (Inl e) (w\<lparr>ncalls := n, committed := compensated E s now k (committed w)\<rparr>)"
    and sent: "\<And>n now k. Q (Inr ()) (w\<lparr>ncalls := n, committed := compensated E s now k (committed w), nudge := True\<rparr>)"
  shows "wp (NATSCompensate E c s) Q w"
proof -
  let ?fn = "\<lambda>txCtx. bindE (TransitionByID E txCtx (sg_id s) StateCompensated)
    (\<lambda>_. Compensate_event E txCtx (compensate_event_of E s))"
  let ?Q = "\<lambda>r t. case r of Inl e \<Rightarrow> Q (Inl e) t
    | Inr _ \<Rightarrow> wp (do { _ \<leftarrow> Notify; ok () }) Q t"
  have body: "wp (?fn (c\<lparr>ctx_tx := True\<rparr>)) (\<lambda>r w1. \<forall>x t n. r = Inr x \<longrightarrow> open_tx w1 = Some t \<longrightarrow>
      \<not> tx_aborted t \<longrightarrow> ncalls w1 < n \<longrightarrow> ?Q (Inr x) (w\<lparr>ncalls := n, committed := tx_work t\<rparr>) \<and>
      (\<forall>e. ?Q (Inl e) (w\<lparr>ncalls := n, committed := tx_work t\<rparr>))) (begun E w)"
    unfolding TransitionByID_def FromContext_tx Compensate_event_enqueue wp_simps
    by (rule wp_sql_tx, simp, simp)
      (auto simp: transition_def wp_simps
        intro!: wp_enqueue lost [unfolded compensated_def] sent [unfolded compensated_def])
  show ?thesis
    unfolding NATSCompensate_def wp_bindE
    by (rule wp_Within [where fn = ?fn and Q = ?Q and c = c and w = w])
      (use c w fails body in \<open>auto simp: Compensate_event_enqueue intro!: tx_only_rules\<close>)
qed

lemma wp_Get:
  assumes "\<not> ctx_tx c" and "\<And>e. Q (Inl e) (w\<lparr>ncalls := Suc (ncalls w)\<rparr>)"
    and "Q (Inr (find (\<lambda>s. sg_id s = sid) (sagas (committed w)))) (w\<lparr>ncalls := Suc (ncalls w)\<rparr>)"
  shows "wp (Get E c sid) Q w"
  unfolding Get_def QueryRow_def FromContext_pool [OF assms(1)] wp_simps
  by (rule wp_sql_pool) (use assms(2,3) in \<open>auto simp: select_saga_def Scan_filter wp_simps split: option.splits\<close>)

definition dead_id :: "env \<Rightarrow> payload \<Rightarrow> uuid option" where
  "dead_id E p = (case Unmarshal E TConfirmationDead p of Inl e \<Rightarrow> None
     | Inr ev \<Rightarrow> (case uuid_Parse E (SagaID ev) of Inl e \<Rightarrow> None | Inr sid \<Rightarrow> Some sid))"

definition dead_saga :: "env \<Rightarrow> payload \<Rightarrow> 'a saga_db_scheme \<Rightarrow> saga_row option" where
  "dead_saga E p d = (case dead_id E p of None \<Rightarrow> None | Some sid \<Rightarrow> find (\<lambda>s. sg_id s = sid) (sagas d))"

definition dead_settled :: "env \<Rightarrow> payload \<Rightarrow> 'a saga_db_scheme \<Rightarrow> bool" where
  "dead_settled E p d \<longleftrightarrow> dead_id E p \<noteq> None \<and>
     (\<forall>s. dead_saga E p d = Some s \<longrightarrow> \<not> allowed (sg_state s) StateCompensated)"

definition dead_applied :: "env \<Rightarrow> payload \<Rightarrow> 'a saga_db_scheme \<Rightarrow> 'a saga_db_scheme \<Rightarrow> bool" where
  "dead_applied E p d d' \<longleftrightarrow>
     (\<exists>s now n. dead_saga E p d = Some s \<and> allowed (sg_state s) StateCompensated \<and> d' = compensated E s now n d)"

lemma find_map: "find p (map f xs) = map_option f (find (p \<circ> f) xs)"
  by (induction xs) auto

lemma find_SomeD: "find p xs = Some x \<Longrightarrow> p x \<and> x \<in> set xs"
  by (auto simp: find_Some_iff)

lemma dead_applied_settles: "dead_applied E p d d' \<Longrightarrow> dead_settled E p d'"
  by (auto simp: dead_applied_def dead_settled_def dead_saga_def compensated_def with_message_def find_map
      comp_def move_def allowed_def dest!: find_SomeD split: option.splits)

lemma allowed_compensated: "allowed s StateCompensated \<longleftrightarrow> s \<notin> {StateCompleted, StateExpired, StateCompensated}"
  by (cases s) (simp_all add: allowed_def)

lemma compensable: "allowed s StateCompensated \<longleftrightarrow> s \<in> {StatePending, StateConfirmationSent}"
  by (cases s) (simp_all add: allowed_def)

lemma dead_applied_explicit:
  assumes "dead_applied E p d d'"
  shows "\<exists>s now n. dead_saga E p d = Some s \<and> sg_state s \<in> {StatePending, StateConfirmationSent} \<and>
    sagas d' = map (\<lambda>r. if sg_id r = sg_id s \<and> sg_state r \<in> {StatePending, StateConfirmationSent}
      then r\<lparr>sg_state := StateCompensated, sg_updated := now\<rparr> else r) (sagas d) \<and>
    outbox d' = outbox d @ [\<lparr>ob_id = n, ob_subject = SubjectSagaCompensate,
      ob_payload = Doc (encode (SagaCompensate (uuid_String E (sg_id s)) (sg_type s) (sg_email s) (sg_repo s)))\<rparr>]"
proof -
  have move: "move StateCompensated q now = (\<lambda>r. if q r \<and> sg_state r \<in> {StatePending, StateConfirmationSent}
      then r\<lparr>sg_state := StateCompensated, sg_updated := now\<rparr> else r)" for q now
    by (auto simp: move_def fun_eq_iff)
  from assms obtain s now n where s: "dead_saga E p d = Some s" "sg_state s \<in> {StatePending, StateConfirmationSent}"
    and d: "d' = compensated E s now n d" by (auto simp: dead_applied_def compensable)
  have "sagas d' = map (move StateCompensated (\<lambda>r. sg_id r = sg_id s) now) (sagas d)"
    "outbox d' = outbox d @ [\<lparr>ob_id = n, ob_subject = SubjectSagaCompensate,
      ob_payload = Doc (encode (SagaCompensate (uuid_String E (sg_id s)) (sg_type s) (sg_email s) (sg_repo s)))\<rparr>]"
    by (simp_all add: d compensated_def with_message_def compensate_event_of_def)
  with s show ?thesis unfolding move by blast
qed

lemma HandleConfirmationDead_once:
  fixes w :: "'a saga_db_scheme world"
  assumes w: "open_tx w = None"
  shows "wp (HandleConfirmationDead ''nats'' E Background p) (once_post (dead_applied E) (dead_settled E) p w) w"
proof -
  let ?P = "once_post (dead_applied E) (dead_settled E) p w"
  have same: "?P (Inl e) (w\<lparr>ncalls := n\<rparr>)" "?P (Inl e) w" for e n
    using w by (simp_all add: once_post_error)
  show ?thesis
  proof (cases "dead_id E p")
    case None
    then show ?thesis
      by (auto simp: HandleConfirmationDead_def OnConfirmationDead_def parse_saga_id_def dead_id_def wp_simps same
          split: sum.splits)
  next
    case (Some sid)
    have skip: "?P (Inr ()) (w\<lparr>ncalls := n\<rparr>)"
      if "\<forall>s. dead_saga E p (committed w) = Some s \<longrightarrow> \<not> allowed (sg_state s) StateCompensated" for n
      using that w Some by (simp add: once_post_def dead_settled_def)
    have move: "?P r (w\<lparr>ncalls := n, committed := compensated E s now k (committed w)\<rparr>)"
      "?P r (w\<lparr>ncalls := n, committed := compensated E s now k (committed w), nudge := b\<rparr>)"
      if "dead_saga E p (committed w) = Some s" "allowed (sg_state s) StateCompensated" for r s n now k b
      using that w dead_applied_settles [of E p "committed w" "compensated E s now k (committed w)"]
      by (auto simp: once_post_def dead_applied_def dead_settled_def)
    have comp: "wp (bindE (compensator ''nats'' E c s) (\<lambda>_. ok ())) ?P (w\<lparr>ncalls := n\<rparr>)"
      if "dead_saga E p (committed w) = Some s" "sg_state s \<notin> {StateCompleted, StateExpired, StateCompensated}"
        "\<not> ctx_tx c" for s c n
      unfolding compensator_def transportGRPC_def
      using that w by (simp add: wp_simps, intro wp_NATSCompensate)
        (auto simp: wp_simps same allowed_compensated intro!: move)
    from Some obtain ev where "Unmarshal E TConfirmationDead p = Inr ev" "uuid_Parse E (SagaID ev) = Inr sid"
      by (auto simp: dead_id_def split: sum.splits)
    with Some comp skip show ?thesis
      by (auto simp: HandleConfirmationDead_def OnConfirmationDead_def parse_saga_id_def
          dead_saga_def wp_simps same allowed_compensated intro!: wp_Get split: option.splits)
  qed
qed

interpretation confirmation_dead: exactly_once_handler E "HandleConfirmationDead ''nats'' E Background"
  "dead_applied E" "dead_settled E" for E
  by unfold_locales (auto intro: HandleConfirmationDead_once dead_applied_settles)

section \<open>The properties of the orchestrator\<close>

text \<open>Concrete tables and messages for the witnesses: one saga waiting for its confirmation mail.\<close>

definition demo_saga :: saga_row where
  "demo_saga = \<lparr>sg_id = 1, sg_type = ''subscribe'', sg_state = StatePending, sg_email = ''a@b'',
     sg_repo = ''go/go'', sg_created = 0, sg_updated = 0\<rparr>"

definition demo_saga_db :: saga_db where
  "demo_saga_db = \<lparr>outbox = [], sagas = [demo_saga]\<rparr>"

definition demo_dead :: payload where
  "demo_dead = Doc (JObj [(''sagaID'', JStr ''u1''), (''email'', JStr ''a@b''), (''reason'', JStr ''smtp'')])"

definition demo_confirmed :: payload where
  "demo_confirmed = Doc (JObj [(''sagaID'', JStr ''u1''), (''email'', JStr ''a@b''), (''repoName'', JStr ''go/go''),
     (''unsubToken'', JStr ''t'')])"

definition demo_pending :: payload where
  "demo_pending = Doc (JObj [(''sagaID'', JStr ''u1''), (''email'', JStr ''a@b''), (''repoName'', JStr ''go/go''),
     (''confirmURL'', JStr ''x'')])"

lemmas decode_simps =
  Unmarshal_def zero_struct_def field_index_def eventValidator_Struct_def valid_fields_def
  repoRegex_MatchString_def repo_char_def char_between_def

lemma demo_decode:
  "Unmarshal (faulty_env fs) TConfirmationDead demo_dead = Inr (NotificationConfirmationDead ''u1'' ''a@b'' ''smtp'')"
  "Unmarshal (faulty_env fs) TSubscriptionConfirmed demo_confirmed =
     Inr (SubscriptionConfirmed ''u1'' ''a@b'' ''go/go'' ''t'')"
  "Unmarshal (faulty_env fs) TSubscriptionPending demo_pending =
     Inr (SubscriptionPending ''u1'' ''a@b'' ''go/go'' ''x'')"
  by (simp_all add: demo_dead_def demo_confirmed_def demo_pending_def decode_simps)



text \<open>
  The schema's constraints are never violated: every handler of the orchestrator, for
  both transports and for every failure, keeps saga ids unique, keeps one saga per (type,
  email, repository), and keeps the outbox ids unique and below the sequence.
\<close>

lemma saga_schema_invariant:
  fixes w :: "'a saga_db_scheme world"
  assumes "(stream, subject, handler) \<in> set (saga_consumers T E c)"
    and "open_tx w = None" and "saga_wf (ncalls w) (committed w)"
    and "run_state (handler data) w = (r, w')"
  shows "saga_wf (ncalls w') (committed w')"
  by (rule preserves_committed [OF saga_wf.preserves_consumers [OF assms(1)] assms(3,2,4)])

text \<open>
  \<^bold>\<open>C5.\<close> Compensation over NATS happens exactly once (\<open>nats_compensator.go\<close>): over all
  deliveries of one \<open>notifications.confirmation.dead\<close> message, with any failures, either the
  database is unchanged, or the saga left its pending state for \<open>compensated\<close> and exactly one
  \<open>saga.compensate\<close> command for it is in the outbox, both in one commit. Once a delivery is
  acknowledged, the saga is not waiting any more.
\<close>

theorem confirmation_dead_exactly_once:
  fixes w :: "'a saga_db_scheme world"
  assumes "open_tx w = None"
    and "run_state (Consume E (HandleConfirmationDead ''nats'' E Background) p) w = (ds, w')"
  shows "(committed w' = committed w \<or>
      (\<exists>s now n. dead_saga E p (committed w) = Some s \<and> sg_state s \<in> {StatePending, StateConfirmationSent} \<and>
        sagas (committed w') = map (\<lambda>r. if sg_id r = sg_id s \<and> sg_state r \<in> {StatePending, StateConfirmationSent}
          then r\<lparr>sg_state := StateCompensated, sg_updated := now\<rparr> else r) (sagas (committed w)) \<and>
        outbox (committed w') = outbox (committed w) @
          [\<lparr>ob_id = n, ob_subject = SubjectSagaCompensate,
            ob_payload = Doc (encode (SagaCompensate (uuid_String E (sg_id s)) (sg_type s) (sg_email s) (sg_repo s)))\<rparr>])) \<and>
    (Ack \<in> set ds \<longrightarrow> (\<forall>s. dead_saga E p (committed w') = Some s \<longrightarrow>
       sg_state s \<notin> {StatePending, StateConfirmationSent}))"
proof -
  have "(committed w' = committed w \<or> dead_applied E p (committed w) (committed w')) \<and>
      (Ack \<in> set ds \<longrightarrow> dead_settled E p (committed w'))"
    using wpD [OF confirmation_dead.deliver_once [OF assms(1)] assms(2) [unfolded Consume_def]] by blast
  then show ?thesis
    using dead_applied_explicit [of E p "committed w" "committed w'"]
    by (simp only: dead_settled_def compensable) blast
qed

lemmas saga_run_simps =
  Consume_def maxDeliver_def numeral_eq_Suc dispatch_def acknowledge_def
  HandleConfirmationDead_def OnConfirmationDead_def HandleConfirmed_def OnConfirmed_def parse_saga_id_def
  decode_event_def demo_decode compensator_def transportGRPC_def GRPCCompensate_def NATSCompensate_def
  TransitionByID_def TransitionByEmailRepo_def Compensate_rpc_def Compensate_event_def compensate_event_of_def Get_def
  QueryRow_def Scan_def sql_def run_pool_def run_tx_def select_saga_def transition_def move_def sourceStrings_def
  demo_saga_db_def demo_saga_def fresh_world_def bindE_def wrap_def liftE_def disposition_of_def
  Within_def Begin_def Commit_def Rollback_def Notify_def FromContext_def Background_def WithSagaID_def
  enqueue_def Enqueue_def insert_outbox_def Marshal_def eventValidator_Struct_def valid_fields_def
  repoRegex_MatchString_def repo_char_def char_between_def SagaTypeSubscribe_def saga_key_def Let_def

theorem confirmation_dead_exactly_once_witness:
  "\<nexists>s. dead_saga (faulty_env []) demo_dead (committed (snd (run_state (Consume (faulty_env [])
      (HandleConfirmationDead ''nats'' (faulty_env []) Background) demo_dead) (fresh_world demo_saga_db)))) = Some s \<and>
     sg_state s \<in> {StatePending, StateConfirmationSent}"
proof -
  let ?E = "faulty_env []"
  let ?run = "run_state (Consume ?E (HandleConfirmationDead ''nats'' ?E Background) demo_dead) (fresh_world demo_saga_db)"
  have "Ack \<in> set (fst ?run)" by (simp add: saga_run_simps)
  then show ?thesis
    using confirmation_dead_exactly_once [of "fresh_world demo_saga_db" ?E demo_dead "fst ?run" "snd ?run"] by auto
qed

text \<open>
  A \<open>subscriptions.confirmed\<close> message completes its saga exactly once: over all its
  deliveries the sagas are unchanged, or those of its e-mail and repository that were pending or
  had their confirmation sent are completed, with one time stamp; and after an acknowledged
  delivery none of them is left waiting. The outbox is not touched.
\<close>

theorem confirmed_completes_saga_once:
  fixes w :: "'a saga_db_scheme world"
  assumes "open_tx w = None"
    and "run_state (Consume E (HandleConfirmed E Background) p) w = (ds, w')"
  shows "(committed w' = committed w \<or>
      (\<exists>ev now. Unmarshal E TSubscriptionConfirmed p = Inr ev \<and>
        committed w' = (committed w)\<lparr>sagas := map (\<lambda>s.
          if saga_key s = (''subscribe'', Email ev, RepoName ev) \<and> sg_state s \<in> {StatePending, StateConfirmationSent}
          then s\<lparr>sg_state := StateCompleted, sg_updated := now\<rparr> else s) (sagas (committed w))\<rparr>)) \<and>
    (Ack \<in> set ds \<longrightarrow> (\<exists>ev. Unmarshal E TSubscriptionConfirmed p = Inr ev \<and>
      (\<forall>s \<in> set (sagas (committed w')). saga_key s = (''subscribe'', Email ev, RepoName ev) \<longrightarrow>
        sg_state s \<notin> {StatePending, StateConfirmationSent})))"
proof -
  let ?U = "rows_by_key E TSubscriptionConfirmed"
  have move: "move StateCompleted q now = (\<lambda>s. if q s \<and> sg_state s \<in> {StatePending, StateConfirmationSent}
      then s\<lparr>sg_state := StateCompleted, sg_updated := now\<rparr> else s)" for q now
    by (auto simp: move_def fun_eq_iff)
  have states: "allowed s StateCompleted \<longleftrightarrow> s \<in> {StatePending, StateConfirmationSent}" for s
    by (cases s) (simp_all add: allowed_def)
  have U: "?U p = Some sel \<longleftrightarrow> (\<exists>ev. Unmarshal E TSubscriptionConfirmed p = Inr ev \<and> sel = by_key ev)" for sel
    by (auto simp: rows_by_key_def split: sum.splits)
  have "(committed w' = committed w \<or> applies StateCompleted ?U p (committed w) (committed w')) \<and>
      (Ack \<in> set ds \<longrightarrow> settles StateCompleted ?U p (committed w'))"
    using wpD [OF confirmed.deliver_once [OF assms(1)] assms(2) [unfolded Consume_def]] by blast
  then show ?thesis
    unfolding applies_def settles_def U moved_def no_source_def by_key_eq states move SagaTypeSubscribe_def
    by blast
qed

theorem confirmed_completes_saga_once_witness:
  "\<nexists>s. s \<in> set (sagas (committed (snd (run_state (Consume (faulty_env [])
      (HandleConfirmed (faulty_env []) Background) demo_confirmed) (fresh_world demo_saga_db))))) \<and>
     saga_key s = (''subscribe'', ''a@b'', ''go/go'') \<and> sg_state s \<in> {StatePending, StateConfirmationSent}"
proof -
  let ?E = "faulty_env []"
  let ?run = "run_state (Consume ?E (HandleConfirmed ?E Background) demo_confirmed) (fresh_world demo_saga_db)"
  have "Ack \<in> set (fst ?run)" by (simp add: saga_run_simps)
  then show ?thesis
    using confirmed_completes_saga_once [of "fresh_world demo_saga_db" ?E demo_confirmed "fst ?run" "snd ?run"]
    by (auto simp: demo_decode)
qed

lemma HandlePending_starts:
  fixes w :: "'a saga_db_scheme world"
  assumes "saga_wf (ncalls w) (committed w)" and "run_state (HandlePending E Background p) w = (Inr (), w')"
  shows "\<exists>ev sid s. Unmarshal E TSubscriptionPending p = Inr ev \<and> uuid_Parse E (SagaID ev) = Inr sid \<and>
    filter (\<lambda>s. saga_key s = (''subscribe'', Email ev, RepoName ev)) (sagas (committed w')) = [s] \<and>
    sg_id s = sid \<and> sg_state s = StatePending \<and>
    filter (\<lambda>s. saga_key s \<noteq> (''subscribe'', Email ev, RepoName ev)) (sagas (committed w')) =
      filter (\<lambda>s. saga_key s \<noteq> (''subscribe'', Email ev, RepoName ev)) (sagas (committed w)) \<and>
    outbox (committed w') = outbox (committed w)"
proof -
  have "wp (HandlePending E Background p) (\<lambda>r w'. r = Inr () \<longrightarrow>
    (\<exists>ev sid i d'. Unmarshal E TSubscriptionPending p = Inr ev \<and> uuid_Parse E (SagaID ev) = Inr sid \<and>
      start_saga sid ''subscribe'' (Email ev) (RepoName ev) i (committed w) = Inr ((), d') \<and> committed w' = d')) w"
    unfolding HandlePending_def OnPending_def Start_def parse_saga_id_def SagaTypeSubscribe_def
    by (auto simp: wp_simps intro!: wp_sql_pool split: sum.splits)
  from wpD [OF this assms(2)] obtain ev sid i where
    ev: "Unmarshal E TSubscriptionPending p = Inr ev" "uuid_Parse E (SagaID ev) = Inr sid"
    and start: "start_saga sid ''subscribe'' (Email ev) (RepoName ev) i (committed w) = Inr ((), committed w')"
    by auto
  with start_saga_result [OF start] assms(1) show ?thesis by (auto simp: saga_wf_def)
qed

text \<open>
  A handled \<open>subscriptions.pending\<close> message starts the saga: there is then exactly the
  one saga of that e-mail and repository, with the id of the message and state pending (an older
  saga of the pair is replaced, whatever its state), and every other saga and the outbox are
  unchanged.
\<close>

theorem pending_starts_saga:
  fixes w :: "'a saga_db_scheme world"
  assumes "open_tx w = None" and "saga_wf (ncalls w) (committed w)"
    and "run_state (HandlePending E Background p) w = (Inr (), w')"
  shows "\<exists>ev sid s. Unmarshal E TSubscriptionPending p = Inr ev \<and> uuid_Parse E (SagaID ev) = Inr sid \<and>
    filter (\<lambda>s. saga_key s = (''subscribe'', Email ev, RepoName ev)) (sagas (committed w')) = [s] \<and>
    sg_id s = sid \<and> sg_state s = StatePending \<and>
    filter (\<lambda>s. saga_key s \<noteq> (''subscribe'', Email ev, RepoName ev)) (sagas (committed w')) =
      filter (\<lambda>s. saga_key s \<noteq> (''subscribe'', Email ev, RepoName ev)) (sagas (committed w)) \<and>
    outbox (committed w') = outbox (committed w)"
  by (rule HandlePending_starts [OF assms(2,3)])

theorem pending_starts_saga_witness:
  "\<exists>ev sid s. Unmarshal (faulty_env []) TSubscriptionPending demo_pending = Inr ev \<and>
     uuid_Parse (faulty_env []) (SagaID ev) = Inr sid \<and> sg_id s = sid \<and> sg_state s = StatePending \<and>
     filter (\<lambda>s. saga_key s = (''subscribe'', Email ev, RepoName ev)) (sagas (committed (snd (run_state
       (HandlePending (faulty_env []) Background demo_pending) (fresh_world demo_saga_db))))) = [s]"
proof -
  have "saga_wf 1 demo_saga_db" by (simp add: saga_wf_def outbox_wf_def demo_saga_db_def)
  moreover have "fst (run_state (HandlePending (faulty_env []) Background demo_pending) (fresh_world demo_saga_db)) = Inr ()"
    by (simp add: HandlePending_def OnPending_def parse_saga_id_def decode_event_def demo_decode Start_def
        start_saga_def sql_def run_pool_def demo_saga_db_def demo_saga_def fresh_world_def bindE_def wrap_def
        liftE_def Let_def saga_key_def SagaTypeSubscribe_def)
  ultimately have "\<exists>ev sid s. Unmarshal (faulty_env []) TSubscriptionPending demo_pending = Inr ev \<and>
      uuid_Parse (faulty_env []) (SagaID ev) = Inr sid \<and>
      filter (\<lambda>s. saga_key s = (''subscribe'', Email ev, RepoName ev)) (sagas (committed (snd (run_state
        (HandlePending (faulty_env []) Background demo_pending) (fresh_world demo_saga_db))))) = [s] \<and>
      sg_id s = sid \<and> sg_state s = StatePending \<and>
      filter (\<lambda>s. saga_key s \<noteq> (''subscribe'', Email ev, RepoName ev)) (sagas (committed (snd (run_state
        (HandlePending (faulty_env []) Background demo_pending) (fresh_world demo_saga_db))))) =
      filter (\<lambda>s. saga_key s \<noteq> (''subscribe'', Email ev, RepoName ev)) (sagas (committed (fresh_world demo_saga_db))) \<and>
      outbox (committed (snd (run_state (HandlePending (faulty_env []) Background demo_pending)
        (fresh_world demo_saga_db)))) = outbox (committed (fresh_world demo_saga_db))"
    by (intro pending_starts_saga) (simp_all only: fresh_world_simps prod_eq_iff fst_conv snd_conv simp_thms)
  then show ?thesis by blast
qed


end
