(* ===== verification/Github.thy ===== *)
theory Github
  imports Events
begin

text \<open>
  The GitHub client (\<open>internal/shared/github/github.go\<close>) over the Redis cache
  (\<open>internal/infrastructure/cache/cache.go\<close>). The client runs beside the databases, in a state of
  its own: the keys in Redis, the number of calls made, and the history of GitHub's answers, which
  the code does not keep and which the theorems need. GitHub and the network are the argument
  \<open>http_Do\<close>, which may answer every request differently.
\<close>

section \<open>Strings and numbers of the standard library\<close>

text \<open>Signed 64-bit wrap-around of \<open>int\<close>, \<open>int64\<close> and \<open>time.Duration\<close>.\<close>

definition wrap64 :: "int \<Rightarrow> int" where
  "wrap64 n = sint (word_of_int n :: 64 word)"

text \<open>\<open>strconv.Atoi\<close> and \<open>strconv.ParseInt(s, 10, 64)\<close>: a sign, then decimal digits, within 64 bits.\<close>

definition digit :: "char \<Rightarrow> bool" where
  "digit c \<longleftrightarrow> char_between CHR ''0'' CHR ''9'' c"

definition digits_value :: "string \<Rightarrow> int" where
  "digits_value s = foldl (\<lambda>n c. 10 * n + (of_char c - 48)) 0 s"

definition Atoi :: "string \<Rightarrow> int option" where
  "Atoi s =
     (let (neg, ds) = (case s of [] \<Rightarrow> (False, [])
            | c # cs \<Rightarrow> if c = CHR ''-'' then (True, cs) else if c = CHR ''+'' then (False, cs) else (False, s));
          n = (if neg then - digits_value ds else digits_value ds)
      in if ds \<noteq> [] \<and> list_all digit ds \<and> in_int64 n then Some n else None)"

text \<open>\<open>time.Duration.String\<close>: fractions lose their trailing zeros, below a second the unit shrinks.\<close>

definition second :: int where
  "second = 1000000000"

definition fraction :: "nat \<Rightarrow> nat \<Rightarrow> string" where
  "fraction v prec =
     (let ds = rev (dropWhile (\<lambda>c. c = CHR ''0'') (rev (drop 1 (decimal (10 ^ prec + v mod 10 ^ prec)))))
      in if ds = [] then [] else CHR ''.'' # ds)"

definition Duration_String :: "duration \<Rightarrow> string" where
  "Duration_String d =
     (let u = nat \<bar>d\<bar>;
          small = (\<lambda>prec unit. decimal (u div 10 ^ prec) @ fraction u prec @ unit);
          s = u div 10 ^ 9;
          secs = decimal (s mod 60) @ fraction u 9 @ ''s'';
          m = s div 60;
          body = (if u = 0 then ''0s''
            else if u < 10 ^ 3 then small 0 ''ns''
            else if u < 10 ^ 6 then small 3 [CHR 0xC2, CHR 0xB5, CHR ''s'']
            else if u < 10 ^ 9 then small 6 ''ms''
            else if m = 0 then secs
            else if m div 60 = 0 then decimal m @ ''m'' @ secs
            else decimal (m div 60) @ ''h'' @ decimal (m mod 60) @ ''m'' @ secs)
      in if d < 0 then CHR ''-'' # body else body)"

section \<open>Redis\<close>

text \<open>
  A cached value: a plain text, or the text \<open>json.Marshal\<close> made of a \<open>domain.Release\<close>, which is that of an
  object. An entry ends at its expiry; a duration that is not positive sets none.
\<close>

datatype stored = Text string | Marshalled release

text \<open>
  An HTTP response; \<open>Headers h\<close> is \<open>Header.Get(h)\<close>, empty when it is absent; \<open>Body\<close> is what reading it
  gives, by the JSON value it encodes.
\<close>

record http_response =
  StatusCode :: int
  Headers :: "string \<Rightarrow> string"
  Body :: "error + payload"

record net =
  redis :: "string \<Rightarrow> (stored \<times> time option) option"
  nreq :: nat
  history :: "(nat \<times> string \<times> http_response) list"

definition live :: "time \<Rightarrow> (stored \<times> time option) option \<Rightarrow> stored option" where
  "live now entry =
     (case entry of None \<Rightarrow> None
      | Some (v, None) \<Rightarrow> Some v
      | Some (v, Some expiry) \<Rightarrow> if now < expiry then Some v else None)"

definition redis_Get :: "env \<Rightarrow> string \<Rightarrow> (net, error + stored option) state" where
  "redis_Get E key = State (\<lambda>s.
     let n = nreq s; s1 = s\<lparr>nreq := Suc n\<rparr> in
     case env_fault E n of
       NoFault \<Rightarrow> (Inr (live (env_clock E n) (redis s key)), s1)
     | Fails m \<Rightarrow> (Inl (Errorf ''redis get'' (External m)), s1)
     | Lost m \<Rightarrow> (Inl (Errorf ''redis get'' (External m)), s1))"

definition redis_Set :: "env \<Rightarrow> string \<Rightarrow> stored \<Rightarrow> duration \<Rightarrow> (net, error + unit) state" where
  "redis_Set E key v ttl = State (\<lambda>s.
     let n = nreq s; s1 = s\<lparr>nreq := Suc n\<rparr>;
         done = s1\<lparr>redis := (redis s)(key \<mapsto> (v, if 0 < ttl then Some (env_clock E n + ttl) else None))\<rparr> in
     case env_fault E n of
       NoFault \<Rightarrow> (Inr (), done)
     | Fails m \<Rightarrow> (Inl (Errorf ''redis set'' (External m)), s1)
     | Lost m \<Rightarrow> (Inl (Errorf ''redis set'' (External m)), done))"

section \<open>The client\<close>

text \<open>
  The fields of \<open>Client\<close>, with the request function and the parsing of cached texts that the
  client did not write itself.
\<close>

record client =
  cl_token :: string
  cl_baseURL :: string
  cl_cache :: bool
  cl_ttl :: duration
  http_NewRequest :: "string \<Rightarrow> error option"
  http_Do :: "nat \<Rightarrow> string \<times> (string \<times> string) list \<Rightarrow> error + http_response"
  text_json :: "string \<Rightarrow> payload"

definition apiBaseURL :: string where
  "apiBaseURL = ''https://api.github.com''"

definition apiVersion :: string where
  "apiVersion = ''2026-03-10''"

definition keyPrefixExists :: string where
  "keyPrefixExists = ''github:repo_exists:''"

definition keyPrefixRelease :: string where
  "keyPrefixRelease = ''github:latest_release:''"

definition cacheNoRelease :: string where
  "cacheNoRelease = ''none''"

definition cacheTrue :: string where
  "cacheTrue = ''1''"

definition cacheFalse :: string where
  "cacheFalse = ''0''"

definition defaultRetryAfter :: duration where
  "defaultRetryAfter = 60 * second"

text \<open>\<open>NewClient\<close>, over a transport with the default timeout, and \<open>WithCache\<close>.\<close>

definition NewClient :: "string \<Rightarrow> (string \<Rightarrow> error option) \<Rightarrow>
    (nat \<Rightarrow> string \<times> (string \<times> string) list \<Rightarrow> error + http_response) \<Rightarrow> (string \<Rightarrow> payload) \<Rightarrow> client" where
  "NewClient token newRequest transport texts =
     \<lparr>cl_token = token, cl_baseURL = apiBaseURL, cl_cache = False, cl_ttl = 0,
      http_NewRequest = newRequest, http_Do = transport, text_json = texts\<rparr>"

definition WithCache :: "client \<Rightarrow> duration \<Rightarrow> client" where
  "WithCache C ttl = C\<lparr>cl_cache := True, cl_ttl := ttl\<rparr>"

definition isRateLimited :: "http_response \<Rightarrow> bool" where
  "isRateLimited resp \<longleftrightarrow>
     StatusCode resp = 429 \<or> StatusCode resp = 403 \<and> Headers resp ''X-RateLimit-Remaining'' = ''0''"

text \<open>
  \<open>time.Until(time.Unix(unix, 0))\<close>: the seconds of a \<open>time.Time\<close> count from the year 1 in 64 bits, and a
  difference of times saturates.
\<close>

definition until_unix :: "time \<Rightarrow> int \<Rightarrow> duration" where
  "until_unix now unix =
     (let d = (wrap64 (unix + 62135596800) - 62135596800) * second - now
      in max (- (2 ^ 63)) (min (2 ^ 63 - 1) d))"

definition parseRetryAfter :: "time \<Rightarrow> http_response \<Rightarrow> duration" where
  "parseRetryAfter now resp =
     (let reset = (if Headers resp ''X-RateLimit-Reset'' = [] then defaultRetryAfter
            else case Atoi (Headers resp ''X-RateLimit-Reset'') of
              None \<Rightarrow> defaultRetryAfter
            | Some unix \<Rightarrow> if 0 < until_unix now unix then until_unix now unix else defaultRetryAfter)
      in if Headers resp ''Retry-After'' = [] then reset
         else case Atoi (Headers resp ''Retry-After'') of
           None \<Rightarrow> reset
         | Some seconds \<Rightarrow> wrap64 (seconds * second))"

text \<open>\<open>Client.do\<close>: the request, then the classification of its response.\<close>

definition request_headers :: "client \<Rightarrow> (string \<times> string) list" where
  "request_headers C =
     [(''Accept'', ''application/vnd.github+json''), (''X-GitHub-Api-Version'', apiVersion)] @
     (if cl_token C \<noteq> [] then [(''Authorization'', ''Bearer '' @ cl_token C)] else [])"

definition classify :: "time \<Rightarrow> http_response \<Rightarrow> error + int \<times> payload" where
  "classify now resp =
     (case Body resp of
        Inl e \<Rightarrow> Inl (Errorf ''read body'' e)
      | Inr body \<Rightarrow>
          if StatusCode resp = 401 then Inl (Sentinel ErrUnauthorized)
          else if isRateLimited resp then Inl (Errorf_post (Sentinel ErrRateLimited)
            (''resource='' @ Headers resp ''X-RateLimit-Resource'' @ '', retry after '' @
             Duration_String (parseRetryAfter now resp)))
          else Inr (StatusCode resp, body))"

definition client_do :: "env \<Rightarrow> client \<Rightarrow> string \<Rightarrow> (net, error + int \<times> payload) state" where
  "client_do E C url =
     (case http_NewRequest C url of
        Some e \<Rightarrow> err (Errorf ''create request'' e)
      | None \<Rightarrow> State (\<lambda>s.
          let n = nreq s; s1 = s\<lparr>nreq := Suc n\<rparr> in
          case http_Do C n (url, request_headers C) of
            Inl e \<Rightarrow> (Inl (Errorf ''http request'' e), s1)
          | Inr resp \<Rightarrow> (classify (env_clock E n) resp, s1\<lparr>history := history s @ [(n, url, resp)]\<rparr>)))"

definition cacheString :: "env \<Rightarrow> client \<Rightarrow> string \<Rightarrow> stored \<Rightarrow> (net, unit) state" where
  "cacheString E C key v =
     (if \<not> cl_cache C then State_Monad.return ()
      else do { _ \<leftarrow> redis_Set E key v (cl_ttl C); State_Monad.return () })"

definition unexpected_status :: "int \<Rightarrow> error" where
  "unexpected_status status =
     External (''unexpected status '' @ (if status < 0 then ''-'' else []) @ decimal (nat \<bar>status\<bar>))"

definition repo_url :: "client \<Rightarrow> string \<Rightarrow> string \<Rightarrow> string" where
  "repo_url C owner repo = cl_baseURL C @ ''/repos/'' @ owner @ ''/'' @ repo"

text \<open>\<open>Client.RepoExists\<close>.\<close>

definition fetch_exists :: "env \<Rightarrow> client \<Rightarrow> string \<Rightarrow> string \<Rightarrow> string \<Rightarrow> (net, error + bool) state" where
  "fetch_exists E C key owner repo =
     bindE (client_do E C (repo_url C owner repo)) (\<lambda>(status, body).
       if status = 404 then do { _ \<leftarrow> cacheString E C key (Text cacheFalse); ok False }
       else if status \<noteq> 200 then err (unexpected_status status)
       else do { _ \<leftarrow> cacheString E C key (Text cacheTrue); ok True })"

definition RepoExists :: "env \<Rightarrow> client \<Rightarrow> string \<Rightarrow> string \<Rightarrow> (net, error + bool) state" where
  "RepoExists E C owner repo =
     (let key = keyPrefixExists @ owner @ ''/'' @ repo in
      if \<not> cl_cache C then fetch_exists E C key owner repo
      else do {
        r \<leftarrow> redis_Get E key;
        case r of
          Inr (Some v) \<Rightarrow> ok (v = Text cacheTrue)
        | _ \<Rightarrow> fetch_exists E C key owner repo
      })"

text \<open>
  \<open>json.Unmarshal\<close> into a struct of strings: members are matched by name as in \<open>Events\<close>, unknown ones are
  skipped, a null changes nothing, a member of another type is an error.
\<close>

definition member_index :: "string list \<Rightarrow> string \<Rightarrow> nat option" where
  "member_index names key =
     (case index_of (\<lambda>n. n = key) names of
        Some i \<Rightarrow> Some i
      | None \<Rightarrow> index_of (\<lambda>n. foldName n = foldName key) names)"

fun decode_strings :: "string list \<Rightarrow> string list \<Rightarrow> (string \<times> json) list \<Rightarrow> error + string list" where
  "decode_strings names vs [] = Inr vs"
| "decode_strings names vs ((key, v) # ms) =
     (case member_index names key of
        None \<Rightarrow> decode_strings names vs ms
      | Some i \<Rightarrow> (case v of
          JNull \<Rightarrow> decode_strings names vs ms
        | JStr s \<Rightarrow> decode_strings names (vs[i := s]) ms
        | _ \<Rightarrow> Inl (json_error ''cannot unmarshal'')))"

fun Unmarshal_strings :: "string list \<Rightarrow> payload \<Rightarrow> error + string list" where
  "Unmarshal_strings names Garbage = Inl (json_error ''syntax error'')"
| "Unmarshal_strings names (Doc (JObj ms)) = decode_strings names (map (\<lambda>_. '''') names) ms"
| "Unmarshal_strings names (Doc JNull) = Inr (map (\<lambda>_. '''') names)"
| "Unmarshal_strings names (Doc _) = Inl (json_error ''cannot unmarshal'')"

definition release_of :: "string list \<Rightarrow> release" where
  "release_of vs = \<lparr>TagName = vs ! 0, HTMLURL = vs ! 1\<rparr>"

text \<open>\<open>githubRelease\<close>, and \<open>domain.Release\<close>, which has no tags.\<close>

definition decode_githubRelease :: "payload \<Rightarrow> error + release" where
  "decode_githubRelease body =
     (case Unmarshal_strings [''tag_name'', ''html_url''] body of Inl e \<Rightarrow> Inl e | Inr vs \<Rightarrow> Inr (release_of vs))"

definition encode_Release :: "release \<Rightarrow> json" where
  "encode_Release r = JObj [(''TagName'', JStr (TagName r)), (''HTMLURL'', JStr (HTMLURL r))]"

definition decode_Release :: "payload \<Rightarrow> error + release" where
  "decode_Release data =
     (case Unmarshal_strings [''TagName'', ''HTMLURL''] data of Inl e \<Rightarrow> Inl e | Inr vs \<Rightarrow> Inr (release_of vs))"

definition stored_json :: "client \<Rightarrow> stored \<Rightarrow> payload" where
  "stored_json C v = (case v of Text s \<Rightarrow> text_json C s | Marshalled r \<Rightarrow> Doc (encode_Release r))"

text \<open>\<open>getCachedRelease\<close>: \<open>None\<close> is \<open>found = false\<close>.\<close>

definition getCachedRelease :: "env \<Rightarrow> client \<Rightarrow> string \<Rightarrow> (net, (error + release) option) state" where
  "getCachedRelease E C key = do {
     r \<leftarrow> redis_Get E key;
     State_Monad.return (case r of
         Inr (Some v) \<Rightarrow>
           if v = Text cacheNoRelease then Some (Inl (Sentinel ErrNoRelease))
           else (case decode_Release (stored_json C v) of Inl e \<Rightarrow> None | Inr rel \<Rightarrow> Some (Inr rel))
       | _ \<Rightarrow> None)
   }"

text \<open>\<open>parseAndCacheRelease\<close>; marshalling two strings never fails.\<close>

definition parseAndCacheRelease :: "env \<Rightarrow> client \<Rightarrow> string \<Rightarrow> payload \<Rightarrow> (net, error + release) state" where
  "parseAndCacheRelease E C key body =
     (case decode_githubRelease body of
        Inl e \<Rightarrow> err (Errorf ''decode release'' e)
      | Inr rel \<Rightarrow> do { _ \<leftarrow> cacheString E C key (Marshalled rel); ok rel })"

definition release_url :: "client \<Rightarrow> string \<Rightarrow> string \<Rightarrow> string" where
  "release_url C owner repo = repo_url C owner repo @ ''/releases/latest''"

text \<open>\<open>Client.GetLatestRelease\<close>.\<close>

definition fetch_release :: "env \<Rightarrow> client \<Rightarrow> string \<Rightarrow> string \<Rightarrow> string \<Rightarrow> (net, error + release) state" where
  "fetch_release E C key owner repo =
     bindE (client_do E C (release_url C owner repo)) (\<lambda>(status, body).
       if status = 404 then do { _ \<leftarrow> cacheString E C key (Text cacheNoRelease); err (Sentinel ErrNoRelease) }
       else if status \<noteq> 200 then err (unexpected_status status)
       else parseAndCacheRelease E C key body)"

definition GetLatestRelease :: "env \<Rightarrow> client \<Rightarrow> string \<Rightarrow> string \<Rightarrow> (net, error + release) state" where
  "GetLatestRelease E C owner repo =
     (let key = keyPrefixRelease @ owner @ ''/'' @ repo in
      if \<not> cl_cache C then fetch_release E C key owner repo
      else do {
        cached \<leftarrow> getCachedRelease E C key;
        case cached of
          Some r \<Rightarrow> State_Monad.return r
        | None \<Rightarrow> fetch_release E C key owner repo
      })"

section \<open>What an answer of GitHub says\<close>

definition repo_name :: "string \<Rightarrow> string \<Rightarrow> string" where
  "repo_name owner repo = owner @ ''/'' @ repo"

text \<open>The value the client caches for a response, if any, and what a cached value stands for.\<close>

definition answer_of :: "http_response \<Rightarrow> (int \<times> payload) option" where
  "answer_of resp =
     (case Body resp of Inl e \<Rightarrow> None
      | Inr body \<Rightarrow> if StatusCode resp = 401 \<or> isRateLimited resp then None else Some (StatusCode resp, body))"

definition exists_value :: "http_response \<Rightarrow> stored option" where
  "exists_value resp =
     (case answer_of resp of None \<Rightarrow> None
      | Some (status, body) \<Rightarrow> if status = 404 then Some (Text cacheFalse)
          else if status = 200 then Some (Text cacheTrue) else None)"

definition release_value :: "http_response \<Rightarrow> stored option" where
  "release_value resp =
     (case answer_of resp of None \<Rightarrow> None
      | Some (status, body) \<Rightarrow> if status = 404 then Some (Text cacheNoRelease)
          else if status = 200 then (case decode_githubRelease body of Inl e \<Rightarrow> None | Inr rel \<Rightarrow> Some (Marshalled rel))
          else None)"

definition exists_result :: "client \<Rightarrow> stored \<Rightarrow> (error + bool) option" where
  "exists_result C v = Some (Inr (v = Text cacheTrue))"

definition release_result :: "client \<Rightarrow> stored \<Rightarrow> (error + release) option" where
  "release_result C v =
     (if v = Text cacheNoRelease then Some (Inl (Sentinel ErrNoRelease))
      else (case decode_Release (stored_json C v) of Inl e \<Rightarrow> None | Inr rel \<Rightarrow> Some (Inr rel)))"

text \<open>What a lookup returns that just got the response, at the given time.\<close>

definition exists_says :: "time \<Rightarrow> http_response \<Rightarrow> error + bool" where
  "exists_says now resp =
     (case classify now resp of Inl e \<Rightarrow> Inl e
      | Inr (status, body) \<Rightarrow> if status = 404 then Inr False else if status \<noteq> 200 then Inl (unexpected_status status) else Inr True)"

definition release_says :: "time \<Rightarrow> http_response \<Rightarrow> error + release" where
  "release_says now resp =
     (case classify now resp of Inl e \<Rightarrow> Inl e
      | Inr (status, body) \<Rightarrow> if status = 404 then Inl (Sentinel ErrNoRelease)
          else if status \<noteq> 200 then Inl (unexpected_status status)
          else (case decode_githubRelease body of Inl e \<Rightarrow> Inl (Errorf ''decode release'' e) | Inr rel \<Rightarrow> Inr rel))"

text \<open>The same value, or errors that \<open>errors.Is\<close> cannot tell apart.\<close>

definition same_outcome :: "error + 'a \<Rightarrow> error + 'a \<Rightarrow> bool" where
  "same_outcome r r' \<longleftrightarrow>
     (case (r, r') of (Inr x, Inr y) \<Rightarrow> x = y | (Inl e, Inl e') \<Rightarrow> errors_Is e = errors_Is e' | _ \<Rightarrow> False)"

definition unreachable :: "client \<Rightarrow> string \<Rightarrow> bool" where
  "unreachable C url \<longleftrightarrow> http_NewRequest C url \<noteq> None \<or> (\<exists>n h. isl (http_Do C n (url, h)))"

definition replied :: "client \<Rightarrow> nat \<Rightarrow> string \<Rightarrow> http_response \<Rightarrow> bool" where
  "replied C n url resp \<longleftrightarrow> (\<exists>h. http_Do C n (url, h) = Inr resp)"

definition expiry :: "env \<Rightarrow> client \<Rightarrow> nat \<Rightarrow> time option" where
  "expiry E C n = (if 0 < cl_ttl C then Some (env_clock E (Suc n) + cl_ttl C) else None)"

lemma answer_classify: "answer_of resp = (case classify t resp of Inl e \<Rightarrow> None | Inr x \<Rightarrow> Some x)"
  by (auto simp: classify_def answer_of_def split: sum.splits)

lemma classify_same: "same_outcome (classify t resp) (classify t' resp)"
  by (auto simp: classify_def same_outcome_def split: sum.splits)

lemma same_outcomeD: "same_outcome (Inl e) r \<Longrightarrow> \<exists>e'. r = Inl e' \<and> errors_Is e = errors_Is e'"
  "same_outcome (Inr x) r \<Longrightarrow> r = Inr x"
  by (auto simp: same_outcome_def split: sum.splits)

lemma says_same:
  "same_outcome (exists_says t resp) (exists_says t' resp)" "same_outcome (release_says t resp) (release_says t' resp)"
  using classify_same [of t resp t']
  by (cases "classify t resp"; auto simp: exists_says_def release_says_def same_outcome_def dest!: same_outcomeD
      split: sum.splits prod.splits)+

lemma release_roundtrip: "decode_Release (Doc (encode_Release rel)) = Inr rel"
  by (simp add: decode_Release_def encode_Release_def member_index_def release_of_def)

lemma release_result_Marshalled [simp]: "release_result C (Marshalled rel) = Some (Inr rel)"
  by (simp add: release_result_def stored_json_def release_roundtrip)

lemma says_value:
  "exists_value resp = Some v \<Longrightarrow> exists_result C v = Some (exists_says t resp)"
  "release_value resp = Some v \<Longrightarrow> release_result C v = Some (release_says t resp)"
  by (auto simp: exists_value_def exists_result_def exists_says_def cacheTrue_def cacheFalse_def answer_classify [of resp t]
      release_value_def release_says_def release_result_def stored_json_def release_roundtrip
      split: option.splits if_splits sum.splits)

section \<open>Reading through the cache\<close>

text \<open>
  What a lookup does: it serves a live entry; or it asks GitHub, returns what the answer says
  and may cache it; or it fails and leaves the cache as it was.
\<close>

definition lookup_post where
  "lookup_post prefix url value_of result_of says E C name s r s' \<longleftrightarrow>
     (\<exists>v. cl_cache C \<and> live (env_clock E (nreq s)) (redis s (prefix @ name)) = Some v \<and> result_of C v = Some r \<and>
        redis s' = redis s \<and> history s' = history s) \<or>
     (\<exists>n resp v. nreq s \<le> n \<and> replied C n (url C name) resp \<and> history s' = history s @ [(n, url C name, resp)] \<and> value_of resp = Some v \<and>
        result_of C v = Some r \<and>
        (redis s' = redis s \<or> redis s' = (redis s)(prefix @ name \<mapsto> (v, expiry E C n)))) \<or>
     isl r \<and> redis s' = redis s \<and> (history s' = history s \<and> unreachable C (url C name) \<or>
        (\<exists>n resp. replied C n (url C name) resp \<and> history s' = history s @ [(n, url C name, resp)] \<and> value_of resp = None \<and> r = says (env_clock E n) resp))"

definition backed where
  "backed prefix url value_of E C s \<longleftrightarrow> (\<forall>name v x. redis s (prefix @ name) = Some (v, x) \<longrightarrow>
     (\<exists>n resp. (n, url C name, resp) \<in> set (history s) \<and> value_of resp = Some v \<and> x = expiry E C n))"

locale read_through =
  fixes prefix :: string
    and url :: "client \<Rightarrow> string \<Rightarrow> string"
    and value_of :: "http_response \<Rightarrow> stored option"
    and result_of :: "client \<Rightarrow> stored \<Rightarrow> (error + 'r) option"
    and says :: "time \<Rightarrow> http_response \<Rightarrow> error + 'r"
    and lookup :: "env \<Rightarrow> client \<Rightarrow> string \<Rightarrow> string \<Rightarrow> (net, error + 'r) state"
  assumes value_says: "value_of resp = Some v \<Longrightarrow> result_of C v = Some (says t resp)"
    and same_says: "same_outcome (says t resp) (says t' resp)"
    and run: "wp (lookup E C owner repo) (lookup_post prefix url value_of result_of says E C (repo_name owner repo) s) s"
begin

lemma backed_kept:
  assumes "backed prefix url value_of E C s"
  shows "wp (lookup E C owner repo) (\<lambda>_. backed prefix url value_of E C) s"
proof (rule wp_mono [OF run])
  fix r s'
  assume post: "lookup_post prefix url value_of result_of says E C (repo_name owner repo) s r s'"
  have grown: "set (history s) \<subseteq> set (history s')" using post by (auto simp: lookup_post_def)
  show "backed prefix url value_of E C s'"
    unfolding backed_def
  proof (intro allI impI)
    fix name v x
    assume e: "redis s' (prefix @ name) = Some (v, x)"
    show "\<exists>n resp. (n, url C name, resp) \<in> set (history s') \<and> value_of resp = Some v \<and> x = expiry E C n"
    proof (cases "redis s (prefix @ name) = Some (v, x)")
      case True
      with assms grown show ?thesis unfolding backed_def by blast
    next
      case False
      with e post show ?thesis unfolding lookup_post_def by (auto split: if_splits) blast
    qed
  qed
qed

lemma other_backed:
  assumes "backed prefix' url' value' E C s" and "\<And>name name'. prefix' @ name' \<noteq> prefix @ name"
  shows "wp (lookup E C owner repo) (\<lambda>_. backed prefix' url' value' E C) s"
proof (rule wp_mono [OF run])
  fix r s'
  assume post: "lookup_post prefix url value_of result_of says E C (repo_name owner repo) s r s'"
  have grown: "set (history s) \<subseteq> set (history s')" using post by (auto simp: lookup_post_def)
  have "redis s' = redis s \<or> (\<exists>name e. redis s' = (redis s)(prefix @ name \<mapsto> e))"
    using post unfolding lookup_post_def by blast
  then have "redis s' (prefix' @ name) = redis s (prefix' @ name)" for name
    using assms(2) by (elim disjE exE) simp_all
  then show "backed prefix' url' value' E C s'" using assms(1) grown unfolding backed_def by (simp add: subset_iff) blast
qed

text \<open>Every result that is not an error of the call itself goes back to an answer, not older than the entry may be.\<close>

lemma result_backed:
  assumes "backed prefix url value_of E C s"
  shows "wp (lookup E C owner repo) (\<lambda>r s'. isl r \<and> redis s' = redis s \<or>
     (\<exists>n resp v. (n, url C (repo_name owner repo), resp) \<in> set (history s') \<and> value_of resp = Some v \<and> result_of C v = Some r \<and>
        (nreq s \<le> n \<or> cl_cache C \<and> (0 < cl_ttl C \<longrightarrow> env_clock E (nreq s) < env_clock E (Suc n) + cl_ttl C)))) s"
proof (rule wp_mono [OF run])
  fix r s'
  assume post: "lookup_post prefix url value_of result_of says E C (repo_name owner repo) s r s'"
  show "isl r \<and> redis s' = redis s \<or>
     (\<exists>n resp v. (n, url C (repo_name owner repo), resp) \<in> set (history s') \<and> value_of resp = Some v \<and> result_of C v = Some r \<and>
        (nreq s \<le> n \<or> cl_cache C \<and> (0 < cl_ttl C \<longrightarrow> env_clock E (nreq s) < env_clock E (Suc n) + cl_ttl C)))"
    using post unfolding lookup_post_def
  proof (elim disjE exE conjE)
    fix v
    assume hit: "cl_cache C" "live (env_clock E (nreq s)) (redis s (prefix @ repo_name owner repo)) = Some v"
      "result_of C v = Some r" "history s' = history s"
    then obtain x where x: "redis s (prefix @ repo_name owner repo) = Some (v, x)"
      "case x of None \<Rightarrow> True | Some t \<Rightarrow> env_clock E (nreq s) < t"
      by (auto simp: live_def split: option.splits if_splits)
    with assms obtain n resp where "(n, url C (repo_name owner repo), resp) \<in> set (history s)" "value_of resp = Some v"
      "x = expiry E C n" unfolding backed_def by blast
    with hit x(2) show ?thesis by (auto simp: expiry_def)
  qed auto
qed

text \<open>Against a server whose answers depend on the request only, the cache does not show.\<close>

lemma result_says: "value_of resp = Some v \<Longrightarrow> result_of C v = Some r \<Longrightarrow> \<exists>t. r = says t resp"
  using value_says [of resp v C 0] by auto

lemma result_of_server:
  assumes "backed prefix url value_of E C s" and "\<forall>(n, u, resp) \<in> set (history s). resp = srv u"
    and "\<forall>n u h. http_Do C n (u, h) = Inr (srv u)" and "\<forall>u. http_NewRequest C u = None"
  shows "wp (lookup E C owner repo) (\<lambda>r _. \<exists>t. r = says t (srv (url C (repo_name owner repo)))) s"
proof (rule wp_mono [OF run])
  fix r s'
  assume post: "lookup_post prefix url value_of result_of says E C (repo_name owner repo) s r s'"
  show "\<exists>t. r = says t (srv (url C (repo_name owner repo)))"
    using post unfolding lookup_post_def
  proof (elim disjE exE conjE)
    fix v
    assume hit: "live (env_clock E (nreq s)) (redis s (prefix @ repo_name owner repo)) = Some v" "result_of C v = Some r"
    then obtain x where "redis s (prefix @ repo_name owner repo) = Some (v, x)"
      by (auto simp: live_def split: option.splits if_splits)
    with assms(1) obtain n resp where "(n, url C (repo_name owner repo), resp) \<in> set (history s)" "value_of resp = Some v"
      unfolding backed_def by blast
    with assms(2) hit(2) result_says [of resp v C r] show ?thesis by auto
  qed (use assms(3,4) result_says in \<open>auto simp: replied_def unreachable_def\<close>)
qed

lemma transparent:
  assumes "backed prefix url value_of E C s" and "backed prefix url value_of E C' s" and "url C' = url C"
    and "\<forall>(n, u, resp) \<in> set (history s). resp = srv u"
    and "\<forall>n u h. http_Do C n (u, h) = Inr (srv u)" and "\<forall>u. http_NewRequest C u = None"
    and "http_Do C' = http_Do C" and "http_NewRequest C' = http_NewRequest C"
  shows "same_outcome (fst (run_state (lookup E C owner repo) s)) (fst (run_state (lookup E C' owner repo) s))"
proof -
  have "wp (lookup E C owner repo) (\<lambda>r _. \<exists>t. r = says t (srv (url C (repo_name owner repo)))) s"
    by (rule result_of_server) (use assms in auto)
  moreover have "wp (lookup E C' owner repo) (\<lambda>r _. \<exists>t. r = says t (srv (url C (repo_name owner repo)))) s"
    using result_of_server [of E C' s srv owner repo] assms by simp
  ultimately show ?thesis using same_says by (auto simp: wp_def split: prod.splits)
qed

end

lemma wp_redis_Get:
  assumes "\<And>e. Q (Inl e) (s\<lparr>nreq := Suc (nreq s)\<rparr>)"
    and "Q (Inr (live (env_clock E (nreq s)) (redis s key))) (s\<lparr>nreq := Suc (nreq s)\<rparr>)"
  shows "wp (redis_Get E key) Q s"
  using assms by (auto simp: redis_Get_def wp_simps Let_def split: fault.splits)

lemma wp_cacheString:
  assumes "nreq s = Suc n"
    and "\<And>s'. history s' = history s \<Longrightarrow> redis s' = redis s \<or> redis s' = (redis s)(key \<mapsto> (v, expiry E C n)) \<Longrightarrow> Q () s'"
  shows "wp (cacheString E C key v) Q s"
  using assms by (auto simp: cacheString_def redis_Set_def wp_simps Let_def expiry_def split: fault.splits)

lemma wp_client_do:
  assumes unsent: "\<And>e s'. redis s' = redis s \<Longrightarrow> history s' = history s \<Longrightarrow> unreachable C url \<Longrightarrow> Q (Inl e) s'"
    and refused: "\<And>e resp s'. replied C (nreq s) url resp \<Longrightarrow> redis s' = redis s \<Longrightarrow> history s' = history s @ [(nreq s, url, resp)] \<Longrightarrow>
      classify (env_clock E (nreq s)) resp = Inl e \<Longrightarrow> answer_of resp = None \<Longrightarrow> Q (Inl e) s'"
    and answered: "\<And>status body resp s'. replied C (nreq s) url resp \<Longrightarrow> redis s' = redis s \<Longrightarrow> history s' = history s @ [(nreq s, url, resp)] \<Longrightarrow>
      classify (env_clock E (nreq s)) resp = Inr (status, body) \<Longrightarrow> answer_of resp = Some (status, body) \<Longrightarrow>
      nreq s' = Suc (nreq s) \<Longrightarrow> Q (Inr (status, body)) s'"
  shows "wp (client_do E C url) Q s"
proof -
  have "Q (classify (env_clock E (nreq s)) resp) (s\<lparr>nreq := Suc (nreq s), history := history s @ [(nreq s, url, resp)]\<rparr>)"
    if "replied C (nreq s) url resp" for resp
    using that answer_classify [of resp "env_clock E (nreq s)"]
    by (cases "classify (env_clock E (nreq s)) resp") (auto intro!: refused answered)
  then show ?thesis
    by (auto simp: client_do_def wp_simps Let_def unreachable_def replied_def intro!: unsent split: option.splits sum.splits)
      (metis sum.disc(1))
qed

definition exists_url :: "client \<Rightarrow> string \<Rightarrow> string" where
  "exists_url C name = cl_baseURL C @ ''/repos/'' @ name"

definition latest_url :: "client \<Rightarrow> string \<Rightarrow> string" where
  "latest_url C name = exists_url C name @ ''/releases/latest''"

lemma url_simps:
  "repo_url C owner repo = exists_url C (repo_name owner repo)"
  "release_url C owner repo = latest_url C (repo_name owner repo)"
  by (simp_all add: repo_url_def release_url_def exists_url_def latest_url_def repo_name_def)

lemma wp_fetch_exists:
  assumes n: "nreq s0 \<le> nreq s" and same: "redis s = redis s0" "history s = history s0" and name: "name = repo_name owner repo"
  shows "wp (fetch_exists E C (keyPrefixExists @ name) owner repo)
    (lookup_post keyPrefixExists exists_url exists_value exists_result exists_says E C name s0) s"
  unfolding fetch_exists_def wp_bindE sum.case url_simps name [symmetric]
proof (rule wp_client_do, goal_cases)
  case (3 status body resp s')
  then show ?case
    using assms
    by (auto simp: lookup_post_def exists_value_def exists_result_def exists_says_def cacheTrue_def cacheFalse_def wp_simps
        intro!: wp_cacheString)
qed (use assms in \<open>auto simp: lookup_post_def exists_value_def exists_says_def\<close>)

interpretation exists_lookup: read_through keyPrefixExists exists_url exists_value exists_result exists_says RepoExists
proof
  show "exists_value resp = Some v \<Longrightarrow> exists_result C v = Some (exists_says t resp)" for resp v C t
    by (rule says_value)
  show "same_outcome (exists_says t resp) (exists_says t' resp)" for t resp t' by (rule says_same)
  fix E C owner repo s
  let ?name = "repo_name owner repo"
  have fetch: "wp (fetch_exists E C (keyPrefixExists @ ?name) owner repo)
      (lookup_post keyPrefixExists exists_url exists_value exists_result exists_says E C ?name s) (s\<lparr>nreq := n\<rparr>)" if "nreq s \<le> n" for n
    by (rule wp_fetch_exists) (use that in auto)
  have plain: "wp (fetch_exists E C (keyPrefixExists @ ?name) owner repo)
      (lookup_post keyPrefixExists exists_url exists_value exists_result exists_says E C ?name s) s"
    by (rule wp_fetch_exists) auto
  show "wp (RepoExists E C owner repo) (lookup_post keyPrefixExists exists_url exists_value exists_result exists_says E C ?name s) s"
    unfolding RepoExists_def Let_def repo_name_def [symmetric] append_assoc
    by (auto simp: wp_bind plain fetch intro!: wp_redis_Get split: option.splits)
      (auto simp: lookup_post_def exists_result_def wp_simps)
qed

lemma wp_fetch_release:
  assumes n: "nreq s0 \<le> nreq s" and same: "redis s = redis s0" "history s = history s0" and name: "name = repo_name owner repo"
  shows "wp (fetch_release E C (keyPrefixRelease @ name) owner repo)
    (lookup_post keyPrefixRelease latest_url release_value release_result release_says E C name s0) s"
proof -
  have none: "release_result C (Text cacheNoRelease) = Some (Inl (Sentinel ErrNoRelease))"
    by (simp add: release_result_def)
  show ?thesis
    unfolding fetch_release_def wp_bindE sum.case url_simps name [symmetric]
  proof (rule wp_client_do, goal_cases)
    case (3 status body resp s')
    then show ?case
      using assms
      by (auto simp: lookup_post_def release_value_def none release_says_def parseAndCacheRelease_def wp_simps
          intro!: wp_cacheString split: sum.splits)
  qed (use assms in \<open>auto simp: lookup_post_def release_value_def release_says_def\<close>)
qed

interpretation release_lookup: read_through keyPrefixRelease latest_url release_value release_result release_says GetLatestRelease
proof
  show "release_value resp = Some v \<Longrightarrow> release_result C v = Some (release_says t resp)" for resp v C t
    by (rule says_value)
  show "same_outcome (release_says t resp) (release_says t' resp)" for t resp t' by (rule says_same)
  fix E C owner repo and s :: net
  let ?name = "repo_name owner repo"
  let ?post = "lookup_post keyPrefixRelease latest_url release_value release_result release_says E C ?name s"
  have fetch: "wp (fetch_release E C (keyPrefixRelease @ ?name) owner repo) ?post (s\<lparr>nreq := n\<rparr>)" if "nreq s \<le> n" for n
    by (rule wp_fetch_release) (use that in auto)
  have plain: "wp (fetch_release E C (keyPrefixRelease @ ?name) owner repo) ?post s"
    by (rule wp_fetch_release) auto
  have hit: "?post r (s\<lparr>nreq := n\<rparr>)" if "cl_cache C" "live (env_clock E (nreq s)) (redis s (keyPrefixRelease @ ?name)) = Some v"
      "release_result C v = Some r" for r v n
    using that by (auto simp: lookup_post_def)
  have served: "(if v = Text cacheNoRelease then Some (Inl (Sentinel ErrNoRelease))
      else case decode_Release (stored_json C v) of Inl e \<Rightarrow> None | Inr rel \<Rightarrow> Some (Inr rel)) = release_result C v" for v
    by (simp add: release_result_def)
  show "wp (GetLatestRelease E C owner repo) ?post s"
    unfolding GetLatestRelease_def getCachedRelease_def Let_def repo_name_def [symmetric] append_assoc served
    by (auto simp: wp_simps plain fetch hit intro!: wp_redis_Get split: option.splits)
qed

section \<open>The properties of the client\<close>

definition cache_backed :: "env \<Rightarrow> client \<Rightarrow> net \<Rightarrow> bool" where
  "cache_backed E C s \<longleftrightarrow> backed keyPrefixExists exists_url exists_value E C s \<and>
     backed keyPrefixRelease latest_url release_value E C s"

lemma key_prefixes: "keyPrefixExists @ a \<noteq> keyPrefixRelease @ b" "keyPrefixRelease @ a \<noteq> keyPrefixExists @ b"
  by (simp_all add: keyPrefixExists_def keyPrefixRelease_def)

lemma cache_backed_kept:
  assumes "cache_backed E C s"
  shows "wp (RepoExists E C owner repo) (\<lambda>_. cache_backed E C) s"
    and "wp (GetLatestRelease E C owner repo) (\<lambda>_. cache_backed E C) s"
  using assms unfolding cache_backed_def wp_conj
  by (auto intro: exists_lookup.backed_kept exists_lookup.other_backed release_lookup.backed_kept release_lookup.other_backed
      dest: key_prefixes [THEN notE])

lemma exists_value_status:
  "exists_value resp = Some v \<Longrightarrow> exists_result C v = Some (Inr b) \<Longrightarrow> StatusCode resp = (if b then 200 else 404)"
  by (auto simp: exists_value_def exists_result_def answer_of_def cacheTrue_def cacheFalse_def
      split: option.splits if_splits sum.splits)

lemma release_value_body:
  "release_value resp = Some v \<Longrightarrow> release_result C v = Some (Inr rel) \<Longrightarrow>
     StatusCode resp = 200 \<and> (\<exists>body. Body resp = Inr body \<and> decode_githubRelease body = Inr rel)"
  by (auto simp: release_value_def answer_of_def release_result_def stored_json_def release_roundtrip
      split: option.splits if_splits sum.splits)

text \<open>
  \<^bold>\<open>C38.\<close> What the GitHub client returns, GitHub has said (\<open>github.go\<close> with \<open>cache.go\<close>), under any failures of
  Redis and of the network: a verdict on a repository or a release comes from an answer to the
  request for that very repository, with status 200 or 404, or with status 200 and a body that decodes
  to the release; the answer was given in this call, or it is cached and its time to live, counted from
  when it was stored, is not over. The cache holds nothing but such answers.
\<close>

theorem github_answers_backed:
  assumes "cache_backed E C s"
  shows "(run_state (RepoExists E C owner repo) s = (r1, s') \<longrightarrow> cache_backed E C s' \<and> (\<forall>b. r1 = Inr b \<longrightarrow>
      (\<exists>n resp. (n, repo_url C owner repo, resp) \<in> set (history s') \<and> StatusCode resp = (if b then 200 else 404) \<and>
        (nreq s \<le> n \<or> cl_cache C \<and> (0 < cl_ttl C \<longrightarrow> env_clock E (nreq s) < env_clock E (Suc n) + cl_ttl C))))) \<and>
    (run_state (GetLatestRelease E C owner repo) s = (r2, s') \<longrightarrow> cache_backed E C s' \<and> (\<forall>rel. r2 = Inr rel \<longrightarrow>
      (\<exists>n resp body. (n, release_url C owner repo, resp) \<in> set (history s') \<and> StatusCode resp = 200 \<and>
        Body resp = Inr body \<and> decode_githubRelease body = Inr rel \<and>
        (nreq s \<le> n \<or> cl_cache C \<and> (0 < cl_ttl C \<longrightarrow> env_clock E (nreq s) < env_clock E (Suc n) + cl_ttl C)))))"
proof (intro conjI impI allI)
  assume run: "run_state (RepoExists E C owner repo) s = (r1, s')"
  show "cache_backed E C s'" by (rule wpD [OF cache_backed_kept(1) [OF assms] run])
  fix b
  assume "r1 = Inr b"
  with wpD [OF exists_lookup.result_backed run] assms obtain n resp v where
    "(n, exists_url C (repo_name owner repo), resp) \<in> set (history s')" "exists_value resp = Some v" "exists_result C v = Some (Inr b)"
    "nreq s \<le> n \<or> cl_cache C \<and> (0 < cl_ttl C \<longrightarrow> env_clock E (nreq s) < env_clock E (Suc n) + cl_ttl C)"
    unfolding cache_backed_def by auto
  then show "\<exists>n resp. (n, repo_url C owner repo, resp) \<in> set (history s') \<and> StatusCode resp = (if b then 200 else 404) \<and>
      (nreq s \<le> n \<or> cl_cache C \<and> (0 < cl_ttl C \<longrightarrow> env_clock E (nreq s) < env_clock E (Suc n) + cl_ttl C))"
    using exists_value_status [of resp v C b] unfolding url_simps by blast
next
  assume run: "run_state (GetLatestRelease E C owner repo) s = (r2, s')"
  show "cache_backed E C s'" by (rule wpD [OF cache_backed_kept(2) [OF assms] run])
  fix rel
  assume "r2 = Inr rel"
  with wpD [OF release_lookup.result_backed run] assms obtain n resp v where
    "(n, latest_url C (repo_name owner repo), resp) \<in> set (history s')" "release_value resp = Some v" "release_result C v = Some (Inr rel)"
    "nreq s \<le> n \<or> cl_cache C \<and> (0 < cl_ttl C \<longrightarrow> env_clock E (nreq s) < env_clock E (Suc n) + cl_ttl C)"
    unfolding cache_backed_def by auto
  then show "\<exists>n resp body. (n, release_url C owner repo, resp) \<in> set (history s') \<and> StatusCode resp = 200 \<and>
      Body resp = Inr body \<and> decode_githubRelease body = Inr rel \<and>
      (nreq s \<le> n \<or> cl_cache C \<and> (0 < cl_ttl C \<longrightarrow> env_clock E (nreq s) < env_clock E (Suc n) + cl_ttl C))"
    using release_value_body [of resp v C rel] unfolding url_simps by blast
qed

definition demo_response :: "string \<Rightarrow> http_response" where
  "demo_response url = \<lparr>StatusCode = 200, Headers = (\<lambda>_. ''''),
     Body = Inr (Doc (JObj [(''id'', JInt 7), (''tag_name'', JStr ''v2''), (''html_url'', JStr ''https:u'')]))\<rparr>"

definition demo_client :: client where
  "demo_client = \<lparr>cl_token = [], cl_baseURL = ''https:g'', cl_cache = True, cl_ttl = 600, http_NewRequest = (\<lambda>_. None),
     http_Do = (\<lambda>n (url, h). Inr (demo_response url)), text_json = (\<lambda>_. Garbage)\<rparr>"

definition demo_net :: net where
  "demo_net = \<lparr>redis = (\<lambda>_. None), nreq = 0, history = []\<rparr>"

lemma demo_net_backed: "cache_backed E C demo_net"
  by (simp add: cache_backed_def backed_def demo_net_def)

lemmas client_run_simps =
  GetLatestRelease_def getCachedRelease_def fetch_release_def client_do_def redis_Get_def redis_Set_def cacheString_def
  classify_def isRateLimited_def parseAndCacheRelease_def decode_githubRelease_def member_index_def release_of_def live_def
  demo_client_def demo_response_def demo_net_def bindE_def Let_def

theorem github_answers_backed_witness:
  "\<exists>n resp body. (n, release_url demo_client ''a'' ''b'', resp) \<in>
     set (history (snd (run_state (GetLatestRelease calm_env demo_client ''a'' ''b'') demo_net))) \<and>
     StatusCode resp = 200 \<and> Body resp = Inr body \<and> decode_githubRelease body = Inr \<lparr>TagName = ''v2'', HTMLURL = ''https:u''\<rparr>"
proof -
  have "fst (run_state (GetLatestRelease calm_env demo_client ''a'' ''b'') demo_net) = Inr \<lparr>TagName = ''v2'', HTMLURL = ''https:u''\<rparr>"
    by (simp add: client_run_simps)
  then show ?thesis
    using github_answers_backed [OF demo_net_backed, of calm_env demo_client "''a''" "''b''" _
        "snd (run_state (GetLatestRelease calm_env demo_client ''a'' ''b'') demo_net)"
        "fst (run_state (GetLatestRelease calm_env demo_client ''a'' ''b'') demo_net)"]
    by (simp add: prod_eq_iff) blast
qed

text \<open>
  \<^bold>\<open>C39.\<close> The cache does not show (\<open>github.go\<close>): against a server whose answers depend on the request only,
  and starting from a cache that holds its answers, the client with the cache returns what the client
  without a cache returns: the same verdict, the same release, or an error of the same class,
  whatever fails in Redis and whatever has expired.
\<close>

theorem github_cache_transparent:
  assumes "cache_backed E C s" and "\<forall>(n, url, resp) \<in> set (history s). resp = srv url"
    and "\<forall>n url h. http_Do C n (url, h) = Inr (srv url)" and "\<forall>url. http_NewRequest C url = None"
  shows "same_outcome (fst (run_state (RepoExists E C owner repo) s))
      (fst (run_state (RepoExists E (C\<lparr>cl_cache := False\<rparr>) owner repo) s)) \<and>
    same_outcome (fst (run_state (GetLatestRelease E C owner repo) s))
      (fst (run_state (GetLatestRelease E (C\<lparr>cl_cache := False\<rparr>) owner repo) s))"
proof -
  let ?C = "C\<lparr>cl_cache := False\<rparr>"
  have urls: "exists_url ?C = exists_url C" "latest_url ?C = latest_url C"
    by (simp_all add: exists_url_def latest_url_def fun_eq_iff)
  have "expiry E ?C = expiry E C" by (simp add: expiry_def fun_eq_iff)
  with assms(1) have "cache_backed E ?C s" by (simp add: cache_backed_def backed_def urls)
  with assms urls show ?thesis
    by (auto simp: cache_backed_def intro!: exists_lookup.transparent [where srv = srv] release_lookup.transparent [where srv = srv])
qed

theorem github_cache_transparent_witness:
  "same_outcome (fst (run_state (GetLatestRelease (faulty_env [(0, Fails ''redis'')]) demo_client ''a'' ''b'') demo_net))
     (fst (run_state (GetLatestRelease (faulty_env [(0, Fails ''redis'')]) (demo_client\<lparr>cl_cache := False\<rparr>) ''a'' ''b'') demo_net))"
  using github_cache_transparent [OF demo_net_backed, of demo_response demo_client "faulty_env [(0, Fails ''redis'')]" "''a''" "''b''"]
  by (simp add: demo_client_def demo_net_def)

lemma digits_value_append: "digits_value (ds @ [c]) = 10 * digits_value ds + (of_char c - 48)"
  by (simp add: digits_value_def)

lemma digit_char: "n < 10 \<Longrightarrow> digit (char_of (48 + n)) \<and> of_char (char_of (48 + n) :: char) - 48 = int n"
  for n :: nat
proof -
  assume "n < 10"
  then have "n \<in> {0, 1, 2, 3, 4, 5, 6, 7, 8, 9}" by auto
  then show ?thesis by (auto simp: digit_def char_between_def char_of_def bit_0)
qed

lemma decimal_digits: "list_all digit (decimal n) \<and> digits_value (decimal n) = int n \<and> decimal n \<noteq> []"
proof (induction n rule: less_induct)
  case (less n)
  have d: "n mod 10 < 10" by simp
  have "n = 10 * (n div 10) + n mod 10" by simp
  then have split: "int n = 10 * int (n div 10) + int (n mod 10)" by (metis of_nat_add of_nat_mult of_nat_numeral)
  show ?case
  proof (cases "n < 10")
    case True
    then show ?thesis using digit_char [OF True] by (simp add: decimal.simps [of n] digits_value_def)
  next
    case False
    with less.IH [of "n div 10"] show ?thesis
      using digit_char [OF d] split by (simp add: decimal.simps [of n] digits_value_append)
  qed
qed

lemma digit_sign: "digit c \<Longrightarrow> c \<noteq> CHR ''-'' \<and> c \<noteq> CHR ''+''"
  by (auto simp: digit_def char_between_def)

lemma Atoi_decimal: "Atoi (decimal n) = (if int n < 2 ^ 63 then Some (int n) else None)"
proof -
  obtain c cs where ds: "decimal n = c # cs" using decimal_digits [of n] by (cases "decimal n") auto
  then have "c \<noteq> CHR ''-''" "c \<noteq> CHR ''+''" using decimal_digits [of n] digit_sign [of c] by auto
  then show ?thesis
    using decimal_digits [of n] by (simp add: Atoi_def ds in_int64_def)
qed

lemma wrap64_id: "- (2 ^ 63) \<le> n \<Longrightarrow> n < 2 ^ 63 \<Longrightarrow> wrap64 n = n"
  unfolding wrap64_def by (simp add: sint_sbintrunc' signed_take_bit_int_eq_self)

text \<open>
  Errors of GitHub are told apart and never cached (\<open>do\<close>, \<open>isRateLimited\<close> in \<open>github.go\<close>): a readable
  response gives \<open>ErrUnauthorized\<close> exactly for status 401 and \<open>ErrRateLimited\<close> exactly for status 429, or
  403 with no requests remaining; every other status reaches the caller with the body. A lookup that
  returns an error leaves the cache as it was, except that the absence of releases is remembered.
\<close>

theorem github_errors:
  shows "(http_NewRequest C url = None \<and> http_Do C (nreq s) (url, request_headers C) = Inr resp \<and> Body resp = Inr body \<and>
      run_state (client_do E C url) s = (r, s') \<longrightarrow>
      (StatusCode resp = 401 \<longrightarrow> r = Inl (Sentinel ErrUnauthorized)) \<and>
      ((\<exists>e. r = Inl e \<and> errors_Is e ErrRateLimited) \<longleftrightarrow>
        StatusCode resp = 429 \<or> StatusCode resp = 403 \<and> Headers resp ''X-RateLimit-Remaining'' = ''0'') \<and>
      (StatusCode resp \<notin> {401, 403, 429} \<longrightarrow> r = Inr (StatusCode resp, body))) \<and>
    (run_state (RepoExists E C owner repo) s = (Inl e1, s') \<longrightarrow> redis s' = redis s) \<and>
    (run_state (GetLatestRelease E C owner repo) s = (Inl e2, s') \<and> \<not> errors_Is e2 ErrNoRelease \<longrightarrow> redis s' = redis s)"
proof (intro conjI impI)
  assume "run_state (RepoExists E C owner repo) s = (Inl e1, s')"
  from wpD [OF exists_lookup.run this] show "redis s' = redis s"
    by (auto simp: lookup_post_def exists_result_def)
next
  assume a: "run_state (GetLatestRelease E C owner repo) s = (Inl e2, s') \<and> \<not> errors_Is e2 ErrNoRelease"
  have "release_result C v \<noteq> Some (Inl e2)" for v
    using a by (auto simp: release_result_def split: if_splits sum.splits)
  with wpD [OF release_lookup.run a [THEN conjunct1]] show "redis s' = redis s"
    by (auto simp: lookup_post_def)
qed (auto simp: client_do_def Let_def classify_def isRateLimited_def split: if_splits)

theorem github_errors_witness:
  "redis (snd (run_state (GetLatestRelease calm_env
     (demo_client\<lparr>http_Do := (\<lambda>n r. Inr \<lparr>StatusCode = 429, Headers = (\<lambda>_. ''''), Body = Inr Garbage\<rparr>)\<rparr>) ''a'' ''b'') demo_net)) =
   redis demo_net"
proof -
  let ?C = "demo_client\<lparr>http_Do := (\<lambda>n r. Inr \<lparr>StatusCode = 429, Headers = (\<lambda>_. ''''), Body = Inr Garbage\<rparr>)\<rparr>"
  have "\<exists>e. fst (run_state (GetLatestRelease calm_env ?C ''a'' ''b'') demo_net) = Inl e \<and> \<not> errors_Is e ErrNoRelease"
    by (simp add: client_run_simps)
  then obtain e where e: "run_state (GetLatestRelease calm_env ?C ''a'' ''b'') demo_net =
      (Inl e, snd (run_state (GetLatestRelease calm_env ?C ''a'' ''b'') demo_net))" "\<not> errors_Is e ErrNoRelease"
    by (metis prod.collapse)
  then show ?thesis
    using github_errors [of ?C undefined demo_net undefined undefined calm_env undefined _ "''a''" "''b''" undefined e] by blast
qed

text \<open>
  \<open>parseRetryAfter\<close> reads what GitHub sends: a \<open>Retry-After\<close> of \<open>n\<close> seconds is \<open>n\<close> seconds as long as that
  fits a \<open>time.Duration\<close>; without it, a reset time in the future is the time until then, and otherwise
  the default of one minute applies. \<open>Retry-After\<close> wins over the reset time.
\<close>

theorem retry_after:
  "(Headers resp ''Retry-After'' = decimal n \<and> int n * second < 2 ^ 63 \<longrightarrow> parseRetryAfter now resp = int n * second) \<and>
   (Headers resp ''Retry-After'' = [] \<and> Headers resp ''X-RateLimit-Reset'' = decimal u \<and> int u * second < 2 ^ 63 \<and>
      0 \<le> now \<longrightarrow>
      parseRetryAfter now resp = (if now < int u * second then int u * second - now else 60 * second)) \<and>
   (Headers resp ''Retry-After'' = [] \<and> Headers resp ''X-RateLimit-Reset'' = [] \<longrightarrow>
      parseRetryAfter now resp = 60 * second)"
proof -
  have nonempty: "decimal k \<noteq> []" for k using decimal_digits by blast
  have small: "int k < 2 ^ 63" if "int k * second < 2 ^ 63" for k
    using that by (simp add: second_def)
  have until: "until_unix now (int u) = int u * second - now" if "int u * second < 2 ^ 63" "0 \<le> now" "now < int u * second"
  proof -
    have "wrap64 (int u + 62135596800) = int u + 62135596800"
      using that(1) by (intro wrap64_id) (simp_all add: second_def)
    then show ?thesis using that by (simp add: until_unix_def)
  qed
  have past: "until_unix now (int u) \<le> 0" if "int u * second < 2 ^ 63" "0 \<le> now" "\<not> now < int u * second"
  proof -
    have "wrap64 (int u + 62135596800) = int u + 62135596800"
      using that(1) by (intro wrap64_id) (simp_all add: second_def)
    then show ?thesis using that by (simp add: until_unix_def)
  qed
  show ?thesis
    using nonempty small until past
    by (auto simp: parseRetryAfter_def Atoi_decimal defaultRetryAfter_def wrap64_id second_def)
qed

theorem retry_after_witness:
  "parseRetryAfter 0 \<lparr>StatusCode = 429, Headers = (\<lambda>h. if h = ''Retry-After'' then decimal 7 else []), Body = Inr Garbage\<rparr> =
     7 * second"
  using retry_after [of "\<lparr>StatusCode = 429, Headers = (\<lambda>h. if h = ''Retry-After'' then decimal 7 else []), Body = Inr Garbage\<rparr>" 7 0 0]
  by (simp add: second_def)

end
