(* ===== verification/Config.thy ===== *)
theory Config
  imports Github
begin

text \<open>
  The configuration of the services (\<open>internal/infrastructure/config\<close>): the structs with the tags of their
  fields, and the functions that load them. The package \<open>envconfig\<close>, which reads the tags, is the argument \<open>process\<close>,
  with what its documentation promises stated by \<open>envconfig_documented\<close>.
\<close>

section \<open>Fields and their tags\<close>

datatype setting_kind = KindString | KindInt | KindDuration

datatype setting = SString string | SInt int | SDuration duration

primrec as_string :: "setting \<Rightarrow> string" where
  "as_string (SString s) = s"
| "as_string (SInt n) = ''''"
| "as_string (SDuration d) = ''''"

primrec as_int :: "setting \<Rightarrow> int" where
  "as_int (SString s) = 0"
| "as_int (SInt n) = n"
| "as_int (SDuration d) = 0"

primrec as_duration :: "setting \<Rightarrow> duration" where
  "as_duration (SString s) = 0"
| "as_duration (SInt n) = 0"
| "as_duration (SDuration d) = d"

primrec zero_setting :: "setting_kind \<Rightarrow> setting" where
  "zero_setting KindString = SString ''''"
| "zero_setting KindInt = SInt 0"
| "zero_setting KindDuration = SDuration 0"

text \<open>A field: the struct it is nested in, the tags \<open>envconfig\<close>, \<open>default\<close> and \<open>required\<close>, and its type.\<close>

record env_field =
  fld_outer :: "string option"
  fld_key :: string
  fld_kind :: setting_kind
  fld_default :: "string option"
  fld_required :: bool

abbreviation optional :: "string \<Rightarrow> setting_kind \<Rightarrow> string \<Rightarrow> env_field" where
  "optional key k def \<equiv>
     \<lparr>fld_outer = None, fld_key = key, fld_kind = k, fld_default = Some def, fld_required = False\<rparr>"

abbreviation unset :: "string \<Rightarrow> env_field" where
  "unset key \<equiv> \<lparr>fld_outer = None, fld_key = key, fld_kind = KindString, fld_default = None, fld_required = False\<rparr>"

abbreviation required :: "string \<Rightarrow> env_field" where
  "required key \<equiv> \<lparr>fld_outer = None, fld_key = key, fld_kind = KindString, fld_default = None, fld_required = True\<rparr>"

section \<open>The structs\<close>

record SubscriptionConfig =
  sub_Port :: string
  sub_BaseURL :: string
  sub_GitHubToken :: string
  sub_DatabaseURL :: string
  sub_RedisURL :: string
  sub_NATSURL :: string
  sub_JWTSecret :: string
  sub_ConfirmTokenTTL :: duration
  sub_PendingCleanupInterval :: duration
  sub_APIKey :: string
  sub_LogLevel :: string
  sub_GRPCPort :: string

definition SubscriptionConfig_fields :: "env_field list" where
  "SubscriptionConfig_fields =
     [optional ''SUBSCRIPTION_PORT'' KindString ''8080'',
      optional ''BASE_URL'' KindString ''http://localhost:8080'',
      unset ''GITHUB_TOKEN'',
      required ''DATABASE_URL'',
      required ''REDIS_URL'',
      optional ''NATS_URL'' KindString ''nats://localhost:4222'',
      required ''JWT_SECRET'',
      optional ''CONFIRM_TOKEN_TTL'' KindDuration ''24h'',
      optional ''PENDING_CLEANUP_INTERVAL'' KindDuration ''24h'',
      unset ''API_KEY'',
      optional ''LOG_LEVEL'' KindString ''info'',
      optional ''SUBSCRIPTION_GRPC_PORT'' KindString ''50052'']"

record ScannerConfig =
  scan_Port :: string
  scan_GitHubToken :: string
  scan_WorkerCount :: int
  scan_ScanInterval :: duration
  scan_RedisURL :: string
  scan_DatabaseURL :: string
  scan_NATSURL :: string
  scan_LogLevel :: string

definition ScannerConfig_fields :: "env_field list" where
  "ScannerConfig_fields =
     [optional ''SCANNER_PORT'' KindString ''8082'',
      unset ''GITHUB_TOKEN'',
      optional ''SCAN_WORKERS'' KindInt ''5'',
      optional ''SCAN_INTERVAL'' KindDuration ''10m'',
      required ''REDIS_URL'',
      required ''DATABASE_URL'',
      optional ''NATS_URL'' KindString ''nats://localhost:4222'',
      optional ''LOG_LEVEL'' KindString ''info'']"

record SMTPConfig =
  smtp_Host :: string
  smtp_Port :: int
  smtp_User :: string
  smtp_Password :: string
  smtp_FromEmail :: string

definition SMTPConfig_fields :: "env_field list" where
  "SMTPConfig_fields =
     map (\<lambda>f. f\<lparr>fld_outer := Some ''SMTP''\<rparr>)
       [required ''SMTP_HOST'', optional ''SMTP_PORT'' KindInt ''587'', required ''SMTP_USER'',
        required ''SMTP_PASSWORD'', required ''SMTP_FROM'']"

record NotifierConfig =
  notif_Port :: string
  notif_NATSURL :: string
  notif_DatabaseURL :: string
  notif_BaseURL :: string
  notif_RetryInterval :: duration
  notif_MaxRetries :: int
  notif_ConfirmationTTL :: duration
  notif_ProcessedTTL :: duration
  notif_LogLevel :: string
  notif_SMTP :: SMTPConfig

definition NotifierConfig_fields :: "env_field list" where
  "NotifierConfig_fields =
     [optional ''NOTIFIER_PORT'' KindString ''8081'',
      optional ''NATS_URL'' KindString ''nats://localhost:4222'',
      required ''DATABASE_URL'',
      optional ''BASE_URL'' KindString ''http://localhost:8080'',
      optional ''RETRY_INTERVAL'' KindDuration ''15m'',
      optional ''MAX_RETRIES'' KindInt ''5'',
      optional ''CONFIRMATION_TTL'' KindDuration ''24h'',
      optional ''PROCESSED_RELEASE_TTL'' KindDuration ''720h'',
      optional ''LOG_LEVEL'' KindString ''info''] @ SMTPConfig_fields"

record SagaConfig =
  saga_Port :: string
  saga_NATSURL :: string
  saga_DatabaseURL :: string
  saga_LogLevel :: string
  saga_CompensateTransport :: string
  saga_SubscriptionGRPCAddr :: string

definition SagaConfig_fields :: "env_field list" where
  "SagaConfig_fields =
     [optional ''SAGA_PORT'' KindString ''8083'',
      optional ''NATS_URL'' KindString ''nats://localhost:4222'',
      required ''DATABASE_URL'',
      optional ''LOG_LEVEL'' KindString ''info'',
      optional ''SAGA_COMPENSATE_TRANSPORT'' KindString ''nats'',
      optional ''SUBSCRIPTION_GRPC_ADDR'' KindString ''localhost:50052'']"

section \<open>Loading\<close>

text \<open>\<open>os.LookupEnv\<close>, and \<open>envconfig.Process("", \<dots>)\<close>, which answers with the settings by their keys.\<close>

type_synonym environ = "string \<Rightarrow> string option"

type_synonym process = "env_field list \<Rightarrow> environ \<Rightarrow> error + (string \<Rightarrow> setting)"

definition load_with :: "string \<Rightarrow> env_field list \<Rightarrow> ((string \<Rightarrow> setting) \<Rightarrow> 'c) \<Rightarrow> process \<Rightarrow> environ \<Rightarrow> error + 'c" where
  "load_with msg fs build process environ =
     (case process fs environ of Inl e \<Rightarrow> Inl (Errorf msg e) | Inr v \<Rightarrow> Inr (build v))"

definition LoadSubscription :: "process \<Rightarrow> environ \<Rightarrow> error + SubscriptionConfig" where
  "LoadSubscription = load_with ''process config'' SubscriptionConfig_fields (\<lambda>v.
     \<lparr>sub_Port = as_string (v ''SUBSCRIPTION_PORT''),
      sub_BaseURL = as_string (v ''BASE_URL''),
      sub_GitHubToken = as_string (v ''GITHUB_TOKEN''),
      sub_DatabaseURL = as_string (v ''DATABASE_URL''),
      sub_RedisURL = as_string (v ''REDIS_URL''),
      sub_NATSURL = as_string (v ''NATS_URL''),
      sub_JWTSecret = as_string (v ''JWT_SECRET''),
      sub_ConfirmTokenTTL = as_duration (v ''CONFIRM_TOKEN_TTL''),
      sub_PendingCleanupInterval = as_duration (v ''PENDING_CLEANUP_INTERVAL''),
      sub_APIKey = as_string (v ''API_KEY''),
      sub_LogLevel = as_string (v ''LOG_LEVEL''),
      sub_GRPCPort = as_string (v ''SUBSCRIPTION_GRPC_PORT'')\<rparr>)"

definition LoadScanner :: "process \<Rightarrow> environ \<Rightarrow> error + ScannerConfig" where
  "LoadScanner = load_with ''process scanner config'' ScannerConfig_fields (\<lambda>v.
     \<lparr>scan_Port = as_string (v ''SCANNER_PORT''),
      scan_GitHubToken = as_string (v ''GITHUB_TOKEN''),
      scan_WorkerCount = as_int (v ''SCAN_WORKERS''),
      scan_ScanInterval = as_duration (v ''SCAN_INTERVAL''),
      scan_RedisURL = as_string (v ''REDIS_URL''),
      scan_DatabaseURL = as_string (v ''DATABASE_URL''),
      scan_NATSURL = as_string (v ''NATS_URL''),
      scan_LogLevel = as_string (v ''LOG_LEVEL'')\<rparr>)"

definition LoadNotifier :: "process \<Rightarrow> environ \<Rightarrow> error + NotifierConfig" where
  "LoadNotifier = load_with ''process notifier config'' NotifierConfig_fields (\<lambda>v.
     \<lparr>notif_Port = as_string (v ''NOTIFIER_PORT''),
      notif_NATSURL = as_string (v ''NATS_URL''),
      notif_DatabaseURL = as_string (v ''DATABASE_URL''),
      notif_BaseURL = as_string (v ''BASE_URL''),
      notif_RetryInterval = as_duration (v ''RETRY_INTERVAL''),
      notif_MaxRetries = as_int (v ''MAX_RETRIES''),
      notif_ConfirmationTTL = as_duration (v ''CONFIRMATION_TTL''),
      notif_ProcessedTTL = as_duration (v ''PROCESSED_RELEASE_TTL''),
      notif_LogLevel = as_string (v ''LOG_LEVEL''),
      notif_SMTP =
        \<lparr>smtp_Host = as_string (v ''SMTP_HOST''),
         smtp_Port = as_int (v ''SMTP_PORT''),
         smtp_User = as_string (v ''SMTP_USER''),
         smtp_Password = as_string (v ''SMTP_PASSWORD''),
         smtp_FromEmail = as_string (v ''SMTP_FROM'')\<rparr>\<rparr>)"

definition LoadSaga :: "process \<Rightarrow> environ \<Rightarrow> error + SagaConfig" where
  "LoadSaga = load_with ''process saga config'' SagaConfig_fields (\<lambda>v.
     \<lparr>saga_Port = as_string (v ''SAGA_PORT''),
      saga_NATSURL = as_string (v ''NATS_URL''),
      saga_DatabaseURL = as_string (v ''DATABASE_URL''),
      saga_LogLevel = as_string (v ''LOG_LEVEL''),
      saga_CompensateTransport = as_string (v ''SAGA_COMPENSATE_TRANSPORT''),
      saga_SubscriptionGRPCAddr = as_string (v ''SUBSCRIPTION_GRPC_ADDR'')\<rparr>)"

section \<open>The log level\<close>

text \<open>
  \<open>strings.ToUpper\<close> on UTF-8, as far as it gives ASCII letters: those of ASCII, the dotless i and the long s.
\<close>

fun ToUpper :: "string \<Rightarrow> string" where
  "ToUpper [] = []"
| "ToUpper (c # cs) =
     (if c = CHR 0xC4 \<and> cs \<noteq> [] \<and> hd cs = CHR 0xB1 then CHR ''I'' # ToUpper (tl cs)
      else if c = CHR 0xC5 \<and> cs \<noteq> [] \<and> hd cs = CHR 0xBF then CHR ''S'' # ToUpper (tl cs)
      else (if char_between CHR ''a'' CHR ''z'' c then char_of (of_char c - 32 :: nat) else c) # ToUpper cs)"

text \<open>\<open>slog.Level.UnmarshalText\<close>: a name, and an offset from its first sign on.\<close>

definition level_name :: "string \<Rightarrow> int option" where
  "level_name name =
     (if ToUpper name = ''DEBUG'' then Some (-4)
      else if ToUpper name = ''INFO'' then Some 0
      else if ToUpper name = ''WARN'' then Some 4
      else if ToUpper name = ''ERROR'' then Some 8
      else None)"

definition Level_UnmarshalText :: "string \<Rightarrow> int option" where
  "Level_UnmarshalText s =
     (let unsigned = (\<lambda>c. c \<noteq> CHR ''+'' \<and> c \<noteq> CHR ''-''); rest = dropWhile unsigned s in
      case (if rest = [] then Some 0 else Atoi rest) of
        None \<Rightarrow> None
      | Some offset \<Rightarrow> (case level_name (takeWhile unsigned s) of
          None \<Rightarrow> None | Some l \<Rightarrow> Some (wrap64 (l + offset))))"

definition LevelInfo :: int where
  "LevelInfo = 0"

definition slogLevel :: "string \<Rightarrow> int" where
  "slogLevel level = (case Level_UnmarshalText level of None \<Rightarrow> LevelInfo | Some l \<Rightarrow> l)"

definition SubscriptionConfig_SlogLevel :: "SubscriptionConfig \<Rightarrow> int" where
  "SubscriptionConfig_SlogLevel cfg = slogLevel (sub_LogLevel cfg)"

definition ScannerConfig_SlogLevel :: "ScannerConfig \<Rightarrow> int" where
  "ScannerConfig_SlogLevel cfg = slogLevel (scan_LogLevel cfg)"

definition NotifierConfig_SlogLevel :: "NotifierConfig \<Rightarrow> int" where
  "NotifierConfig_SlogLevel cfg = slogLevel (notif_LogLevel cfg)"

definition SagaConfig_SlogLevel :: "SagaConfig \<Rightarrow> int" where
  "SagaConfig_SlogLevel cfg = slogLevel (saga_LogLevel cfg)"

section \<open>What envconfig promises\<close>

text \<open>
  The variable of a field: a field of a nested struct is looked up under the name of the struct first. A variable that is not set
  leaves the default, if there is one.
\<close>

definition lookup_field :: "environ \<Rightarrow> env_field \<Rightarrow> string option" where
  "lookup_field environ f =
     (case Option.bind (fld_outer f) (\<lambda>outer. environ (outer @ ''_'' @ fld_key f)) of
        Some t \<Rightarrow> Some t | None \<Rightarrow> environ (fld_key f))"

definition field_text :: "environ \<Rightarrow> env_field \<Rightarrow> string option" where
  "field_text environ f = (case lookup_field environ f of Some t \<Rightarrow> Some t | None \<Rightarrow> fld_default f)"

text \<open>
  \<open>time.ParseDuration\<close> on durations without a fraction and with units in ASCII: a sign, then numbers with their
  units; \<open>None\<close> is an error, or a duration in another notation.
\<close>

definition duration_unit :: "string \<Rightarrow> int option" where
  "duration_unit u = map_of [(''ns'', 1), (''us'', 10 ^ 3), (''ms'', 10 ^ 6), (''s'', second), (''m'', 60 * second),
     (''h'', 3600 * second)] u"

function duration_terms :: "string \<Rightarrow> int option" where
  "duration_terms s =
     (let ds = takeWhile digit s; r = dropWhile digit s;
          unit_char = (\<lambda>c. \<not> digit c \<and> c \<noteq> CHR ''.''); u = takeWhile unit_char r
      in if s = [] then Some 0
         else if ds = [] \<or> u = [] then None
         else Option.bind (duration_unit u) (\<lambda>n.
           Option.bind (duration_terms (dropWhile unit_char r)) (\<lambda>d. Some (digits_value ds * n + d))))"
  by pat_completeness auto

termination duration_terms
proof (relation "measure length", goal_cases)
  case (2 s ds r unit_char u n)
  have "length (dropWhile unit_char r) \<le> length r" by (rule length_dropWhile_le)
  moreover from 2 have "ds \<noteq> []" by blast
  moreover have "length s = length ds + length r"
    unfolding 2(1,2) by (metis length_append takeWhile_dropWhile_id)
  ultimately show ?case by (cases ds) simp_all
qed simp

declare duration_terms.simps [simp del]

definition ParseDuration :: "string \<Rightarrow> duration option" where
  "ParseDuration s =
     (let neg = (s \<noteq> [] \<and> hd s = CHR ''-''); t = (if s \<noteq> [] \<and> hd s \<in> {CHR ''-'', CHR ''+''} then tl s else s)
      in if t = ''0'' then Some 0
         else if t = [] then None
         else case duration_terms t of
             None \<Rightarrow> None
           | Some d \<Rightarrow> (let v = (if neg then - d else d) in if in_int64 v then Some v else None))"

text \<open>
  \<open>strconv.ParseInt(value, 0, bits)\<close> on plain decimals; numbers with a base prefix, a leading zero or a plus sign are not read here.
\<close>

definition parse_int :: "string \<Rightarrow> int option" where
  "parse_int t =
     (let ds = (if t \<noteq> [] \<and> hd t = CHR ''-'' then tl t else t)
      in if ds = ''0'' \<or> ds \<noteq> [] \<and> hd ds \<notin> {CHR ''0'', CHR ''+'', CHR ''-''} then Atoi t else None)"

primrec parse_setting :: "setting_kind \<Rightarrow> string \<Rightarrow> setting option" where
  "parse_setting KindString t = Some (SString t)"
| "parse_setting KindInt t = map_option SInt (parse_int t)"
| "parse_setting KindDuration t = map_option SDuration (ParseDuration t)"

definition setting_of :: "environ \<Rightarrow> env_field \<Rightarrow> setting option" where
  "setting_of environ f =
     (case field_text environ f of
        None \<Rightarrow> if fld_required f then None else Some (zero_setting (fld_kind f))
      | Some t \<Rightarrow> parse_setting (fld_kind f) t)"

text \<open>A text that is no number and no duration in any notation: it does not start like one.\<close>

definition malformed :: "setting_kind \<Rightarrow> string \<Rightarrow> bool" where
  "malformed k t \<longleftrightarrow> k \<noteq> KindString \<and> (t = [] \<or> \<not> (digit (hd t) \<or> hd t \<in> {CHR ''+'', CHR ''-'', CHR ''.''}))"

definition refused :: "environ \<Rightarrow> env_field list \<Rightarrow> bool" where
  "refused environ fs \<longleftrightarrow> (\<exists>f \<in> set fs.
     fld_required f \<and> field_text environ f = None \<or> (\<exists>t. field_text environ f = Some t \<and> malformed (fld_kind f) t))"

text \<open>
  The documentation of \<open>envconfig\<close>: a required variable that is missing and a text that is not of the field's type
  are errors; otherwise every field holds its setting.
\<close>

definition envconfig_documented :: "process \<Rightarrow> bool" where
  "envconfig_documented process \<longleftrightarrow> (\<forall>fs environ. distinct (map fld_key fs) \<longrightarrow>
     (refused environ fs \<longrightarrow> isl (process fs environ)) \<and>
     ((\<forall>f \<in> set fs. setting_of environ f \<noteq> None) \<longrightarrow>
        (\<exists>v. process fs environ = Inr v \<and> (\<forall>f \<in> set fs. Some (v (fld_key f)) = setting_of environ f))))"

lemma keys_distinct:
  "distinct (map fld_key SubscriptionConfig_fields)" "distinct (map fld_key ScannerConfig_fields)"
  "distinct (map fld_key NotifierConfig_fields)" "distinct (map fld_key SagaConfig_fields)"
  by code_simp+

lemma load_refused:
  assumes "envconfig_documented process" "distinct (map fld_key fs)" "refused environ fs"
  shows "\<exists>e. load_with msg fs build process environ = Inl (Errorf msg e)"
proof -
  from assms have "isl (process fs environ)" by (auto simp: envconfig_documented_def)
  then show ?thesis by (auto simp: load_with_def isl_def)
qed

lemma load_settings:
  assumes "envconfig_documented process" "distinct (map fld_key fs)" "\<forall>f \<in> set fs. setting_of environ f \<noteq> None"
  obtains v where "load_with msg fs build process environ = Inr (build v)"
    and "\<forall>f \<in> set fs. Some (v (fld_key f)) = setting_of environ f"
proof -
  from assms obtain v where "process fs environ = Inr v" "\<forall>f \<in> set fs. Some (v (fld_key f)) = setting_of environ f"
    unfolding envconfig_documented_def by meson
  then show ?thesis by (intro that [of v]) (simp_all add: load_with_def)
qed

lemma loads_refused:
  assumes "envconfig_documented process"
  shows "refused environ SubscriptionConfig_fields \<Longrightarrow> \<exists>e. LoadSubscription process environ = Inl (Errorf ''process config'' e)"
    and "refused environ ScannerConfig_fields \<Longrightarrow> \<exists>e. LoadScanner process environ = Inl (Errorf ''process scanner config'' e)"
    and "refused environ NotifierConfig_fields \<Longrightarrow> \<exists>e. LoadNotifier process environ = Inl (Errorf ''process notifier config'' e)"
    and "refused environ SagaConfig_fields \<Longrightarrow> \<exists>e. LoadSaga process environ = Inl (Errorf ''process saga config'' e)"
  unfolding LoadSubscription_def LoadScanner_def LoadNotifier_def LoadSaga_def
  by (simp_all only: load_refused [OF assms] keys_distinct)

text \<open>An environment with the required variables and none of the others.\<close>

definition bare :: "environ \<Rightarrow> env_field list \<Rightarrow> bool" where
  "bare environ fs \<longleftrightarrow> (\<forall>f \<in> set fs. (lookup_field environ f \<noteq> None) = fld_required f)"

definition default_setting :: "environ \<Rightarrow> env_field \<Rightarrow> setting option" where
  "default_setting environ f =
     (if fld_required f then parse_setting (fld_kind f) (the (lookup_field environ f))
      else case fld_default f of None \<Rightarrow> Some (zero_setting (fld_kind f)) | Some t \<Rightarrow> parse_setting (fld_kind f) t)"

lemma bare_settings: "bare environ fs \<Longrightarrow> f \<in> set fs \<Longrightarrow> setting_of environ f = default_setting environ f"
  by (auto simp: bare_def setting_of_def default_setting_def field_text_def split: option.splits)

lemma default_texts:
  "parse_int ''5'' = Some 5"
  "parse_int ''587'' = Some 587"
  "ParseDuration ''10m'' = Some (600 * second)"
  "ParseDuration ''15m'' = Some (900 * second)"
  "ParseDuration ''24h'' = Some (86400 * second)"
  "ParseDuration ''720h'' = Some (2592000 * second)"
  by code_simp+

lemma load_defaults:
  assumes "envconfig_documented process" "distinct (map fld_key fs)" "bare environ fs"
    and "\<And>f. f \<in> set fs \<Longrightarrow> default_setting environ f \<noteq> None"
    and "\<And>v. \<forall>f \<in> set fs. v (fld_key f) = the (default_setting environ f) \<Longrightarrow> build v = c"
  shows "load_with msg fs build process environ = Inr c"
  by (rule load_settings [OF assms(1,2), where environ = environ and msg = msg and build = build])
    (use assms(4,5) in \<open>auto simp: bare_settings [OF assms(3)], metis option.sel\<close>)

lemmas config_fields = SubscriptionConfig_fields_def ScannerConfig_fields_def NotifierConfig_fields_def SMTPConfig_fields_def
  SagaConfig_fields_def

lemma defaults_readable:
  "f \<in> set SubscriptionConfig_fields \<union> set ScannerConfig_fields \<union> set NotifierConfig_fields \<union> set SagaConfig_fields \<Longrightarrow>
     default_setting environ f \<noteq> None"
  by (auto simp: config_fields default_setting_def default_texts)

abbreviation var :: "environ \<Rightarrow> string \<Rightarrow> string" where
  "var environ key \<equiv> the (lookup_field environ (required key))"

abbreviation smtp_var :: "environ \<Rightarrow> string \<Rightarrow> string" where
  "smtp_var environ key \<equiv> the (lookup_field environ ((required key)\<lparr>fld_outer := Some ''SMTP''\<rparr>))"

lemma subscription_defaults:
  assumes "envconfig_documented process" "bare environ SubscriptionConfig_fields"
  shows "LoadSubscription process environ = Inr
    \<lparr>sub_Port = ''8080'', sub_BaseURL = ''http://localhost:8080'', sub_GitHubToken = '''',
     sub_DatabaseURL = var environ ''DATABASE_URL'', sub_RedisURL = var environ ''REDIS_URL'',
     sub_NATSURL = ''nats://localhost:4222'', sub_JWTSecret = var environ ''JWT_SECRET'',
     sub_ConfirmTokenTTL = 86400 * second, sub_PendingCleanupInterval = 86400 * second,
     sub_APIKey = '''', sub_LogLevel = ''info'', sub_GRPCPort = ''50052''\<rparr>"
  unfolding LoadSubscription_def
  by (rule load_defaults [OF assms(1) keys_distinct(1) assms(2) defaults_readable])
    (auto simp: config_fields default_setting_def default_texts)

lemma scanner_defaults:
  assumes "envconfig_documented process" "bare environ ScannerConfig_fields"
  shows "LoadScanner process environ = Inr
    \<lparr>scan_Port = ''8082'', scan_GitHubToken = '''', scan_WorkerCount = 5, scan_ScanInterval = 600 * second,
     scan_RedisURL = var environ ''REDIS_URL'', scan_DatabaseURL = var environ ''DATABASE_URL'',
     scan_NATSURL = ''nats://localhost:4222'', scan_LogLevel = ''info''\<rparr>"
  unfolding LoadScanner_def
  by (rule load_defaults [OF assms(1) keys_distinct(2) assms(2) defaults_readable])
    (auto simp: config_fields default_setting_def default_texts)

lemma notifier_defaults:
  assumes "envconfig_documented process" "bare environ NotifierConfig_fields"
  shows "LoadNotifier process environ = Inr
    \<lparr>notif_Port = ''8081'', notif_NATSURL = ''nats://localhost:4222'', notif_DatabaseURL = var environ ''DATABASE_URL'',
     notif_BaseURL = ''http://localhost:8080'', notif_RetryInterval = 900 * second, notif_MaxRetries = 5,
     notif_ConfirmationTTL = 86400 * second, notif_ProcessedTTL = 2592000 * second, notif_LogLevel = ''info'',
     notif_SMTP = \<lparr>smtp_Host = smtp_var environ ''SMTP_HOST'', smtp_Port = 587, smtp_User = smtp_var environ ''SMTP_USER'',
       smtp_Password = smtp_var environ ''SMTP_PASSWORD'', smtp_FromEmail = smtp_var environ ''SMTP_FROM''\<rparr>\<rparr>"
  unfolding LoadNotifier_def
  by (rule load_defaults [OF assms(1) keys_distinct(3) assms(2) defaults_readable])
    (auto simp: config_fields default_setting_def default_texts)

lemma saga_defaults:
  assumes "envconfig_documented process" "bare environ SagaConfig_fields"
  shows "LoadSaga process environ = Inr
    \<lparr>saga_Port = ''8083'', saga_NATSURL = ''nats://localhost:4222'', saga_DatabaseURL = var environ ''DATABASE_URL'',
     saga_LogLevel = ''info'', saga_CompensateTransport = ''nats'', saga_SubscriptionGRPCAddr = ''localhost:50052''\<rparr>"
  unfolding LoadSaga_def
  by (rule load_defaults [OF assms(1) keys_distinct(4) assms(2) defaults_readable])
    (auto simp: config_fields default_setting_def default_texts)

lemma slogLevel_named:
  "CHR ''+'' \<notin> set level \<and> CHR ''-'' \<notin> set level \<Longrightarrow> slogLevel level =
     (if ToUpper level = ''DEBUG'' then -4 else if ToUpper level = ''WARN'' then 4 else if ToUpper level = ''ERROR'' then 8 else 0)"
proof -
  assume "CHR ''+'' \<notin> set level \<and> CHR ''-'' \<notin> set level"
  then have "\<forall>c \<in> set level. c \<noteq> CHR ''+'' \<and> c \<noteq> CHR ''-''" by auto
  then have "dropWhile (\<lambda>c. c \<noteq> CHR ''+'' \<and> c \<noteq> CHR ''-'') level = []"
    "takeWhile (\<lambda>c. c \<noteq> CHR ''+'' \<and> c \<noteq> CHR ''-'') level = level"
    by (simp_all only: dropWhile_eq_Nil_conv takeWhile_eq_all_conv)
  then have "Level_UnmarshalText level = map_option wrap64 (level_name level)"
    by (simp only: Level_UnmarshalText_def Let_def if_True option.case)
      (simp add: split: option.split)
  moreover have "wrap64 (-4) = -4" "wrap64 0 = 0" "wrap64 4 = 4" "wrap64 8 = 8" by code_simp+
  ultimately show ?thesis by (simp add: slogLevel_def level_name_def LevelInfo_def)
qed

text \<open>An implementation of what is documented, for the examples.\<close>

definition demo_process :: process where
  "demo_process fs environ =
     (if list_all (\<lambda>f. setting_of environ f \<noteq> None) fs
      then Inr (\<lambda>key. case find (\<lambda>f. fld_key f = key) fs of
          None \<Rightarrow> SString '''' | Some f \<Rightarrow> the (setting_of environ f))
      else Inl (External ''envconfig''))"

lemma malformed_unread: "malformed k t \<Longrightarrow> parse_setting k t = None"
proof (cases k)
  case KindInt
  moreover assume "malformed k t"
  ultimately show ?thesis
    by (cases t) (auto simp: malformed_def parse_int_def Atoi_def Let_def)
next
  case KindDuration
  moreover assume "malformed k t"
  moreover have "digit CHR ''0''" by code_simp
  moreover have "duration_terms (c # cs) = None" if "\<not> digit c" for c cs
    using that by (simp add: duration_terms.simps)
  ultimately show ?thesis
    by (cases t) (auto simp: malformed_def ParseDuration_def Let_def)
qed (simp add: malformed_def)

lemma refused_unread: "refused environ fs \<Longrightarrow> \<not> list_all (\<lambda>f. setting_of environ f \<noteq> None) fs"
  by (force simp: refused_def setting_of_def list_all_iff malformed_unread)

lemma find_key: "distinct (map fld_key fs) \<Longrightarrow> f \<in> set fs \<Longrightarrow> find (\<lambda>g. fld_key g = fld_key f) fs = Some f"
  by (induction fs) auto

lemma demo_process_documented: "envconfig_documented demo_process"
  unfolding envconfig_documented_def demo_process_def
  by (auto simp: find_key list_all_iff dest!: refused_unread)

text \<open>
  The configuration (\<open>LoadSubscription\<close>, \<open>LoadScanner\<close>, \<open>LoadNotifier\<close>, \<open>LoadSaga\<close>, \<open>slogLevel\<close>), with \<open>envconfig\<close> as documented:
  a service does not start when a required variable is missing, or when a number or a duration does not even start like one; with the
  required variables alone every setting has its documented default; and a log level without an offset is that of its name, in
  whatever case, and info when the name is unknown.
\<close>

theorem configuration_loads:
  assumes "envconfig_documented process"
  shows "(refused environ SubscriptionConfig_fields \<longrightarrow> (\<exists>e. LoadSubscription process environ = Inl (Errorf ''process config'' e))) \<and>
    (refused environ ScannerConfig_fields \<longrightarrow> (\<exists>e. LoadScanner process environ = Inl (Errorf ''process scanner config'' e))) \<and>
    (refused environ NotifierConfig_fields \<longrightarrow> (\<exists>e. LoadNotifier process environ = Inl (Errorf ''process notifier config'' e))) \<and>
    (refused environ SagaConfig_fields \<longrightarrow> (\<exists>e. LoadSaga process environ = Inl (Errorf ''process saga config'' e))) \<and>
    (bare environ SubscriptionConfig_fields \<longrightarrow> LoadSubscription process environ = Inr
      \<lparr>sub_Port = ''8080'', sub_BaseURL = ''http://localhost:8080'', sub_GitHubToken = '''',
       sub_DatabaseURL = var environ ''DATABASE_URL'', sub_RedisURL = var environ ''REDIS_URL'',
       sub_NATSURL = ''nats://localhost:4222'', sub_JWTSecret = var environ ''JWT_SECRET'',
       sub_ConfirmTokenTTL = 86400 * second, sub_PendingCleanupInterval = 86400 * second,
       sub_APIKey = '''', sub_LogLevel = ''info'', sub_GRPCPort = ''50052''\<rparr>) \<and>
    (bare environ ScannerConfig_fields \<longrightarrow> LoadScanner process environ = Inr
      \<lparr>scan_Port = ''8082'', scan_GitHubToken = '''', scan_WorkerCount = 5, scan_ScanInterval = 600 * second,
       scan_RedisURL = var environ ''REDIS_URL'', scan_DatabaseURL = var environ ''DATABASE_URL'',
       scan_NATSURL = ''nats://localhost:4222'', scan_LogLevel = ''info''\<rparr>) \<and>
    (bare environ NotifierConfig_fields \<longrightarrow> LoadNotifier process environ = Inr
      \<lparr>notif_Port = ''8081'', notif_NATSURL = ''nats://localhost:4222'', notif_DatabaseURL = var environ ''DATABASE_URL'',
       notif_BaseURL = ''http://localhost:8080'', notif_RetryInterval = 900 * second, notif_MaxRetries = 5,
       notif_ConfirmationTTL = 86400 * second, notif_ProcessedTTL = 2592000 * second, notif_LogLevel = ''info'',
       notif_SMTP = \<lparr>smtp_Host = smtp_var environ ''SMTP_HOST'', smtp_Port = 587, smtp_User = smtp_var environ ''SMTP_USER'',
         smtp_Password = smtp_var environ ''SMTP_PASSWORD'', smtp_FromEmail = smtp_var environ ''SMTP_FROM''\<rparr>\<rparr>) \<and>
    (bare environ SagaConfig_fields \<longrightarrow> LoadSaga process environ = Inr
      \<lparr>saga_Port = ''8083'', saga_NATSURL = ''nats://localhost:4222'', saga_DatabaseURL = var environ ''DATABASE_URL'',
       saga_LogLevel = ''info'', saga_CompensateTransport = ''nats'', saga_SubscriptionGRPCAddr = ''localhost:50052''\<rparr>) \<and>
    (CHR ''+'' \<notin> set level \<and> CHR ''-'' \<notin> set level \<longrightarrow> slogLevel level =
      (if ToUpper level = ''DEBUG'' then -4 else if ToUpper level = ''WARN'' then 4 else if ToUpper level = ''ERROR'' then 8 else 0))"
  by (intro conjI impI loads_refused [OF assms] subscription_defaults [OF assms] scanner_defaults [OF assms]
      notifier_defaults [OF assms] saga_defaults [OF assms] slogLevel_named) blast+

theorem configuration_loads_witness:
  "(\<exists>e. LoadScanner demo_process [''DATABASE_URL'' \<mapsto> ''db''] = Inl (Errorf ''process scanner config'' e)) \<and>
   LoadSaga demo_process [''DATABASE_URL'' \<mapsto> ''db''] = Inr
     \<lparr>saga_Port = ''8083'', saga_NATSURL = ''nats://localhost:4222'', saga_DatabaseURL = ''db'',
      saga_LogLevel = ''info'', saga_CompensateTransport = ''nats'', saga_SubscriptionGRPCAddr = ''localhost:50052''\<rparr>"
proof -
  have "refused [''DATABASE_URL'' \<mapsto> ''db''] ScannerConfig_fields"
    by (simp add: refused_def ScannerConfig_fields_def field_text_def lookup_field_def)
  moreover have "bare [''DATABASE_URL'' \<mapsto> ''db''] SagaConfig_fields"
    by (simp add: bare_def SagaConfig_fields_def lookup_field_def)
  moreover have "var [''DATABASE_URL'' \<mapsto> ''db''] ''DATABASE_URL'' = ''db''" by (simp add: lookup_field_def)
  ultimately show ?thesis
    using configuration_loads [OF demo_process_documented, of "[''DATABASE_URL'' \<mapsto> ''db'']"] by presburger
qed

end
