(* ===== verification/Startup.thy ===== *)
theory Startup
  imports Saga Config
begin

text \<open>
  How the services start and stop (\<open>internal/bootstrap\<close>, with \<open>db.go\<close>, \<open>broker.go\<close> and \<open>cache.go\<close>): the streams and
  consumers, the connections each service opens, in which order, what it closes again when a step fails, and the
  graceful shutdown.
\<close>

section \<open>Streams and consumers\<close>

record ConsumerSpec =
  spec_Stream :: string
  spec_Durable :: string
  spec_Subject :: string

abbreviation consumer_spec :: "string \<Rightarrow> string \<Rightarrow> string \<Rightarrow> ConsumerSpec" where
  "consumer_spec stream durable subject \<equiv> \<lparr>spec_Stream = stream, spec_Durable = durable, spec_Subject = subject\<rparr>"

text \<open>The \<open>startConsumers\<close> of the four services; their handlers stand beside them in the same order.\<close>

definition notifier_specs :: "ConsumerSpec list" where
  "notifier_specs =
     [consumer_spec StreamSubscriptions ''notifier-subscription-pending'' SubjectSubscriptionPending,
      consumer_spec StreamSubscriptions ''notifier-subscription-confirmed'' SubjectSubscriptionConfirmed,
      consumer_spec StreamSubscriptions ''notifier-subscription-removed'' SubjectSubscriptionRemoved,
      consumer_spec StreamReleases ''notifier-release-detected'' SubjectReleaseDetected]"

definition saga_specs :: "ConsumerSpec list" where
  "saga_specs =
     [consumer_spec StreamSubscriptions ''saga-subscription-pending'' SubjectSubscriptionPending,
      consumer_spec StreamSubscriptions ''saga-subscription-confirmed'' SubjectSubscriptionConfirmed,
      consumer_spec StreamSubscriptions ''saga-subscription-expired'' SubjectSubscriptionExpired,
      consumer_spec StreamNotifications ''saga-notification-confirmation-sent'' SubjectNotificationConfirmationSent,
      consumer_spec StreamNotifications ''saga-notification-confirmation-dead'' SubjectNotificationConfirmationDead]"

definition scanner_specs :: "ConsumerSpec list" where
  "scanner_specs =
     [consumer_spec StreamSubscriptions ''scanner-subscription-confirmed'' SubjectSubscriptionConfirmed,
      consumer_spec StreamSubscriptions ''scanner-subscription-removed'' SubjectSubscriptionRemoved,
      consumer_spec StreamReleases ''scanner-release-notified'' SubjectReleaseNotified]"

definition subscription_specs :: "ConsumerSpec list" where
  "subscription_specs = [consumer_spec StreamSagas ''subscription-saga-compensate'' SubjectSagaCompensate]"

text \<open>\<open>EnsureEventStreams\<close>: the streams and the subjects they store.\<close>

definition event_streams :: "(string \<times> string list) list" where
  "event_streams =
     [(StreamSubscriptions, SubjectsSubscriptions), (StreamReleases, SubjectsReleases),
      (StreamNotifications, SubjectsNotifications), (StreamSagas, SubjectsSagas)]"

section \<open>What starting and stopping does\<close>

text \<open>
  What a process opens: the two schemas it brings up to date, the connection pool, Redis, the broker connection, the
  mailer, the client of the compensation service, consumers, servers, goroutines it can end, and the signal handler.
\<close>

datatype schema = ServiceSchema | OutboxSchema

datatype resource = Migrator schema | PgPool | Redis | Nats | Mail | CompensationClient | Signals
  | Consumer ConsumerSpec | Server string | Goroutine string

text \<open>
  The log of a process: what it opened and closed, the streams and schemas it made, and what it started without
  a way to wait for its end. Every call it makes is numbered and may fail.
\<close>

datatype action = CreatedStream string "string list" | Migrated schema | Opened resource | Closed resource
  | Cancelled string | Detached string

type_synonym boot = "nat \<times> action list"

abbreviation Started :: "ConsumerSpec \<Rightarrow> action" where "Started s \<equiv> Opened (Consumer s)"

abbreviation Stopped :: "ConsumerSpec \<Rightarrow> action" where "Stopped s \<equiv> Closed (Consumer s)"

definition EnsureStream :: "env \<Rightarrow> string \<Rightarrow> string list \<Rightarrow> (boot, error + unit) state" where
  "EnsureStream E name subjects = State (\<lambda>(n, as).
     case env_fault E n of
       NoFault \<Rightarrow> (Inr (), Suc n, as @ [CreatedStream name subjects])
     | Fails m \<Rightarrow> (Inl (Errorf (''ensure stream '' @ quote name) (External m)), Suc n, as)
     | Lost m \<Rightarrow> (Inl (Errorf (''ensure stream '' @ quote name) (External m)), Suc n, as @ [CreatedStream name subjects]))"

primrec ensure_streams :: "env \<Rightarrow> (string \<times> string list) list \<Rightarrow> (boot, error + unit) state" where
  "ensure_streams E [] = ok ()"
| "ensure_streams E (s # ss) =
     bindE (wrap (''ensure stream '' @ quote (fst s)) (EnsureStream E (fst s) (snd s))) (\<lambda>_. ensure_streams E ss)"

definition EnsureEventStreams :: "env \<Rightarrow> (boot, error + unit) state" where
  "EnsureEventStreams E = ensure_streams E event_streams"

lemma EnsureEventStreams_ok:
  assumes "run_state (EnsureEventStreams E) (n, as) = (Inr (), n', as')"
  shows "as' = as @ map (\<lambda>(name, subjects). CreatedStream name subjects) event_streams"
proof -
  have "wp (ensure_streams E ss) (\<lambda>r (n', as'). r = Inr () \<longrightarrow>
      as' = as @ map (\<lambda>(name, subjects). CreatedStream name subjects) ss) (n, as)" for ss
  proof (induction ss arbitrary: n as)
    case (Cons s ss)
    show ?case
      by (auto simp: wp_simps EnsureStream_def split: fault.splits prod.splits intro: wp_mono [OF Cons.IH])
  qed (simp add: wp_simps)
  from wpD [OF this assms [unfolded EnsureEventStreams_def]] show ?thesis by simp
qed

text \<open>
  \<open>Conn.Consume\<close> as the bootstrap sees it: it registers the durable consumer and starts it, or fails and
  has started nothing.
  \<open>stopAll\<close> stops the started ones, the last one first.
\<close>

definition start_consumer :: "env \<Rightarrow> ConsumerSpec \<Rightarrow> (boot, error + unit) state" where
  "start_consumer E s = State (\<lambda>(n, as).
     case env_fault E n of
       NoFault \<Rightarrow> (case env_fault E (Suc n) of
           NoFault \<Rightarrow> (Inr (), Suc (Suc n), as @ [Started s])
         | Fails m \<Rightarrow> (Inl (Errorf (''start consume '' @ quote (spec_Durable s)) (External m)), Suc (Suc n), as)
         | Lost m \<Rightarrow> (Inl (Errorf (''start consume '' @ quote (spec_Durable s)) (External m)), Suc (Suc n), as))
     | Fails m \<Rightarrow> (Inl (Errorf (''create consumer '' @ quote (spec_Durable s)) (External m)), Suc n, as)
     | Lost m \<Rightarrow> (Inl (Errorf (''create consumer '' @ quote (spec_Durable s)) (External m)), Suc n, as))"

definition stopAll :: "ConsumerSpec list \<Rightarrow> (boot, unit) state" where
  "stopAll started = State (\<lambda>(n, as). ((), n, as @ map Stopped (rev started)))"

primrec start_all :: "env \<Rightarrow> ConsumerSpec list \<Rightarrow> ConsumerSpec list \<Rightarrow>
    (boot, error + ConsumerSpec list) state" where
  "start_all E started [] = ok started"
| "start_all E started (s # ss) = do {
     r \<leftarrow> start_consumer E s;
     case r of
       Inl e \<Rightarrow> do { _ \<leftarrow> stopAll started; err (Errorf (''consume '' @ quote (spec_Durable s)) e) }
     | Inr _ \<Rightarrow> start_all E (started @ [s]) ss
   }"

definition StartConsumers :: "env \<Rightarrow> ConsumerSpec list \<Rightarrow> (boot, error + ConsumerSpec list) state" where
  "StartConsumers E specs = start_all E [] specs"

definition started_post :: "ConsumerSpec list \<Rightarrow> ConsumerSpec list \<Rightarrow> action list \<Rightarrow> error + ConsumerSpec list \<Rightarrow>
    action list \<Rightarrow> bool" where
  "started_post started ss as r as' \<longleftrightarrow> (case r of
      Inr stops \<Rightarrow> stops = started @ ss \<and> as' = as @ map Started ss
    | Inl e \<Rightarrow> \<exists>k < length ss. as' = as @ map Started (take k ss) @ map Stopped (rev (started @ take k ss)))"

lemma started_post_Cons:
  "started_post (started @ [s]) ss (as @ [Started s]) r as' \<Longrightarrow> started_post started (s # ss) as r as'"
  unfolding started_post_def
  by (cases r) (force intro: exI [where x = "Suc _"])+

lemma start_all_outcome: "wp (start_all E started ss) (\<lambda>r (n', as'). started_post started ss as r as') (n, as)"
proof (induction ss arbitrary: started n as)
  case (Cons s ss)
  have "wp (start_all E (started @ [s]) ss) (\<lambda>r (n', as'). started_post started (s # ss) as r as') (n', as @ [Started s])"
    if "n' = Suc (Suc n)" for n'
    by (rule wp_mono [OF Cons.IH]) (auto intro: started_post_Cons)
  moreover have "started_post started (s # ss) as (Inl e) (as @ map Stopped (rev started))" for e
    by (auto simp: started_post_def intro: exI [where x = 0])
  ultimately show ?case
    by (simp add: start_consumer_def stopAll_def wp_simps split: fault.splits)
qed (simp add: wp_simps started_post_def)

text \<open>
  \<open>StartConsumers\<close> leaves no half-started service behind (\<open>bootstrap.go\<close>): it starts every consumer in
  order, or, when one of them fails, it has started the ones before it and has stopped exactly these
  again, the last one first.
\<close>

theorem consumers_all_or_nothing:
  assumes "run_state (StartConsumers E specs) (n, as) = (r, n', as')"
  shows "(case r of
      Inr stops \<Rightarrow> stops = specs \<and> as' = as @ map Started specs
    | Inl e \<Rightarrow> \<exists>k < length specs. as' = as @ map Started (take k specs) @ map Stopped (rev (take k specs)))"
  using wpD [OF start_all_outcome assms [unfolded StartConsumers_def]] by (simp add: started_post_def split: sum.splits)

theorem consumers_all_or_nothing_witness:
  "\<exists>k < 3. snd (snd (run_state (StartConsumers (faulty_env [(4, Fails ''nats'')]) scanner_specs) (0, []))) =
     map Started (take k scanner_specs) @ map Stopped (rev (take k scanner_specs))"
proof -
  let ?run = "run_state (StartConsumers (faulty_env [(4, Fails ''nats'')]) scanner_specs) (0, [])"
  have "isl (fst ?run)"
    by (simp add: StartConsumers_def scanner_specs_def start_consumer_def stopAll_def)
  moreover have "length scanner_specs = 3" by (simp add: scanner_specs_def)
  ultimately show ?thesis
    using consumers_all_or_nothing [of "faulty_env [(4, Fails ''nats'')]" scanner_specs 0 "[]" "fst ?run" "fst (snd ?run)" "snd (snd ?run)"]
    by (auto simp: isl_def)
qed

section \<open>Connections\<close>

text \<open>A call that opens nothing, a call that opens a resource, and an action that cannot fail.\<close>

definition attempt :: "env \<Rightarrow> (boot, error + unit) state" where
  "attempt E = State (\<lambda>(n, as). case env_fault E n of
     NoFault \<Rightarrow> (Inr (), Suc n, as) | Fails m \<Rightarrow> (Inl (External m), Suc n, as) | Lost m \<Rightarrow> (Inl (External m), Suc n, as))"

definition act :: "action \<Rightarrow> (boot, unit) state" where
  "act a = State (\<lambda>(n, as). ((), n, as @ [a]))"

definition acquire :: "env \<Rightarrow> resource \<Rightarrow> (boot, error + unit) state" where
  "acquire E r = bindE (attempt E) (\<lambda>_. do { _ \<leftarrow> act (Opened r); ok () })"

text \<open>\<open>defer c()\<close> for the rest of a function.\<close>

definition deferring :: "(boot, unit) state \<Rightarrow> (boot, 'a) state \<Rightarrow> (boot, 'a) state" where
  "deferring c p = do { r \<leftarrow> p; _ \<leftarrow> c; State_Monad.return r }"

text \<open>
  \<open>migrator.Up\<close>: there may be nothing to apply (\<open>migrate.ErrNoChange\<close>, whose text is ''no change'').
\<close>

definition migrate_Up :: "env \<Rightarrow> schema \<Rightarrow> (boot, error + unit) state" where
  "migrate_Up E s = do {
     r \<leftarrow> attempt E;
     case r of
       Inl e \<Rightarrow> if e = External ''no change'' then do { _ \<leftarrow> act (Migrated s); ok () } else err e
     | Inr _ \<Rightarrow> do { _ \<leftarrow> act (Migrated s); ok () }
   }"

definition RunMigrationsFS :: "env \<Rightarrow> schema \<Rightarrow> (boot, error + unit) state" where
  "RunMigrationsFS E s =
     bindE (wrap ''create migration source'' (attempt E)) (\<lambda>_.
     bindE (wrap ''create migrator'' (acquire E (Migrator s))) (\<lambda>_.
     deferring (act (Closed (Migrator s))) (wrap ''run migrations'' (migrate_Up E s))))"

definition NewPool :: "env \<Rightarrow> (boot, error + unit) state" where
  "NewPool E =
     bindE (wrap ''parse pool config'' (attempt E)) (\<lambda>_.
     bindE (wrap ''create pool'' (acquire E PgPool)) (\<lambda>_. do {
       r \<leftarrow> attempt E;
       case r of
         Inl e \<Rightarrow> do { _ \<leftarrow> act (Closed PgPool); err (Errorf ''ping db'' e) }
       | Inr _ \<Rightarrow> ok ()
     }))"

text \<open>\<open>NewRedisCache\<close> joins the error of closing the client, if there is one.\<close>

definition NewRedisCache :: "env \<Rightarrow> (boot, error + unit) state" where
  "NewRedisCache E =
     bindE (wrap ''parse redis URL'' (attempt E)) (\<lambda>_. do {
       _ \<leftarrow> act (Opened Redis);
       r \<leftarrow> attempt E;
       case r of
         Inl e \<Rightarrow> do {
           c \<leftarrow> attempt E;
           _ \<leftarrow> act (Closed Redis);
           err (case c of Inl e' \<Rightarrow> Join (Errorf ''ping redis'' e) e' | Inr _ \<Rightarrow> Errorf ''ping redis'' e)
         }
       | Inr _ \<Rightarrow> ok ()
     })"

definition ConnectRedis :: "env \<Rightarrow> (boot, error + unit) state" where
  "ConnectRedis E = wrap ''connect to redis'' (NewRedisCache E)"

text \<open>\<open>broker.Connect\<close>.\<close>

definition broker_Connect :: "env \<Rightarrow> (boot, error + unit) state" where
  "broker_Connect E =
     bindE (wrap ''connect nats'' (acquire E Nats)) (\<lambda>_. do {
       r \<leftarrow> attempt E;
       case r of
         Inl e \<Rightarrow> do { _ \<leftarrow> act (Closed Nats); err (Errorf ''create jetstream context'' e) }
       | Inr _ \<Rightarrow> ok ()
     })"

definition ConnectBroker :: "env \<Rightarrow> string \<Rightarrow> string list \<Rightarrow> (boot, error + unit) state" where
  "ConnectBroker E stream subjects =
     bindE (wrap ''connect broker'' (broker_Connect E)) (\<lambda>_. do {
       r \<leftarrow> EnsureStream E stream subjects;
       case r of
         Inl e \<Rightarrow> do { _ \<leftarrow> act (Closed Nats); err (Errorf ''ensure stream'' e) }
       | Inr _ \<Rightarrow> ok ()
     })"

section \<open>Running the services\<close>

text \<open>
  \<open>serve\<close> returns when a server fails or when the context is done; here a call that fails, or does not.
\<close>

definition await_end :: "env \<Rightarrow> (boot, error + unit) state" where
  "await_end E = wrap ''server error'' (attempt E)"

text \<open>\<open>Shutdown\<close> of a server: an error is logged.\<close>

definition server_Shutdown :: "env \<Rightarrow> string \<Rightarrow> (boot, unit) state" where
  "server_Shutdown E s = do { _ \<leftarrow> attempt E; act (Closed (Server s)) }"

text \<open>\<open>cancel(); <-done\<close>: the goroutine is told to end, and its end is awaited.\<close>

definition cancel_and_wait :: "string \<Rightarrow> (boot, unit) state" where
  "cancel_and_wait g = do { _ \<leftarrow> act (Cancelled g); act (Closed (Goroutine g)) }"

subsection \<open>Subscription\<close>

definition cleanupClosers :: "resource list \<Rightarrow> (boot, unit) state" where
  "cleanupClosers closers = State (\<lambda>(n, as). ((), n, as @ map Closed (rev closers)))"

text \<open>
  A step of \<open>newInfrastructure\<close>: when it fails, the deferred function closes what was opened before it.
\<close>

definition or_cleanup :: "resource list \<Rightarrow> (boot, error + 'a) state \<Rightarrow> (boot, error + 'a) state" where
  "or_cleanup closers p = do {
     r \<leftarrow> p;
     case r of Inl e \<Rightarrow> do { _ \<leftarrow> cleanupClosers closers; err e } | Inr x \<Rightarrow> ok x
   }"

definition newInfrastructure :: "env \<Rightarrow> (boot, error + resource list) state" where
  "newInfrastructure E =
     bindE (or_cleanup [] (wrap ''run migrations'' (RunMigrationsFS E ServiceSchema))) (\<lambda>_.
     bindE (or_cleanup [] (wrap ''run outbox migrations'' (RunMigrationsFS E OutboxSchema))) (\<lambda>_.
     bindE (or_cleanup [] (wrap ''connect to database'' (NewPool E))) (\<lambda>_.
     bindE (or_cleanup [PgPool] (ConnectRedis E)) (\<lambda>_.
     bindE (or_cleanup [PgPool, Redis] (ConnectBroker E StreamSubscriptions SubjectsSubscriptions)) (\<lambda>_.
     bindE (or_cleanup [PgPool, Redis, Nats] (EnsureEventStreams E)) (\<lambda>_.
       ok [PgPool, Redis, Nats]))))))"

text \<open>\<open>NewHandler\<close> with the validator and the transcoder; the handler of the compensation service has a validator only.\<close>

definition newPublicServer :: "env \<Rightarrow> (boot, error + unit) state" where
  "newPublicServer E =
     bindE (wrap ''create validator'' (attempt E)) (\<lambda>_. wrap ''create transcoder'' (attempt E))"

definition newInternalGRPCServer :: "env \<Rightarrow> (boot, error + unit) state" where
  "newInternalGRPCServer E = wrap ''create validator'' (attempt E)"

text \<open>Two goroutines under one context; the done channel is closed when both have ended, in whatever order.\<close>

definition startBackground :: "(boot, unit) state" where
  "startBackground = do { _ \<leftarrow> act (Opened (Goroutine ''relay'')); act (Opened (Goroutine ''cleanup'')) }"

definition subscription_gracefulShutdown :: "env \<Rightarrow> (boot, unit) state" where
  "subscription_gracefulShutdown E = do {
     _ \<leftarrow> act (Cancelled ''relay'');
     _ \<leftarrow> act (Cancelled ''cleanup'');
     _ \<leftarrow> act (Closed (Goroutine ''relay''));
     _ \<leftarrow> act (Closed (Goroutine ''cleanup''));
     _ \<leftarrow> server_Shutdown E ''public'';
     server_Shutdown E ''internal-grpc''
   }"

definition subscription_serve :: "env \<Rightarrow> (boot, error + unit) state" where
  "subscription_serve E = do {
     _ \<leftarrow> act (Opened (Server ''public''));
     _ \<leftarrow> act (Opened (Server ''internal-grpc''));
     r \<leftarrow> await_end E;
     _ \<leftarrow> subscription_gracefulShutdown E;
     State_Monad.return r
   }"

definition subscription_Run :: "env \<Rightarrow> (boot, error + unit) state" where
  "subscription_Run E =
     bindE (newInfrastructure E) (\<lambda>closers. deferring (cleanupClosers closers) (
     bindE (wrap ''start consumers'' (StartConsumers E subscription_specs)) (\<lambda>stops. deferring (stopAll stops) (
     bindE (newPublicServer E) (\<lambda>_.
     bindE (newInternalGRPCServer E) (\<lambda>_. do {
       _ \<leftarrow> startBackground;
       subscription_serve E
     }))))))"

subsection \<open>Notifier\<close>

definition NewMailer :: "env \<Rightarrow> (boot, error + unit) state" where
  "NewMailer E = wrap ''create mail client'' (acquire E Mail)"

definition startMaintenance :: "(boot, unit) state" where
  "startMaintenance = act (Opened (Goroutine ''maintenance''))"

definition notifier_gracefulShutdown :: "env \<Rightarrow> (boot, unit) state" where
  "notifier_gracefulShutdown E = do { _ \<leftarrow> cancel_and_wait ''maintenance''; server_Shutdown E ''metrics'' }"

definition notifier_serve :: "env \<Rightarrow> (boot, error + unit) state" where
  "notifier_serve E = do {
     _ \<leftarrow> act (Opened (Server ''metrics''));
     r \<leftarrow> await_end E;
     _ \<leftarrow> notifier_gracefulShutdown E;
     State_Monad.return r
   }"

definition notifier_Run :: "env \<Rightarrow> (boot, error + unit) state" where
  "notifier_Run E =
     bindE (wrap ''create mailer'' (NewMailer E)) (\<lambda>_. deferring (act (Closed Mail)) (
     bindE (wrap ''run migrations'' (RunMigrationsFS E ServiceSchema)) (\<lambda>_.
     bindE (wrap ''run outbox migrations'' (RunMigrationsFS E OutboxSchema)) (\<lambda>_.
     bindE (wrap ''connect to database'' (NewPool E)) (\<lambda>_. deferring (act (Closed PgPool)) (
     bindE (ConnectBroker E StreamNotifications SubjectsNotifications) (\<lambda>_. deferring (act (Closed Nats)) (
     bindE (EnsureEventStreams E) (\<lambda>_.
     bindE (wrap ''start consumers'' (StartConsumers E notifier_specs)) (\<lambda>stops. deferring (stopAll stops) (do {
       _ \<leftarrow> act (Detached ''relay'');
       _ \<leftarrow> startMaintenance;
       notifier_serve E
     })))))))))))"

subsection \<open>Scanner\<close>

definition startScheduler :: "(boot, unit) state" where
  "startScheduler = act (Opened (Goroutine ''scheduler''))"

definition scanner_gracefulShutdown :: "env \<Rightarrow> (boot, unit) state" where
  "scanner_gracefulShutdown E = do { _ \<leftarrow> cancel_and_wait ''scheduler''; server_Shutdown E ''metrics'' }"

definition scanner_serve :: "env \<Rightarrow> (boot, error + unit) state" where
  "scanner_serve E = do {
     _ \<leftarrow> act (Opened (Server ''metrics''));
     r \<leftarrow> await_end E;
     _ \<leftarrow> scanner_gracefulShutdown E;
     State_Monad.return r
   }"

definition scanner_Run :: "env \<Rightarrow> (boot, error + unit) state" where
  "scanner_Run E =
     bindE (ConnectRedis E) (\<lambda>_. deferring (act (Closed Redis)) (
     bindE (wrap ''run migrations'' (RunMigrationsFS E ServiceSchema)) (\<lambda>_.
     bindE (wrap ''connect to database'' (NewPool E)) (\<lambda>_. deferring (act (Closed PgPool)) (
     bindE (ConnectBroker E StreamReleases SubjectsReleases) (\<lambda>_. deferring (act (Closed Nats)) (
     bindE (EnsureEventStreams E) (\<lambda>_.
     bindE (wrap ''start consumers'' (StartConsumers E scanner_specs)) (\<lambda>stops. deferring (stopAll stops) (do {
       _ \<leftarrow> startScheduler;
       scanner_serve E
     }))))))))))"

subsection \<open>Saga\<close>

text \<open>
  \<open>newCoordinator\<close>: the client of the compensation service, if the transport is gRPC, and its closer. \<open>Dial\<close> opens
  no connection and does not fail.
\<close>

definition Dial :: "(boot, error + unit) state" where
  "Dial = do { _ \<leftarrow> act (Opened CompensationClient); ok () }"

definition newCoordinator :: "string \<Rightarrow> (boot, error + resource list) state" where
  "newCoordinator transport =
     (if transport = transportGRPC
      then bindE (wrap ''build grpc compensator'' Dial) (\<lambda>_. ok [CompensationClient])
      else ok [])"

definition saga_gracefulShutdown :: "env \<Rightarrow> (boot, unit) state" where
  "saga_gracefulShutdown E = server_Shutdown E ''metrics''"

definition saga_serve :: "env \<Rightarrow> (boot, error + unit) state" where
  "saga_serve E = do {
     _ \<leftarrow> act (Opened (Server ''metrics''));
     r \<leftarrow> await_end E;
     _ \<leftarrow> saga_gracefulShutdown E;
     State_Monad.return r
   }"

definition saga_Run :: "env \<Rightarrow> string \<Rightarrow> (boot, error + unit) state" where
  "saga_Run E transport =
     bindE (wrap ''run migrations'' (RunMigrationsFS E ServiceSchema)) (\<lambda>_.
     bindE (wrap ''run outbox migrations'' (RunMigrationsFS E OutboxSchema)) (\<lambda>_.
     bindE (wrap ''connect to database'' (NewPool E)) (\<lambda>_. deferring (act (Closed PgPool)) (
     bindE (ConnectBroker E StreamSagas SubjectsSagas) (\<lambda>_. deferring (act (Closed Nats)) (
     bindE (EnsureEventStreams E) (\<lambda>_.
     bindE (newCoordinator transport) (\<lambda>closers. deferring (cleanupClosers closers) (
     bindE (wrap ''start consumers'' (StartConsumers E saga_specs)) (\<lambda>stops. deferring (stopAll stops) (do {
       _ \<leftarrow> act (Detached ''relay'');
       saga_serve E
     })))))))))))"

subsection \<open>The process\<close>

text \<open>
  \<open>launch\<close>: a missing \<open>.env\<close> is only logged, a configuration that does not load ends the process before it has opened
  anything; \<open>Main\<close>: the exit status. The variables are those of the environment with those of \<open>.env\<close>.
\<close>

definition launch :: "env \<Rightarrow> error + 'c \<Rightarrow> ('c \<Rightarrow> (boot, error + unit) state) \<Rightarrow> (boot, error + unit) state" where
  "launch E load run = do {
     _ \<leftarrow> attempt E;
     bindE (wrap ''load config'' (liftE load)) (\<lambda>cfg. do {
       _ \<leftarrow> act (Opened Signals);
       deferring (act (Closed Signals)) (run cfg)
     })
   }"

definition bootstrap_Main :: "env \<Rightarrow> error + 'c \<Rightarrow> ('c \<Rightarrow> (boot, error + unit) state) \<Rightarrow> (boot, nat) state" where
  "bootstrap_Main E load run = do {
     r \<leftarrow> launch E load run;
     State_Monad.return (case r of Inl e \<Rightarrow> 1 | Inr _ \<Rightarrow> 0)
   }"

text \<open>The four programs under \<open>cmd\<close>.\<close>

definition subscription_main :: "env \<Rightarrow> process \<Rightarrow> environ \<Rightarrow> (boot, nat) state" where
  "subscription_main E process environ = bootstrap_Main E (LoadSubscription process environ) (\<lambda>_. subscription_Run E)"

definition notifier_main :: "env \<Rightarrow> process \<Rightarrow> environ \<Rightarrow> (boot, nat) state" where
  "notifier_main E process environ = bootstrap_Main E (LoadNotifier process environ) (\<lambda>_. notifier_Run E)"

definition scanner_main :: "env \<Rightarrow> process \<Rightarrow> environ \<Rightarrow> (boot, nat) state" where
  "scanner_main E process environ = bootstrap_Main E (LoadScanner process environ) (\<lambda>_. scanner_Run E)"

definition saga_main :: "env \<Rightarrow> process \<Rightarrow> environ \<Rightarrow> (boot, nat) state" where
  "saga_main E process environ =
     bootstrap_Main E (LoadSaga process environ) (\<lambda>cfg. saga_Run E (saga_CompensateTransport cfg))"

end
