(* ===== verification/Subscription.thy ===== *)
theory Subscription
  imports Publishing
begin

text \<open>
  The subscription service (\<open>internal/subscription\<close>): domain objects and tokens, the tables
  \<open>repositories\<close> and \<open>subscriptions\<close> with their repositories, the use cases subscribe,
  confirm, unsubscribe, list, compensate and cleanup, and the consumer of compensation
  commands.
\<close>

section \<open>Domain\<close>

record repo_row =
  rp_id :: uuid
  rp_name :: string
  rp_created :: time

record sub_row =
  sb_id :: uuid
  sb_repo :: uuid
  sb_email :: string
  sb_token :: string
  sb_confirmed :: bool
  sb_created :: time

record sub_view =
  vw_email :: string
  vw_repo :: string
  vw_confirmed :: bool

definition tokenBytes :: nat where
  "tokenBytes = 32"

text \<open>\<open>hex.EncodeToString\<close>: two lower-case digits per byte, the high nibble first.\<close>

definition hex_digit :: "nat \<Rightarrow> char" where
  "hex_digit n = (if n < 10 then char_of (48 + n) else char_of (87 + n))"

definition hex_byte :: "byte \<Rightarrow> string" where
  "hex_byte b = [hex_digit (unat b div 16), hex_digit (unat b mod 16)]"

definition EncodeToString :: "byte list \<Rightarrow> string" where
  "EncodeToString bs = concat (map hex_byte bs)"

definition randomToken :: "env \<Rightarrow> ('db world, error + string) state" where
  "randomToken E =
     bindE (wrap ''generate random bytes'' (RandRead E tokenBytes)) (\<lambda>b. ok (EncodeToString b))"

text \<open>\<open>NewSubscription\<close> leaves the other fields of the struct at their zero values.\<close>

definition NewSubscription :: "env \<Rightarrow> uuid \<Rightarrow> string \<Rightarrow> ('db world, error + sub_row) state" where
  "NewSubscription E repositoryID email =
     bindE (wrap ''generate unsubscribe token'' (randomToken E)) (\<lambda>token.
       ok \<lparr>sb_id = 0, sb_repo = repositoryID, sb_email = email, sb_token = token,
           sb_confirmed = False, sb_created = 0\<rparr>)"

section \<open>Confirmation tokens\<close>

record jwtClaims =
  jc_repo :: string
  jc_sub :: string
  jc_iat :: time
  jc_exp :: time

text \<open>
  The JWT library with the service's secret: \<open>jwt_sign\<close> is \<open>SignedString\<close> with HS256,
  \<open>jwt_parse now\<close> is \<open>ParseWithClaims\<close> restricted to HS256 at time \<open>now\<close>. \<open>NewNumericDate\<close>
  cuts a time, counted in nanoseconds, to seconds.
\<close>

record jwt =
  jwt_sign :: "jwtClaims \<Rightarrow> error + string"
  jwt_parse :: "time \<Rightarrow> string \<Rightarrow> error + jwtClaims"

definition NewNumericDate :: "time \<Rightarrow> time" where
  "NewNumericDate t = t div 1000000000 * 1000000000"

definition Issue :: "env \<Rightarrow> jwt \<Rightarrow> duration \<Rightarrow> string \<Rightarrow> string \<Rightarrow> ('db world, error + string) state" where
  "Issue E J ttl email repo = do {
     now \<leftarrow> Now E;
     wrap ''sign confirmation token'' (liftE (jwt_sign J
       \<lparr>jc_repo = repo, jc_sub = email, jc_iat = NewNumericDate now, jc_exp = NewNumericDate (now + ttl)\<rparr>))
   }"

definition Verify :: "env \<Rightarrow> jwt \<Rightarrow> string \<Rightarrow> ('db world, error + string \<times> string) state" where
  "Verify E J token = do {
     now \<leftarrow> Now E;
     case jwt_parse J now token of
       Inl e \<Rightarrow>
         if errors_Is e ErrTokenExpired then err (Sentinel ErrExpired)
         else err (Errorf2 (Sentinel ErrInvalid) e)
     | Inr claims \<Rightarrow> ok (jc_sub claims, jc_repo claims)
   }"

section \<open>Repositories\<close>

text \<open>
  The structs of \<open>rows.go\<close>, by the \<open>db\<close> tags of their fields. A row that was read is copied field by field into the struct of the
  domain: one record stands for both.
\<close>

definition repositoryRow :: "string list" where
  "repositoryRow = [''id'', ''name'', ''created_at'']"

definition subscriptionRow :: "string list" where
  "subscriptionRow = [''id'', ''repository_id'', ''email'', ''unsubscribe_token'', ''confirmed'', ''created_at'']"

definition subscriptionViewRow :: "string list" where
  "subscriptionViewRow = [''email'', ''repo'', ''confirmed'']"

definition removedRow :: "string list" where
  "removedRow = [''email'', ''repo'']"

record sub_db = outbox_db +
  repositories :: "repo_row list"
  subscriptions :: "sub_row list"

text \<open>
  \<open>INSERT ... ON CONFLICT (name) DO UPDATE SET name = EXCLUDED.name RETURNING ...\<close>: an existing
  row comes back as it is.
\<close>

definition get_or_create :: "string \<Rightarrow> ('a sub_db_scheme, repo_row list) stmt" where
  "get_or_create name i d =
     (case filter (\<lambda>r. rp_name r = name) (repositories d) of
        r # rs \<Rightarrow> Inr (r # rs, d)
      | [] \<Rightarrow>
          if \<exists>r \<in> set (repositories d). rp_id r = st_uuid i
          then Inl ''duplicate key value violates unique constraint repositories_pkey''
          else let r = \<lparr>rp_id = st_uuid i, rp_name = name, rp_created = st_now i\<rparr>
               in Inr ([r], d\<lparr>repositories := repositories d @ [r]\<rparr>))"

definition GetOrCreate :: "env \<Rightarrow> ctx \<Rightarrow> string \<Rightarrow> ('a sub_db_scheme world, error + repo_row) state" where
  "GetOrCreate E c name =
     bindE (wrap ''get or create repository'' (sql E (FromContext c) (get_or_create name))) (\<lambda>rows.
       wrap ''get or create repository''
         (liftE (CollectExactlyOneRow (RowToStructByName repositoryRow [''id'', ''name'', ''created_at'']) rows)))"

text \<open>
  \<open>INSERT ... ON CONFLICT (email, repository_id) DO NOTHING\<close>, with the other constraints of the
  table; the result is the number of affected rows.
\<close>

definition insert_subscription :: "sub_row \<Rightarrow> ('a sub_db_scheme, nat) stmt" where
  "insert_subscription s i d =
     (if \<exists>x \<in> set (subscriptions d). sb_email x = sb_email s \<and> sb_repo x = sb_repo s then Inr (0, d)
      else if \<exists>x \<in> set (subscriptions d). sb_token x = sb_token s
      then Inl ''duplicate key value violates unique constraint subscriptions_unsubscribe_token_key''
      else if \<exists>x \<in> set (subscriptions d). sb_id x = st_uuid i
      then Inl ''duplicate key value violates unique constraint subscriptions_pkey''
      else if \<forall>r \<in> set (repositories d). rp_id r \<noteq> sb_repo s
      then Inl ''insert or update on table subscriptions violates foreign key constraint''
      else Inr (1, d\<lparr>subscriptions := subscriptions d @
             [s\<lparr>sb_id := st_uuid i, sb_created := st_now i\<rparr>]\<rparr>))"

definition Create :: "env \<Rightarrow> ctx \<Rightarrow> sub_row \<Rightarrow> ('a sub_db_scheme world, error + unit) state" where
  "Create E c s =
     bindE (wrap ''create subscription'' (sql E (FromContext c) (insert_subscription s))) (\<lambda>n.
       if n = 0 then err (Sentinel ErrAlreadyExists) else ok ())"

definition find_subscription :: "string \<Rightarrow> uuid \<Rightarrow> ('a sub_db_scheme, sub_row list) stmt" where
  "find_subscription email repoID i d =
     Inr (filter (\<lambda>s. sb_email s = email \<and> sb_repo s = repoID) (subscriptions d), d)"

definition FindByEmailAndRepo :: "env \<Rightarrow> ctx \<Rightarrow> string \<Rightarrow> uuid \<Rightarrow>
    ('a sub_db_scheme world, error + sub_row) state" where
  "FindByEmailAndRepo E c email repoID =
     bindE (wrap ''find subscription'' (sql E (FromContext c) (find_subscription email repoID))) (\<lambda>rows.
       case CollectExactlyOneRow (RowToStructByName subscriptionRow
           [''id'', ''repository_id'', ''email'', ''unsubscribe_token'', ''confirmed'', ''created_at'']) rows of
         Inr s \<Rightarrow> ok s
       | Inl e \<Rightarrow>
           if errors_Is e ErrNoRows then err (Sentinel ErrNotFound)
           else err (Errorf ''find subscription'' e))"

text \<open>The join of a subscription with the repositories it refers to.\<close>

definition repos_of :: "'a sub_db_scheme \<Rightarrow> sub_row \<Rightarrow> repo_row list" where
  "repos_of d s = filter (\<lambda>r. rp_id r = sb_repo s) (repositories d)"

definition selects_pending :: "string \<Rightarrow> string \<Rightarrow> 'a sub_db_scheme \<Rightarrow> sub_row \<Rightarrow> bool" where
  "selects_pending email repo d s \<longleftrightarrow>
     (\<exists>r \<in> set (repos_of d s). rp_name r = repo) \<and> sb_email s = email \<and> \<not> sb_confirmed s"

definition confirm_rows :: "string \<Rightarrow> string \<Rightarrow> ('a sub_db_scheme, string list) stmt" where
  "confirm_rows email repo i d =
     Inr (map sb_token (filter (selects_pending email repo d) (subscriptions d)),
          d\<lparr>subscriptions := map (\<lambda>s. if selects_pending email repo d s then s\<lparr>sb_confirmed := True\<rparr> else s)
              (subscriptions d)\<rparr>)"

text \<open>\<open>ConfirmResult\<close>: \<open>None\<close> is \<open>Confirmed: false\<close>, \<open>Some t\<close> carries the unsubscribe token.\<close>

definition Confirm :: "env \<Rightarrow> ctx \<Rightarrow> string \<Rightarrow> string \<Rightarrow> ('a sub_db_scheme world, error + string option) state" where
  "Confirm E c email repo = do {
     r \<leftarrow> QueryRow E (FromContext c) (confirm_rows email repo);
     case r of
       Inr token \<Rightarrow> ok (Some token)
     | Inl e \<Rightarrow>
         if errors_Is e ErrNoRows then ok None
         else err (Errorf ''confirm subscription'' e)
   }"

definition removed_of :: "'a sub_db_scheme \<Rightarrow> sub_row list \<Rightarrow> (string \<times> string) list" where
  "removed_of d ss = concat (map (\<lambda>s. map (\<lambda>r. (sb_email s, rp_name r)) (repos_of d s)) ss)"

definition delete_token :: "string \<Rightarrow> ('a sub_db_scheme, (string \<times> string) list) stmt" where
  "delete_token token i d =
     Inr (removed_of d (filter (\<lambda>s. sb_token s = token) (subscriptions d)),
          d\<lparr>subscriptions := filter (\<lambda>s. sb_token s \<noteq> token) (subscriptions d)\<rparr>)"

definition Delete :: "env \<Rightarrow> ctx \<Rightarrow> string \<Rightarrow> ('a sub_db_scheme world, error + string \<times> string) state" where
  "Delete E c token = do {
     r \<leftarrow> QueryRow E (FromContext c) (delete_token token);
     case r of
       Inr removed \<Rightarrow> ok removed
     | Inl e \<Rightarrow>
         if errors_Is e ErrNoRows then err (Sentinel ErrNotFound)
         else err (Errorf ''delete subscription'' e)
   }"

definition delete_pending :: "string \<Rightarrow> string \<Rightarrow> ('a sub_db_scheme, nat) stmt" where
  "delete_pending email repo i d =
     Inr (length (filter (selects_pending email repo d) (subscriptions d)),
          d\<lparr>subscriptions := filter (\<lambda>s. \<not> selects_pending email repo d s) (subscriptions d)\<rparr>)"

definition DeletePendingByEmailAndRepo :: "env \<Rightarrow> ctx \<Rightarrow> string \<Rightarrow> string \<Rightarrow>
    ('a sub_db_scheme world, error + bool) state" where
  "DeletePendingByEmailAndRepo E c email repo =
     bindE (wrap ''delete pending subscription'' (sql E (FromContext c) (delete_pending email repo)))
       (\<lambda>n. ok (n > 0))"

definition delete_expired :: "time \<Rightarrow> ('a sub_db_scheme, (string \<times> string) list) stmt" where
  "delete_expired cutoff i d =
     (let old = (\<lambda>s. \<not> sb_confirmed s \<and> sb_created s < cutoff) in
      Inr (removed_of d (filter old (subscriptions d)),
           d\<lparr>subscriptions := filter (\<lambda>s. \<not> old s) (subscriptions d)\<rparr>))"

definition DeleteExpiredPending :: "env \<Rightarrow> ctx \<Rightarrow> time \<Rightarrow>
    ('a sub_db_scheme world, error + (string \<times> string) list) state" where
  "DeleteExpiredPending E c cutoff =
     bindE (wrap ''delete expired pending'' (sql E (FromContext c) (delete_expired cutoff))) (\<lambda>rows.
       wrap ''collect expired pending'' (liftE (CollectRows (RowToStructByName removedRow [''email'', ''name'']) rows)))"

text \<open>\<open>ORDER BY created_at DESC\<close>; rows with the same time come in any order, here the table's.\<close>

definition views_by_email :: "string \<Rightarrow> ('a sub_db_scheme, sub_view list) stmt" where
  "views_by_email email i d =
     Inr (concat (map (\<lambda>s. map (\<lambda>r. \<lparr>vw_email = sb_email s, vw_repo = rp_name r, vw_confirmed = sb_confirmed s\<rparr>)
             (repos_of d s))
           (sort_key (\<lambda>s. - sb_created s) (filter (\<lambda>s. sb_email s = email) (subscriptions d)))), d)"

definition GetByEmail :: "env \<Rightarrow> ctx \<Rightarrow> string \<Rightarrow> ('a sub_db_scheme world, error + sub_view list) state" where
  "GetByEmail E c email =
     bindE (wrap ''get by email'' (sql E (FromContext c) (views_by_email email))) (\<lambda>rows.
       wrap ''collect subscription views''
         (liftE (CollectRows (RowToStructByName subscriptionViewRow [''email'', ''repo'', ''confirmed'']) rows)))"

text \<open>
  All columns but one have their fields. The statement of \<open>DeleteExpiredPending\<close> returns a column \<open>name\<close> where the struct
  expects \<open>repo\<close>: it cannot read any row.
\<close>

lemma GetOrCreate_eq:
  "GetOrCreate E c name =
     bindE (wrap ''get or create repository'' (sql E (FromContext c) (get_or_create name))) (\<lambda>rows.
       wrap ''get or create repository'' (liftE (exactly_one rows)))"
  by (simp add: GetOrCreate_def collect_matching repositoryRow_def)

lemma FindByEmailAndRepo_eq:
  "FindByEmailAndRepo E c email repoID =
     bindE (wrap ''find subscription'' (sql E (FromContext c) (find_subscription email repoID))) (\<lambda>rows.
       case exactly_one rows of
         Inr s \<Rightarrow> ok s
       | Inl e \<Rightarrow>
           if errors_Is e ErrNoRows then err (Sentinel ErrNotFound)
           else err (Errorf ''find subscription'' e))"
  by (simp add: FindByEmailAndRepo_def collect_matching subscriptionRow_def)

lemma GetByEmail_eq: "GetByEmail E c email = wrap ''get by email'' (sql E (FromContext c) (views_by_email email))"
  by (simp add: GetByEmail_def collect_matching subscriptionViewRow_def collect_ok)

lemma removed_unreadable: "CollectRows (RowToStructByName removedRow [''email'', ''name'']) rows =
    (if rows = [] then Inr [] else Inl (External ''cannot find field in returned row''))"
proof -
  have "''repo'' \<in> set removedRow" "''repo'' \<notin> set [''email'', ''name'']" by (simp_all add: removedRow_def)
  then have "set removedRow \<noteq> set [''email'', ''name'']" by metis
  then show ?thesis by (cases rows) (simp_all only: CollectRows_by_name list.distinct simp_thms if_True if_False)
qed

section \<open>Use cases\<close>

text \<open>
  The subscribe use case. \<open>gh\<close> is the \<open>gitHubClient\<close> interface (\<open>RepoExists\<close>), \<open>J\<close> and \<open>ttl\<close>
  the token issuer, \<open>base\<close> the URL builder's base URL.
\<close>

type_synonym 'db gitHubClient = "ctx \<Rightarrow> string \<Rightarrow> string \<Rightarrow> ('db world, error + bool) state"

definition ensureRepoExists :: "'db gitHubClient \<Rightarrow> ctx \<Rightarrow> string \<Rightarrow> string \<Rightarrow> ('db world, error + unit) state" where
  "ensureRepoExists gh c owner name =
     bindE (wrap ''check repo exists'' (gh c owner name)) (\<lambda>exists.
       if \<not> exists then err (Sentinel ErrRepoNotFound) else ok ())"

definition resolveExisting :: "env \<Rightarrow> ctx \<Rightarrow> string \<Rightarrow> uuid \<Rightarrow> ('a sub_db_scheme world, error + bool) state" where
  "resolveExisting E c email repoID = do {
     r \<leftarrow> FindByEmailAndRepo E c email repoID;
     case r of
       Inr existing \<Rightarrow> if sb_confirmed existing then err (Sentinel ErrAlreadyExists) else ok False
     | Inl e \<Rightarrow> if errors_Is e ErrNotFound then ok True else err (Errorf ''find subscription'' e)
   }"

definition emitPending :: "env \<Rightarrow> jwt \<Rightarrow> duration \<Rightarrow> string \<Rightarrow> ctx \<Rightarrow> string \<Rightarrow> string \<Rightarrow> uuid \<Rightarrow> bool \<Rightarrow>
    ('a sub_db_scheme world, error + unit) state" where
  "emitPending E J ttl base c email repo repoID isNew =
     bindE (wrap ''issue confirmation token'' (Issue E J ttl email repo)) (\<lambda>token.
     bindE (if isNew then bindE (wrap ''new subscription'' (NewSubscription E repoID email)) (\<lambda>s. ok (Some s))
            else ok None) (\<lambda>sub. do {
       sagaID \<leftarrow> NewString E;
       bindE (Within E c (\<lambda>txCtx.
         bindE (case sub of None \<Rightarrow> ok () | Some s \<Rightarrow> Create E txCtx s) (\<lambda>_.
           pub_SubscriptionPending E txCtx
             (SubscriptionPending sagaID email repo (URLBuilder_ConfirmURL base token))))) (\<lambda>_. do {
       _ \<leftarrow> Notify;
       ok ()
     })}))"

definition subscribe_Execute :: "env \<Rightarrow> 'a sub_db_scheme gitHubClient \<Rightarrow> jwt \<Rightarrow> duration \<Rightarrow> string \<Rightarrow> ctx \<Rightarrow>
    string \<Rightarrow> string \<Rightarrow> ('a sub_db_scheme world, error + unit) state" where
  "subscribe_Execute E gh J ttl base c email repo =
     bindE (liftE (ParseRepo repo)) (\<lambda>(owner, name).
     bindE (ensureRepoExists gh c owner name) (\<lambda>_.
     bindE (wrap ''ensure repository'' (GetOrCreate E c repo)) (\<lambda>r.
     bindE (resolveExisting E c email (rp_id r)) (\<lambda>isNew.
       emitPending E J ttl base c email repo (rp_id r) isNew))))"

definition confirm_Execute :: "env \<Rightarrow> jwt \<Rightarrow> ctx \<Rightarrow> string \<Rightarrow> ('a sub_db_scheme world, error + unit) state" where
  "confirm_Execute E J c token =
     bindE (Verify E J token) (\<lambda>(email, repo).
     bindE (Within E c (\<lambda>txCtx.
       bindE (Confirm E txCtx email repo) (\<lambda>result.
         case result of
           None \<Rightarrow> ok None
         | Some unsubToken \<Rightarrow> do {
             sagaID \<leftarrow> NewString E;
             bindE (pub_SubscriptionConfirmed E txCtx
                      (SubscriptionConfirmed sagaID email repo unsubToken)) (\<lambda>_. ok result)
           }))) (\<lambda>result.
       if result \<noteq> None then do { _ \<leftarrow> Notify; ok () } else ok ()))"

definition unsubscribe_Execute :: "env \<Rightarrow> ctx \<Rightarrow> string \<Rightarrow> ('a sub_db_scheme world, error + unit) state" where
  "unsubscribe_Execute E c token =
     bindE (Within E c (\<lambda>txCtx.
       bindE (Delete E txCtx token) (\<lambda>(email, repo). do {
         sagaID \<leftarrow> NewString E;
         pub_SubscriptionRemoved E txCtx (SubscriptionRemoved sagaID email repo)
       }))) (\<lambda>_. do { _ \<leftarrow> Notify; ok () })"

definition list_Execute :: "env \<Rightarrow> ctx \<Rightarrow> string \<Rightarrow> ('a sub_db_scheme world, error + sub_view list) state" where
  "list_Execute E c email = GetByEmail E c email"

definition compensate_Execute :: "env \<Rightarrow> ctx \<Rightarrow> string \<Rightarrow> string \<Rightarrow> ('a sub_db_scheme world, error + bool) state" where
  "compensate_Execute E c email repo = DeletePendingByEmailAndRepo E c email repo"

primrec publish_expired :: "env \<Rightarrow> ctx \<Rightarrow> (string \<times> string) list \<Rightarrow> ('a sub_db_scheme world, error + unit) state" where
  "publish_expired E c [] = ok ()"
| "publish_expired E c (s # ss) = do {
     sagaID \<leftarrow> NewString E;
     bindE (pub_SubscriptionExpired E c (SubscriptionExpired sagaID (fst s) (snd s)))
       (\<lambda>_. publish_expired E c ss)
   }"

text \<open>The operations with the methods of the publisher unfolded.\<close>

lemmas emitPending_body = emitPending_def [unfolded publisher_methods]

lemmas confirm_Execute_body = confirm_Execute_def [unfolded publisher_methods]

lemmas unsubscribe_Execute_body = unsubscribe_Execute_def [unfolded publisher_methods]

definition cleanup_Run :: "env \<Rightarrow> duration \<Rightarrow> ctx \<Rightarrow> ('a sub_db_scheme world, error + unit) state" where
  "cleanup_Run E maxAge c = do {
     now \<leftarrow> Now E;
     bindE (wrap ''clean up expired pending subscriptions'' (Within E c (\<lambda>txCtx.
       bindE (DeleteExpiredPending E txCtx (now - maxAge)) (\<lambda>expired.
         bindE (publish_expired E txCtx expired) (\<lambda>_. ok expired))))) (\<lambda>expired.
       if length expired > 0 then do { _ \<leftarrow> Notify; ok () } else ok ())
   }"

section \<open>Consumer\<close>

definition HandleCompensate :: "env \<Rightarrow> ctx \<Rightarrow> 'a sub_db_scheme handler" where
  "HandleCompensate E c data = bindE (decode_event E TSagaCompensate data) (\<lambda>ev.
     bindE (compensate_Execute E (WithSagaID c (SagaID ev)) (Email ev) (RepoName ev)) (\<lambda>_. ok ()))"

section \<open>Invariants of the subscription database\<close>

text \<open>
  A pending subscription is announced with a link the service signed for it, a confirmation for a
  pair that a presented token stands for; the other events are announced freely.
\<close>

locale sub_tables = outbox_invariant P E emits
  for P :: "nat \<Rightarrow> 'a sub_db_scheme \<Rightarrow> bool" and E emits +
  assumes keeps_get_or_create: "stmt_keeps P (get_or_create name)"
    and keeps_insert: "stmt_keeps P (insert_subscription s)"
    and keeps_confirm: "stmt_keeps P (confirm_rows email repo)"
    and keeps_delete_token: "stmt_keeps P (delete_token token)"
    and keeps_delete_pending: "stmt_keeps P (delete_pending email repo)"
    and keeps_delete_expired: "stmt_keeps P (delete_expired cutoff)"
    and emits_freely [preserves_rules]:
      "emits SubjectSubscriptionRemoved (SubscriptionRemoved sid email repo)"
      "emits SubjectSubscriptionExpired (SubscriptionExpired sid email repo)"
begin

lemmas keeps_tables = keeps_get_or_create keeps_insert keeps_confirm keeps_delete_token
  keeps_delete_pending keeps_delete_expired

lemma preserves_repositories [preserves_rules]:
  "preserves (db_inv P) (GetOrCreate E c name)" "preserves (db_inv P) (Create E c s)"
  "preserves (db_inv P) (Confirm E c email repo)" "preserves (db_inv P) (Delete E c token)"
  "preserves (db_inv P) (DeletePendingByEmailAndRepo E c email repo)"
  "preserves (db_inv P) (DeleteExpiredPending E c cutoff)"
  unfolding GetOrCreate_eq Create_def Confirm_def Delete_def DeletePendingByEmailAndRepo_def
    DeleteExpiredPending_def
  by (intro preserves_rules keeps_tables)+

lemma preserves_queries [preserves_rules]:
  "preserves (db_inv P) (FindByEmailAndRepo E c email rid)" "preserves (db_inv P) (GetByEmail E c email)"
  unfolding FindByEmailAndRepo_eq GetByEmail_eq
  by (intro preserves_rules keeps_readonly; simp add: find_subscription_def views_by_email_def)+

lemma preserves_tokens [preserves_rules]:
  "preserves (db_inv P) (NewSubscription E rid email)" "preserves (db_inv P) (Issue E J ttl email repo)"
  "preserves (db_inv P) (Verify E J token)"
  unfolding NewSubscription_def randomToken_def Issue_def Verify_def
  by (intro preserves_rules)+

lemma preserves_publish_expired [preserves_rules]: "preserves (db_inv P) (publish_expired E c ss)"
  by (induction ss) (auto intro!: preserves_rules)

lemma preserves_emitPending:
  assumes "\<And>token sid w w'. run_state (Issue E J ttl email repo) (w :: 'a sub_db_scheme world) = (Inr token, w') \<Longrightarrow>
    emits SubjectSubscriptionPending (SubscriptionPending sid email repo (URLBuilder_ConfirmURL base token))"
  shows "preserves (db_inv P) (emitPending E J ttl base c email repo rid isNew)"
  unfolding emitPending_body
  by (rule preserves_bindE_result)
    (auto intro!: preserves_rules dest: assms simp: wrap_Inr)

lemma preserves_subscribe:
  assumes "\<And>c owner name. preserves (db_inv P) (gh c owner name)"
    and "\<And>token sid w w'. run_state (Issue E J ttl email repo) (w :: 'a sub_db_scheme world) = (Inr token, w') \<Longrightarrow>
      emits SubjectSubscriptionPending (SubscriptionPending sid email repo (URLBuilder_ConfirmURL base token))"
  shows "preserves (db_inv P) (subscribe_Execute E gh J ttl base c email repo)"
  unfolding subscribe_Execute_def ensureRepoExists_def resolveExisting_def
  by (intro preserves_rules preserves_emitPending assms)

lemma preserves_confirm:
  assumes "\<And>email repo sid t w w'. run_state (Verify E J token) (w :: 'a sub_db_scheme world) = (Inr (email, repo), w') \<Longrightarrow>
    emits SubjectSubscriptionConfirmed (SubscriptionConfirmed sid email repo t)"
  shows "preserves (db_inv P) (confirm_Execute E J c token)"
  unfolding confirm_Execute_body
  by (rule preserves_bindE_result) (auto intro!: preserves_rules dest: assms)

lemma preserves_use_cases:
  "preserves (db_inv P) (unsubscribe_Execute E c token)"
  "preserves (db_inv P) (list_Execute E c email)"
  "preserves (db_inv P) (cleanup_Run E maxAge c)"
  "preserves (db_inv P) (compensate_Execute E c email repo)"
  "preserves (db_inv P) (HandleCompensate E c data)"
  unfolding unsubscribe_Execute_body list_Execute_def cleanup_Run_def HandleCompensate_def compensate_Execute_def
  by (intro preserves_rules)+

end

text \<open>
  The constraints of the schema: primary keys, \<open>UNIQUE (name)\<close>, \<open>UNIQUE (unsubscribe_token)\<close>,
  \<open>UNIQUE (email, repository_id)\<close> and the foreign key.
\<close>

definition sub_wf :: "nat \<Rightarrow> 'a sub_db_scheme \<Rightarrow> bool" where
  "sub_wf n d \<longleftrightarrow> outbox_wf n d \<and>
     distinct (map rp_id (repositories d)) \<and> distinct (map rp_name (repositories d)) \<and>
     distinct (map sb_id (subscriptions d)) \<and> distinct (map sb_token (subscriptions d)) \<and>
     distinct (map (\<lambda>s. (sb_email s, sb_repo s)) (subscriptions d)) \<and>
     (\<forall>s \<in> set (subscriptions d). \<exists>r \<in> set (repositories d). rp_id r = sb_repo s)"

lemma sub_wf_filter:
  "sub_wf n d \<Longrightarrow> sub_wf (Suc n) (d\<lparr>subscriptions := filter p (subscriptions d)\<rparr>)"
  by (auto simp: sub_wf_def outbox_wf_def distinct_map_filter)

lemma sub_wf_confirm:
  assumes "sub_wf n d"
  shows "sub_wf (Suc n) (d\<lparr>subscriptions := map (\<lambda>s. if p s then s\<lparr>sb_confirmed := True\<rparr> else s) (subscriptions d)\<rparr>)"
proof -
  let ?u = "\<lambda>s. if p s then s\<lparr>sb_confirmed := True\<rparr> else s"
  have "sb_id \<circ> ?u = sb_id" "sb_token \<circ> ?u = sb_token"
    "(\<lambda>s. (sb_email s, sb_repo s)) \<circ> ?u = (\<lambda>s. (sb_email s, sb_repo s))"
    by auto
  with assms show ?thesis by (auto simp: sub_wf_def outbox_wf_def)
qed

interpretation sub_wf: sub_tables sub_wf E "\<lambda>_ _. True" for E
proof
  show "stmt_keeps sub_wf (get_or_create name)" for name
    by (auto simp: stmt_keeps_def get_or_create_def sub_wf_def outbox_wf_def Let_def filter_empty_conv
        split: list.splits if_splits)
  show "stmt_keeps sub_wf (insert_subscription s)" for s
    by (auto simp: stmt_keeps_def insert_subscription_def sub_wf_def outbox_wf_def split: if_splits)
  show "stmt_keeps sub_wf (confirm_rows email repo)" for email repo
    by (auto simp: stmt_keeps_def confirm_rows_def intro: sub_wf_confirm)
  show "stmt_keeps sub_wf (delete_token token)" for token
    by (auto simp: stmt_keeps_def delete_token_def intro: sub_wf_filter)
  show "stmt_keeps sub_wf (delete_pending email repo)" for email repo
    by (auto simp: stmt_keeps_def delete_pending_def intro: sub_wf_filter)
  show "stmt_keeps sub_wf (delete_expired cutoff)" for cutoff
    by (auto simp: stmt_keeps_def delete_expired_def Let_def intro: sub_wf_filter)
qed (auto simp: stmt_keeps_def insert_outbox_def sub_wf_def outbox_wf_def)

end
