(* ===== verification/Subscription_Spec.thy ===== *)
theory Subscription_Spec
  imports Subscription
begin

text \<open>
  What the subscription service promises, as an abstract machine, and the proof that the use
  cases implement it. The abstract state is the set of pending and the set of confirmed
  subscriptions, each a pair of an e-mail and a repository name; a step of the machine
  announces the events that other services see. A use case changes the abstract state and
  the outbox together, along one step, whatever fails.
\<close>

section \<open>The abstract machine\<close>

type_synonym sub_key = "string \<times> string"
type_synonym spec_state = "sub_key set \<times> sub_key set"

inductive spec_step :: "spec_state \<Rightarrow> event list \<Rightarrow> spec_state \<Rightarrow> bool" where
  idle: "spec_step \<sigma> [] \<sigma>"
| subscribe: "(e, r) \<notin> C \<Longrightarrow> spec_step (P, C) [SubscriptionPending sid e r url] (insert (e, r) P, C)"
| confirm: "(e, r) \<in> P \<Longrightarrow>
    spec_step (P, C) [SubscriptionConfirmed sid e r token] (P - {(e, r)}, insert (e, r) C)"
| remove: "(e, r) \<in> P \<union> C \<Longrightarrow>
    spec_step (P, C) [SubscriptionRemoved sid e r] (P - {(e, r)}, C - {(e, r)})"
| rollback: "(e, r) \<in> P \<Longrightarrow> spec_step (P, C) [] (P - {(e, r)}, C)"
| expire: "distinct ks \<Longrightarrow> set ks \<subseteq> P \<Longrightarrow>
    list_all2 (\<lambda>k ev. \<exists>sid. ev = SubscriptionExpired sid (fst k) (snd k)) ks evs \<Longrightarrow>
    spec_step (P, C) evs (P - set ks, C)"

text \<open>No step makes a subscription confirmed that was not pending, or both at once.\<close>

definition spec_ok :: "spec_state \<Rightarrow> bool" where
  "spec_ok \<sigma> \<longleftrightarrow> fst \<sigma> \<inter> snd \<sigma> = {}"

lemma spec_step_ok: "spec_step \<sigma> evs \<sigma>' \<Longrightarrow> spec_ok \<sigma> \<Longrightarrow> spec_ok \<sigma>'"
  by (induction rule: spec_step.induct) (auto simp: spec_ok_def)

lemma spec_confirmed_was_pending:
  "spec_step \<sigma> evs \<sigma>' \<Longrightarrow> k \<in> snd \<sigma>' \<Longrightarrow> k \<in> snd \<sigma> \<or> k \<in> fst \<sigma>"
  by (induction rule: spec_step.induct) auto

section \<open>The abstraction\<close>

definition key_of :: "'a sub_db_scheme \<Rightarrow> sub_row \<Rightarrow> sub_key" where
  "key_of d s = (sb_email s, case repos_of d s of [] \<Rightarrow> '''' | r # _ \<Rightarrow> rp_name r)"

definition pending :: "'a sub_db_scheme \<Rightarrow> sub_key set" where
  "pending d = key_of d ` {s \<in> set (subscriptions d). \<not> sb_confirmed s}"

definition confirmed :: "'a sub_db_scheme \<Rightarrow> sub_key set" where
  "confirmed d = key_of d ` {s \<in> set (subscriptions d). sb_confirmed s}"

definition sub_abs :: "'a sub_db_scheme \<Rightarrow> spec_state" where
  "sub_abs d = (pending d, confirmed d)"

definition carries :: "event \<Rightarrow> outbox_row \<Rightarrow> bool" where
  "carries ev m \<longleftrightarrow> ob_subject m = subject_of ev \<and> ob_payload m = Doc (encode ev)"

text \<open>The database moved along a step of the machine and its events are the new messages.\<close>

definition refines_db :: "'a sub_db_scheme \<Rightarrow> event list \<Rightarrow> 'a sub_db_scheme \<Rightarrow> bool" where
  "refines_db d evs d' \<longleftrightarrow> spec_step (sub_abs d) evs (sub_abs d') \<and>
     (\<exists>ms. outbox d' = outbox d @ ms \<and> list_all2 carries evs ms)"

definition stepped :: "'a sub_db_scheme \<Rightarrow> 'a sub_db_scheme \<Rightarrow> bool" where
  "stepped d d' \<longleftrightarrow> (\<exists>evs. refines_db d evs d')"

section \<open>Tables and keys\<close>

lemma key_of_cong: "repositories d' = repositories d \<Longrightarrow> key_of d' = key_of d"
  by (simp add: key_of_def repos_of_def fun_eq_iff)

lemma key_of_subs [simp]: "key_of (d\<lparr>subscriptions := ss\<rparr>) = key_of d"
  by (rule key_of_cong) simp

lemma key_of_confirmed [simp]: "key_of d (s\<lparr>sb_confirmed := b\<rparr>) = key_of d s"
  by (simp add: key_of_def repos_of_def)

lemma repos_of_single:
  assumes "sub_wf n d" and "s \<in> set (subscriptions d)"
  shows "\<exists>r. repos_of d s = [r] \<and> r \<in> set (repositories d) \<and> rp_id r = sb_repo s \<and> key_of d s = (sb_email s, rp_name r)"
proof -
  from assms obtain r where r: "r \<in> set (repositories d)" "rp_id r = sb_repo s"
    by (auto simp: sub_wf_def)
  moreover from assms(1) have "distinct (map rp_id (repositories d))" by (simp add: sub_wf_def)
  ultimately have "repos_of d s = [r]"
    using filter_key_single [of rp_id "repositories d" r] by (simp add: repos_of_def)
  with r show ?thesis by (simp add: key_of_def)
qed

lemma selects_pending_key:
  assumes "sub_wf n d" and "s \<in> set (subscriptions d)"
  shows "selects_pending e r d s \<longleftrightarrow> key_of d s = (e, r) \<and> \<not> sb_confirmed s"
  using repos_of_single [OF assms] by (auto simp: selects_pending_def)

lemma removed_of_keys:
  assumes "sub_wf n d" and "set ss \<subseteq> set (subscriptions d)"
  shows "removed_of d ss = map (key_of d) ss"
  using assms(2)
proof (induction ss)
  case (Cons s ss)
  then obtain r where "repos_of d s = [r]" "key_of d s = (sb_email s, rp_name r)"
    using repos_of_single [OF assms(1)] by force
  with Cons show ?case by (simp add: removed_of_def)
qed (simp add: removed_of_def)

lemma key_of_inj:
  assumes wf: "sub_wf n d"
  shows "inj_on (key_of d) (set (subscriptions d))"
proof (rule inj_onI)
  fix s t
  assume s: "s \<in> set (subscriptions d)" and t: "t \<in> set (subscriptions d)" and eq: "key_of d s = key_of d t"
  obtain r where r: "r \<in> set (repositories d)" "rp_id r = sb_repo s" "key_of d s = (sb_email s, rp_name r)"
    using repos_of_single [OF wf s] by blast
  obtain q where q: "q \<in> set (repositories d)" "rp_id q = sb_repo t" "key_of d t = (sb_email t, rp_name q)"
    using repos_of_single [OF wf t] by blast
  from eq r q have "rp_name r = rp_name q" "sb_email s = sb_email t" by simp_all
  with r q wf have "r = q" by (auto simp: sub_wf_def distinct_map inj_on_def)
  with r q \<open>sb_email s = sb_email t\<close> have "(sb_email s, sb_repo s) = (sb_email t, sb_repo t)" by simp
  with s t wf show "s = t" by (auto simp: sub_wf_def distinct_map inj_on_def)
qed

lemma pending_not_confirmed:
  assumes "sub_wf n d"
  shows "spec_ok (sub_abs d)"
  using key_of_inj [OF assms] by (force simp: spec_ok_def sub_abs_def pending_def confirmed_def inj_on_def)

section \<open>The statements refine the machine\<close>

lemma abs_with_message [simp]: "sub_abs (with_message n s ev d) = sub_abs d"
  by (simp add: sub_abs_def pending_def confirmed_def key_of_def repos_of_def with_message_def)

lemma pending_with_message [simp]:
  "pending (with_message n s ev d) = pending d" "confirmed (with_message n s ev d) = confirmed d"
  by (simp_all add: pending_def confirmed_def key_of_def repos_of_def with_message_def)

lemma subscriptions_with_message [simp]: "subscriptions (with_message n s ev d) = subscriptions d"
  by (simp add: with_message_def)

lemma sub_abs_cong:
  assumes "subscriptions d' = subscriptions d" and "\<And>s. s \<in> set (subscriptions d) \<Longrightarrow> key_of d' s = key_of d s"
  shows "sub_abs d' = sub_abs d"
  using assms by (auto simp: sub_abs_def pending_def confirmed_def)

lemma abs_get_or_create:
  assumes wf: "sub_wf n d" and "get_or_create name i d = Inr (rs, d')"
  shows "sub_abs d' = sub_abs d \<and> outbox d' = outbox d \<and>
    (\<exists>r. rs = [r] \<and> r \<in> set (repositories d') \<and> rp_name r = name)"
proof (cases "filter (\<lambda>r. rp_name r = name) (repositories d)")
  case Nil
  let ?r = "\<lparr>rp_id = st_uuid i, rp_name = name, rp_created = st_now i\<rparr>"
  from Nil assms(2) have d': "d' = d\<lparr>repositories := repositories d @ [?r]\<rparr>" "rs = [?r]"
    and fresh: "\<forall>r \<in> set (repositories d). rp_id r \<noteq> st_uuid i"
    by (auto simp: get_or_create_def Let_def split: if_splits)
  have "key_of d' s = key_of d s" if "s \<in> set (subscriptions d)" for s
    using repos_of_single [OF wf that] fresh by (auto simp: key_of_def repos_of_def d')
  then have "sub_abs d' = sub_abs d" by (intro sub_abs_cong) (simp_all add: d')
  then show ?thesis by (simp add: d')
next
  case (Cons r rs')
  then have "r \<in> set (repositories d)" "rp_name r = name" by (auto dest: filter_eq_ConsD)
  with wf filter_key_single [of rp_name "repositories d" r]
  have "filter (\<lambda>r. rp_name r = name) (repositories d) = [r]" by (simp add: sub_wf_def)
  with assms(2) have "rs = [r]" "d' = d" by (simp_all add: get_or_create_def)
  with \<open>r \<in> set (repositories d)\<close> \<open>rp_name r = name\<close> show ?thesis by simp
qed

lemma abs_insert:
  assumes wf: "sub_wf n d" and ins: "insert_subscription s i d = Inr (Suc k, d')"
    and r: "r \<in> set (repositories d)" "rp_id r = sb_repo s" and new: "\<not> sb_confirmed s"
  shows "sub_abs d' = (insert (sb_email s, rp_name r) (pending d), confirmed d) \<and> outbox d' = outbox d \<and>
    (sb_email s, rp_name r) \<notin> confirmed d"
proof -
  let ?s = "s\<lparr>sb_id := st_uuid i, sb_created := st_now i\<rparr>"
  from ins have d': "d' = d\<lparr>subscriptions := subscriptions d @ [?s]\<rparr>"
    and fresh: "\<forall>x \<in> set (subscriptions d). \<not> (sb_email x = sb_email s \<and> sb_repo x = sb_repo s)"
    by (auto simp: insert_subscription_def split: if_splits)
  have "repos_of d ?s = [r]"
    using r wf filter_key_single [of rp_id "repositories d" r] by (simp add: repos_of_def sub_wf_def)
  then have key: "key_of d ?s = (sb_email s, rp_name r)" by (simp add: key_of_def)
  have "key_of d x \<noteq> (sb_email s, rp_name r)" if x: "x \<in> set (subscriptions d)" for x
  proof
    assume eq: "key_of d x = (sb_email s, rp_name r)"
    obtain q where q: "q \<in> set (repositories d)" "rp_id q = sb_repo x" "key_of d x = (sb_email x, rp_name q)"
      using repos_of_single [OF wf x] by blast
    with eq r wf have "q = r" by (auto simp: sub_wf_def distinct_map inj_on_def)
    with q r eq fresh x show False by auto
  qed
  then have "(sb_email s, rp_name r) \<notin> confirmed d" by (force simp: confirmed_def)
  moreover have "{x \<in> set (subscriptions d'). \<not> sb_confirmed x} = insert ?s {x \<in> set (subscriptions d). \<not> sb_confirmed x}"
    "{x \<in> set (subscriptions d'). sb_confirmed x} = {x \<in> set (subscriptions d). sb_confirmed x}"
    using new by (auto simp: d')
  ultimately show ?thesis
    using key by (simp add: sub_abs_def pending_def confirmed_def) (simp add: d')
qed

lemma abs_confirm:
  assumes wf: "sub_wf n d" and "confirm_rows e r i d = Inr (ts, d')"
  shows "outbox d' = outbox d \<and>
    (if ts = [] then d' = d \<and> (e, r) \<notin> pending d
     else (e, r) \<in> pending d \<and> sub_abs d' = (pending d - {(e, r)}, insert (e, r) (confirmed d)))"
proof -
  let ?sel = "\<lambda>s. key_of d s = (e, r) \<and> \<not> sb_confirmed s"
  let ?u = "\<lambda>s. if ?sel s then s\<lparr>sb_confirmed := True\<rparr> else s"
  have sel: "selects_pending e r d s \<longleftrightarrow> ?sel s" if "s \<in> set (subscriptions d)" for s
    using selects_pending_key [OF wf that] .
  from assms(2) have d': "d' = d\<lparr>subscriptions := map ?u (subscriptions d)\<rparr>"
    and ts: "ts = map sb_token (filter ?sel (subscriptions d))"
    by (auto simp: confirm_rows_def sel cong: map_cong filter_cong)
  show ?thesis
  proof (cases "ts = []")
    case True
    then have "map ?u (subscriptions d) = subscriptions d"
      by (intro map_idI) (auto simp: ts filter_empty_conv)
    then have "d' = d" by (simp add: d')
    moreover from True have "(e, r) \<notin> pending d" by (force simp: ts filter_empty_conv pending_def)
    ultimately show ?thesis using True by simp
  next
    case False
    then obtain s where s: "s \<in> set (subscriptions d)" "?sel s" by (auto simp: ts filter_empty_conv)
    have "{s \<in> set (subscriptions d'). \<not> sb_confirmed s} =
        {s \<in> set (subscriptions d). \<not> sb_confirmed s \<and> key_of d s \<noteq> (e, r)}"
      "{s \<in> set (subscriptions d'). sb_confirmed s} = {s \<in> set (subscriptions d). sb_confirmed s} \<union>
         (\<lambda>s. s\<lparr>sb_confirmed := True\<rparr>) ` {s \<in> set (subscriptions d). ?sel s}"
      by (auto simp: d' split: if_splits)
    moreover have "key_of d ` {s \<in> set (subscriptions d). ?sel s} = {(e, r)}" using s by auto
    ultimately have "pending d' = pending d - {(e, r)}" "confirmed d' = insert (e, r) (confirmed d)"
      unfolding pending_def confirmed_def by (auto simp: d' image_Un image_image)
    moreover have "(e, r) \<in> pending d" using s by (force simp: pending_def image_iff)
    ultimately show ?thesis using False by (simp add: sub_abs_def d')
  qed
qed

lemma abs_filter:
  assumes wf: "sub_wf n d" and d': "d' = d\<lparr>subscriptions := filter (\<lambda>s. \<not> p s) (subscriptions d)\<rparr>"
  shows "sub_abs d' =
    (pending d - key_of d ` {s \<in> set (subscriptions d). p s}, confirmed d - key_of d ` {s \<in> set (subscriptions d). p s})"
proof -
  from key_of_inj [OF wf] show ?thesis
    by (auto simp: sub_abs_def pending_def confirmed_def d' inj_on_def image_iff)
qed

lemma abs_delete_token:
  assumes wf: "sub_wf n d" and "delete_token token i d = Inr (rs, d')"
  shows "outbox d' = outbox d \<and>
    (if rs = [] then d' = d
     else \<exists>k \<in> pending d \<union> confirmed d. rs = [k] \<and> sub_abs d' = (pending d - {k}, confirmed d - {k}))"
proof -
  let ?gone = "filter (\<lambda>s. sb_token s = token) (subscriptions d)"
  from assms(2) have d': "d' = d\<lparr>subscriptions := filter (\<lambda>s. \<not> sb_token s = token) (subscriptions d)\<rparr>"
    and rs: "rs = map (key_of d) ?gone"
    by (simp_all add: delete_token_def removed_of_keys [OF wf])
  show ?thesis
  proof (cases ?gone)
    case Nil
    then have "filter (\<lambda>s. \<not> sb_token s = token) (subscriptions d) = subscriptions d"
      by (auto simp: filter_id_conv filter_empty_conv)
    then have "d' = d" by (simp add: d')
    with Nil show ?thesis by (simp add: rs)
  next
    case (Cons s ss)
    then have s: "s \<in> set (subscriptions d)" "sb_token s = token" by (auto dest: filter_eq_ConsD)
    with wf filter_key_single [of sb_token "subscriptions d" s] have one: "?gone = [s]"
      by (simp add: sub_wf_def)
    then have "{s \<in> set (subscriptions d). sb_token s = token} = {s}"
      by (metis set_filter empty_set list.simps(15))
    with abs_filter [OF wf d'] have "sub_abs d' = (pending d - {key_of d s}, confirmed d - {key_of d s})"
      by simp
    moreover from s have "key_of d s \<in> pending d \<union> confirmed d" by (auto simp: pending_def confirmed_def)
    ultimately show ?thesis by (auto simp: rs one d')
  qed
qed

lemma abs_delete_pending:
  assumes wf: "sub_wf n d" and "delete_pending e r i d = Inr (k, d')"
  shows "outbox d' = outbox d \<and>
    (if k = 0 then d' = d else (e, r) \<in> pending d \<and> sub_abs d' = (pending d - {(e, r)}, confirmed d))"
proof -
  let ?sel = "\<lambda>s. key_of d s = (e, r) \<and> \<not> sb_confirmed s"
  have sel: "selects_pending e r d s \<longleftrightarrow> ?sel s" if "s \<in> set (subscriptions d)" for s
    using selects_pending_key [OF wf that] .
  from assms(2) have d': "d' = d\<lparr>subscriptions := filter (\<lambda>s. \<not> ?sel s) (subscriptions d)\<rparr>"
    and k: "k = length (filter ?sel (subscriptions d))"
    by (auto simp: delete_pending_def sel cong: filter_cong)
  show ?thesis
  proof (cases "k = 0")
    case True
    then have "filter (\<lambda>s. \<not> ?sel s) (subscriptions d) = subscriptions d"
      by (auto simp: k filter_id_conv filter_empty_conv)
    then have "d' = d" by (simp add: d')
    with True show ?thesis by simp
  next
    case False
    then obtain s where s: "s \<in> set (subscriptions d)" "?sel s" by (auto simp: k filter_empty_conv)
    then have "key_of d ` {s \<in> set (subscriptions d). ?sel s} = {(e, r)}" by auto
    moreover have in_p: "(e, r) \<in> pending d" using s by (force simp: pending_def image_iff)
    moreover have "(e, r) \<notin> confirmed d"
      using in_p pending_not_confirmed [OF wf] by (auto simp: spec_ok_def sub_abs_def)
    ultimately show ?thesis using abs_filter [OF wf d'] False by (simp add: d')
  qed
qed

section \<open>The use cases refine the machine\<close>

definition refined :: "'a sub_db_scheme world \<Rightarrow> 'a sub_db_scheme world \<Rightarrow> bool" where
  "refined w w' \<longleftrightarrow> open_tx w' = None \<and> trace w' = trace w \<and>
     stepped (committed w) (committed w')"

lemma stepped_idle: "sub_abs d' = sub_abs d \<Longrightarrow> outbox d' = outbox d \<Longrightarrow> stepped d d'"
  unfolding stepped_def refines_db_def by (intro exI [of _ "[]"]) (simp add: spec_step.idle)

lemma stepped_refl [simp]: "stepped d d"
  by (rule stepped_idle) simp_all

lemma stepped_message:
  assumes "spec_step (sub_abs d) [ev] (sub_abs d1)" and "outbox d1 = outbox d" and "s = subject_of ev"
  shows "stepped d (with_message n s ev d1)"
  unfolding stepped_def refines_db_def using assms by (intro exI [of _ "[ev]"]) (simp add: carries_def)

lemma stepped_from:
  "sub_abs d1 = sub_abs d \<Longrightarrow> outbox d1 = outbox d \<Longrightarrow> stepped d1 d' \<Longrightarrow> stepped d d'"
  by (simp add: stepped_def refines_db_def)

lemma refined_idle:
  "open_tx w' = None \<Longrightarrow> trace w' = trace w \<Longrightarrow> sub_abs (committed w') = sub_abs (committed w) \<Longrightarrow>
   outbox (committed w') = outbox (committed w) \<Longrightarrow> refined w w'"
  by (simp add: refined_def stepped_idle)

lemma refined_same:
  "open_tx w' = None \<Longrightarrow> trace w' = trace w \<Longrightarrow> committed w' = committed w \<Longrightarrow> refined w w'"
  by (simp add: refined_def stepped_idle)

lemma refined_frame [simp]:
  "refined w (t\<lparr>nudge := b\<rparr>) = refined w t" "refined (w\<lparr>ncalls := n\<rparr>) = refined w"
  by (simp_all add: refined_def fun_eq_iff)

lemma sub_wf_mono: "sub_wf n d \<Longrightarrow> n \<le> m \<Longrightarrow> sub_wf m d"
  by (auto simp: sub_wf_def outbox_wf_def)

text \<open>
  The rule for a use case built on one transaction: it is enough that a body that succeeds
  leaves a working copy that refines the machine.
\<close>

lemma wp_Within_refined:
  fixes w :: "'a sub_db_scheme world"
  assumes c: "\<not> ctx_tx c" and w: "open_tx w = None" and only: "tx_only (fn (c\<lparr>ctx_tx := True\<rparr>))"
    and body: "wp (fn (c\<lparr>ctx_tx := True\<rparr>)) (\<lambda>r w1. \<forall>x t. r = Inr x \<longrightarrow> open_tx w1 = Some t \<longrightarrow>
        stepped (committed w) (tx_work t) \<and> R x (tx_work t)) (begun E w)"
  shows "wp (Within E c fn) (\<lambda>r w'. refined w w' \<and> (\<forall>x. r = Inr x \<longrightarrow> R x (committed w'))) w"
proof -
  let ?Q = "\<lambda>r w'. refined w w' \<and> (\<forall>x. r = Inr x \<longrightarrow> R x (committed w'))"
  show ?thesis
  proof (rule wp_Within [where Q = ?Q and c = c and w = w and fn = fn and E = E])
    show "wp (fn (c\<lparr>ctx_tx := True\<rparr>)) (\<lambda>r w1. \<forall>x t n. r = Inr x \<longrightarrow> open_tx w1 = Some t \<longrightarrow>
        \<not> tx_aborted t \<longrightarrow> ncalls w1 < n \<longrightarrow> ?Q (Inr x) (w\<lparr>ncalls := n, committed := tx_work t\<rparr>) \<and>
        (\<forall>e. ?Q (Inl e) (w\<lparr>ncalls := n, committed := tx_work t\<rparr>))) (begun E w)"
      by (rule wp_mono [OF body]) (use w in \<open>auto simp: refined_def\<close>)
  qed (use c w only in \<open>auto intro: refined_same\<close>)
qed

lemma Scan_cases: "Scan xs = (case xs of [] \<Rightarrow> Inl (Sentinel ErrNoRows) | x # _ \<Rightarrow> Inr x)"
  by (simp add: Scan_def)

subsection \<open>Confirm\<close>

definition confirm_body :: "env \<Rightarrow> string \<Rightarrow> string \<Rightarrow> ctx \<Rightarrow> ('a sub_db_scheme world, error + string option) state" where
  "confirm_body E email repo c = bindE (Confirm E c email repo) (\<lambda>result.
     case result of
       None \<Rightarrow> ok None
     | Some unsubToken \<Rightarrow> do {
         sagaID \<leftarrow> NewString E;
         bindE (enqueue E c SubjectSubscriptionConfirmed (SubscriptionConfirmed sagaID email repo unsubToken))
           (\<lambda>_. ok result)
       })"

lemma confirm_refines:
  assumes "sub_wf n d" and "confirm_rows e r i d = Inr (ts, d')"
  shows "(ts = [] \<longrightarrow> stepped d d') \<and> (e, r) \<notin> pending d' \<and>
    (\<forall>sid tok m. ts \<noteq> [] \<longrightarrow> stepped d
       (with_message m SubjectSubscriptionConfirmed (SubscriptionConfirmed sid e r tok) d'))"
  using abs_confirm [OF assms]
  by (auto simp: sub_abs_def split: if_splits intro!: stepped_message spec_step.confirm)

lemma wp_confirm_body:
  fixes w :: "'a sub_db_scheme world"
  assumes w: "open_tx w = None" and wf: "sub_wf n (committed w)"
  shows "wp (confirm_body E e r (c\<lparr>ctx_tx := True\<rparr>)) (\<lambda>x w1. \<forall>res t. x = Inr res \<longrightarrow> open_tx w1 = Some t \<longrightarrow>
      stepped (committed w) (tx_work t) \<and> (e, r) \<notin> pending (tx_work t)) (begun E w)"
  unfolding confirm_body_def Confirm_def FromContext_tx QueryRow_def wp_simps
  by (rule wp_sql_tx, simp, simp)
    (auto simp: wp_simps Scan_cases split: list.splits intro!: wp_enqueue
      dest!: confirm_refines [OF wf])

lemma confirm_refined:
  fixes w :: "'a sub_db_scheme world"
  assumes "\<not> ctx_tx c" and "open_tx w = None" and "sub_wf (ncalls w) (committed w)"
  shows "wp (confirm_Execute E J c token) (\<lambda>r w'. refined w w' \<and> (r = Inr () \<longrightarrow>
    (\<exists>claims. jwt_parse J (env_clock E (ncalls w)) token = Inr claims \<and>
      (jc_sub claims, jc_repo claims) \<notin> pending (committed w')))) w"
proof (cases "jwt_parse J (env_clock E (ncalls w)) token")
  case (Inl e)
  with assms show ?thesis by (simp add: confirm_Execute_body Verify_def wp_simps refined_same)
next
  case (Inr claims)
  let ?w = "w\<lparr>ncalls := Suc (ncalls w)\<rparr>" and ?e = "jc_sub claims" and ?r = "jc_repo claims"
  have "tx_only (confirm_body E ?e ?r (c\<lparr>ctx_tx := True\<rparr>) :: ('a sub_db_scheme world, _) state)"
    unfolding confirm_body_def Confirm_def FromContext_tx by (intro tx_only_rules)
  then have "wp (Within E c (confirm_body E ?e ?r))
      (\<lambda>r w'. refined ?w w' \<and> (\<forall>x. r = Inr x \<longrightarrow> (?e, ?r) \<notin> pending (committed w'))) ?w"
    using assms by (intro wp_Within_refined wp_confirm_body) simp_all
  with Inr show ?thesis
    unfolding confirm_Execute_body Verify_def confirm_body_def [symmetric]
    by (auto simp: wp_simps refined_def elim!: wp_mono split: sum.splits)
qed

subsection \<open>Unsubscribe\<close>

definition unsubscribe_body :: "env \<Rightarrow> string \<Rightarrow> ctx \<Rightarrow> ('a sub_db_scheme world, error + unit) state" where
  "unsubscribe_body E token c = bindE (Delete E c token) (\<lambda>(email, repo). do {
     sagaID \<leftarrow> NewString E;
     enqueue E c SubjectSubscriptionRemoved (SubscriptionRemoved sagaID email repo)
   })"

lemma delete_token_refines:
  assumes "sub_wf n d" and "delete_token token i d = Inr ((e, r) # ks, d')"
  shows "(\<forall>m sid. stepped d (with_message m SubjectSubscriptionRemoved (SubscriptionRemoved sid e r) d')) \<and>
    token \<notin> sb_token ` set (subscriptions d')"
proof -
  from abs_delete_token [OF assms] have k: "(e, r) \<in> pending d \<union> confirmed d" "outbox d' = outbox d"
    and abs: "sub_abs d' = (pending d - {(e, r)}, confirmed d - {(e, r)})" by auto
  have "stepped d (with_message m SubjectSubscriptionRemoved (SubscriptionRemoved sid e r) d')" for m sid
    using spec_step.remove [OF k(1)] by (intro stepped_message k(2)) (simp_all add: abs sub_abs_def [of d])
  with assms(2) show ?thesis by (auto simp: delete_token_def)
qed

lemma wp_unsubscribe_body:
  fixes w :: "'a sub_db_scheme world"
  assumes w: "open_tx w = None" and wf: "sub_wf n (committed w)"
  shows "wp (unsubscribe_body E token (c\<lparr>ctx_tx := True\<rparr>)) (\<lambda>x w1. \<forall>res t. x = Inr res \<longrightarrow> open_tx w1 = Some t \<longrightarrow>
      stepped (committed w) (tx_work t) \<and> token \<notin> sb_token ` set (subscriptions (tx_work t))) (begun E w)"
  unfolding unsubscribe_body_def Delete_def FromContext_tx QueryRow_def wp_simps
  by (rule wp_sql_tx, simp, simp)
    (auto simp: wp_simps Scan_cases split: list.splits intro!: wp_enqueue
      dest!: delete_token_refines [OF wf])

lemma unsubscribe_refined:
  fixes w :: "'a sub_db_scheme world"
  assumes "\<not> ctx_tx c" and "open_tx w = None" and "sub_wf (ncalls w) (committed w)"
  shows "wp (unsubscribe_Execute E c token) (\<lambda>r w'. refined w w' \<and>
    (r = Inr () \<longrightarrow> token \<notin> sb_token ` set (subscriptions (committed w')))) w"
proof -
  have "tx_only (unsubscribe_body E token (c\<lparr>ctx_tx := True\<rparr>) :: ('a sub_db_scheme world, _) state)"
    unfolding unsubscribe_body_def Delete_def FromContext_tx by (auto intro!: tx_only_rules)
  then have "wp (Within E c (unsubscribe_body E token)) (\<lambda>r w'. refined w w' \<and>
      (\<forall>x. r = Inr x \<longrightarrow> token \<notin> sb_token ` set (subscriptions (committed w')))) w"
    using assms by (intro wp_Within_refined wp_unsubscribe_body) simp_all
  then show ?thesis
    unfolding unsubscribe_Execute_body unsubscribe_body_def [symmetric]
    by (auto simp: wp_simps refined_def elim!: wp_mono split: sum.splits)
qed

subsection \<open>Compensate\<close>

lemma stepped_rollback:
  assumes "sub_wf n d" and "delete_pending e r i d = Inr (k, d')"
  shows "stepped d d' \<and> (e, r) \<notin> pending d'"
proof (cases "k = 0")
  case True
  then have "\<not> selects_pending e r d s" if "s \<in> set (subscriptions d)" for s
    using assms(2) that by (auto simp: delete_pending_def filter_empty_conv)
  then have "(e, r) \<notin> pending d"
    using selects_pending_key [OF assms(1)] by (auto simp: pending_def)
  with abs_delete_pending [OF assms] True show ?thesis by simp
next
  case False
  with abs_delete_pending [OF assms] have "(e, r) \<in> pending d" "outbox d' = outbox d"
    "sub_abs d' = (pending d - {(e, r)}, confirmed d)" by simp_all
  then show ?thesis
    by (auto simp: stepped_def refines_db_def sub_abs_def intro!: exI [of _ "[]"] spec_step.rollback)
qed

lemma compensate_refined:
  fixes w :: "'a sub_db_scheme world"
  assumes "\<not> ctx_tx c" and "open_tx w = None" and "sub_wf (ncalls w) (committed w)"
  shows "wp (compensate_Execute E c email repo) (\<lambda>r w'. refined w w' \<and>
    (\<not> isl r \<longrightarrow> (email, repo) \<notin> pending (committed w'))) w"
  unfolding compensate_Execute_def DeletePendingByEmailAndRepo_def FromContext_pool [OF assms(1)] wp_simps
  by (rule wp_sql_pool)
    (auto simp: wp_simps assms(2) refined_same refined_def dest: stepped_rollback [OF assms(3)])

subsection \<open>Cleanup\<close>

text \<open>
  The clean-up reads the rows it deletes into a struct that does not fit them, so that it fails and is rolled back unless there is
  nothing to delete: of the steps of the machine it only ever takes the idle one.
\<close>

definition cleanup_body :: "env \<Rightarrow> time \<Rightarrow> ctx \<Rightarrow> ('a sub_db_scheme world, error + sub_key list) state" where
  "cleanup_body E cutoff c = bindE (DeleteExpiredPending E c cutoff) (\<lambda>expired.
     bindE (publish_expired E c expired) (\<lambda>_. ok expired))"

definition none_expired :: "time \<Rightarrow> 'a sub_db_scheme \<Rightarrow> bool" where
  "none_expired cutoff d \<longleftrightarrow> (\<forall>s \<in> set (subscriptions d). sb_confirmed s \<or> cutoff \<le> sb_created s)"

lemma delete_expired_none:
  assumes "sub_wf n d" and "delete_expired cutoff i d = Inr ([], d')"
  shows "d' = d \<and> none_expired cutoff d"
proof -
  have "filter (\<lambda>s. \<not> sb_confirmed s \<and> sb_created s < cutoff) (subscriptions d) = []"
    using assms(2) by (simp add: delete_expired_def Let_def removed_of_keys [OF assms(1)] subset_iff)
  then have "none_expired cutoff d" by (auto simp: none_expired_def filter_empty_conv)
  moreover from this have "filter (\<lambda>s. \<not> (\<not> sb_confirmed s \<and> sb_created s < cutoff)) (subscriptions d) = subscriptions d"
    by (auto simp: none_expired_def filter_id_conv)
  ultimately show ?thesis using assms(2) by (simp add: delete_expired_def Let_def)
qed

lemma wp_cleanup_body:
  fixes w :: "'a sub_db_scheme world"
  assumes "open_tx w = None" and "sub_wf n (committed w)"
  shows "wp (cleanup_body E cutoff (c\<lparr>ctx_tx := True\<rparr>)) (\<lambda>x w1. \<forall>res t. x = Inr res \<longrightarrow> open_tx w1 = Some t \<longrightarrow>
      res = [] \<and> tx_work t = committed w \<and> none_expired cutoff (committed w)) (begun E w)"
  unfolding cleanup_body_def DeleteExpiredPending_def FromContext_tx wp_simps removed_unreadable
  by (intro wp_sql_tx) (auto simp: wp_simps dest: delete_expired_none [OF assms(2)])

lemma cleanup_unchanged:
  fixes w :: "'a sub_db_scheme world"
  assumes c: "\<not> ctx_tx c" and w: "open_tx w = None" "sub_wf (ncalls w) (committed w)"
  shows "wp (cleanup_Run E maxAge c) (\<lambda>r w'. open_tx w' = None \<and> trace w' = trace w \<and> committed w' = committed w \<and>
    (r = Inr () \<longrightarrow> none_expired (env_clock E (ncalls w) - maxAge) (committed w))) w"
proof -
  let ?w = "w\<lparr>ncalls := Suc (ncalls w)\<rparr>" and ?cut = "env_clock E (ncalls w) - maxAge"
  let ?Q = "\<lambda>r w'. open_tx w' = None \<and> trace w' = trace w \<and> committed w' = committed w \<and>
    (\<forall>x. r = Inr x \<longrightarrow> none_expired ?cut (committed w))"
  have "tx_only (publish_expired E (c\<lparr>ctx_tx := True\<rparr>) ks :: ('a sub_db_scheme world, _) state)" for ks
    by (induction ks) (auto intro!: tx_only_rules)
  then have only: "tx_only (cleanup_body E ?cut (c\<lparr>ctx_tx := True\<rparr>) :: ('a sub_db_scheme world, _) state)"
    unfolding cleanup_body_def DeleteExpiredPending_def FromContext_tx by (intro tx_only_rules)
  have body: "wp (cleanup_body E ?cut (c\<lparr>ctx_tx := True\<rparr>)) (\<lambda>x w1. \<forall>res t. x = Inr res \<longrightarrow> open_tx w1 = Some t \<longrightarrow>
      res = [] \<and> tx_work t = committed ?w \<and> none_expired ?cut (committed ?w)) (begun E ?w)"
    by (rule wp_cleanup_body) (use w in simp_all)
  have "wp (Within E c (cleanup_body E ?cut)) ?Q ?w"
    by (rule wp_Within [where fn = "cleanup_body E ?cut", OF c _ only _ wp_mono [OF body]]) (use w in auto)
  then show ?thesis
    unfolding cleanup_Run_def cleanup_body_def [symmetric]
    by (auto simp: wp_simps elim!: wp_mono split: sum.splits)
qed

lemma cleanup_refined:
  fixes w :: "'a sub_db_scheme world"
  assumes "\<not> ctx_tx c" and "open_tx w = None" and "sub_wf (ncalls w) (committed w)"
  shows "wp (cleanup_Run E maxAge c) (\<lambda>r. refined w) w"
  by (rule wp_mono [OF cleanup_unchanged [OF assms]]) (simp add: refined_def)

subsection \<open>Subscribe\<close>

text \<open>The \<open>gitHubClient\<close> does not touch the database.\<close>

definition gh_reads :: "'db gitHubClient \<Rightarrow> bool" where
  "gh_reads gh \<longleftrightarrow> (\<forall>c owner name w. wp (gh c owner name) (\<lambda>_ w'. committed w' = committed w \<and>
     open_tx w' = open_tx w \<and> trace w' = trace w \<and> ncalls w \<le> ncalls w') w)"

context db_invariant
begin

lemma preserves_reader:
  assumes "gh_reads gh"
  shows "preserves (db_inv P) (gh c owner name)"
proof (rule preservesI)
  fix w
  assume "db_inv P w"
  moreover have "wp (gh c owner name) (\<lambda>_ w'. committed w' = committed w \<and> open_tx w' = open_tx w \<and>
      trace w' = trace w \<and> ncalls w \<le> ncalls w') w"
    using assms unfolding gh_reads_def by blast
  ultimately show "wp (gh c owner name) (\<lambda>_. db_inv P) w"
    using P_le by (auto simp: db_inv_def elim!: wp_mono)
qed

end

text \<open>The tables \<open>d'\<close> have exactly one message more than \<open>d\<close>, which carries \<open>ev\<close>.\<close>

definition announced :: "event \<Rightarrow> 'a sub_db_scheme \<Rightarrow> 'a sub_db_scheme \<Rightarrow> bool" where
  "announced ev d d' \<longleftrightarrow>
     (\<exists>n. outbox d' = outbox d @ [\<lparr>ob_id = n, ob_subject = subject_of ev, ob_payload = Doc (encode ev)\<rparr>])"

lemma announced_message: "outbox d1 = outbox d \<Longrightarrow> s = subject_of ev \<Longrightarrow> announced ev d (with_message n s ev d1)"
  by (simp add: announced_def)

definition pending_body :: "env \<Rightarrow> sub_row option \<Rightarrow> event \<Rightarrow> ctx \<Rightarrow> ('a sub_db_scheme world, error + unit) state" where
  "pending_body E sub ev c = bindE (case sub of None \<Rightarrow> ok () | Some s \<Rightarrow> Create E c s)
     (\<lambda>_. enqueue E c SubjectSubscriptionPending ev)"

lemma insert_refines:
  assumes wf: "sub_wf n d" and ins: "insert_subscription s i d = Inr (k, d')" and "k \<noteq> 0"
    and r: "r \<in> set (repositories d)" "rp_id r = sb_repo s" and new: "\<not> sb_confirmed s"
  shows "stepped d (with_message m SubjectSubscriptionPending (SubscriptionPending sid (sb_email s) (rp_name r) url) d') \<and>
    (sb_email s, rp_name r) \<in> pending d' \<and> outbox d' = outbox d"
proof -
  obtain k' where "insert_subscription s i d = Inr (Suc k', d')" using ins assms(3) by (cases k) auto
  from abs_insert [OF wf this r new] have abs: "sub_abs d' = (insert (sb_email s, rp_name r) (pending d), confirmed d)"
    and o: "outbox d' = outbox d" and n: "(sb_email s, rp_name r) \<notin> confirmed d" by simp_all
  have "stepped d (with_message m SubjectSubscriptionPending (SubscriptionPending sid (sb_email s) (rp_name r) url) d')"
    using spec_step.subscribe [OF n] by (intro stepped_message o) (simp_all add: abs sub_abs_def [of d])
  with abs o show ?thesis by (simp add: sub_abs_def)
qed

lemma resubscribe_refines:
  assumes wf: "sub_wf n d" and p: "(e, r) \<in> pending d"
  shows "stepped d (with_message m SubjectSubscriptionPending (SubscriptionPending sid e r url) d)"
proof (rule stepped_message)
  have "(e, r) \<notin> confirmed d" using p pending_not_confirmed [OF wf] by (auto simp: spec_ok_def sub_abs_def)
  from spec_step.subscribe [OF this, where P = "pending d"] p show "spec_step (sub_abs d) [SubscriptionPending sid e r url] (sub_abs d)"
    by (simp add: sub_abs_def insert_absorb)
qed simp_all

lemma wp_pending_body:
  fixes w :: "'a sub_db_scheme world"
  assumes w: "open_tx w = None" and wf: "sub_wf n (committed w)"
    and r: "r \<in> set (repositories (committed w))" "rp_name r = repo"
    and sub: "case sub of None \<Rightarrow> (email, repo) \<in> pending (committed w)
      | Some s \<Rightarrow> sb_email s = email \<and> sb_repo s = rp_id r \<and> \<not> sb_confirmed s"
  shows "wp (pending_body E sub (SubscriptionPending sid email repo url) (c\<lparr>ctx_tx := True\<rparr>))
    (\<lambda>x w1. \<forall>res t. x = Inr res \<longrightarrow> open_tx w1 = Some t \<longrightarrow>
      stepped (committed w) (tx_work t) \<and> (email, repo) \<in> pending (tx_work t) \<and>
      announced (SubscriptionPending sid email repo url) (committed w) (tx_work t)) (begun E w)"
proof (cases sub)
  case None
  with sub resubscribe_refines [OF wf] show ?thesis
    by (auto simp: pending_body_def wp_simps intro!: wp_enqueue announced_message)
next
  case (Some s)
  with sub r insert_refines [OF wf _ _ r(1)] show ?thesis
    unfolding pending_body_def Create_def FromContext_tx Some option.case wp_simps
    by (intro wp_sql_tx) (auto simp: wp_simps intro!: wp_enqueue announced_message)
qed

lemma tx_only_pending_body: "tx_only (pending_body E sub ev (c\<lparr>ctx_tx := True\<rparr>))"
  unfolding pending_body_def Create_def FromContext_tx by (intro tx_only_rules)

text \<open>What is known of the outcome of \<open>resolveExisting\<close> in a well-formed database.\<close>

lemma exactly_one_Inr: "exactly_one xs = Inr x \<longleftrightarrow> xs = [x]"
  by (auto simp: exactly_one_def split: list.splits)

lemma pendingI:
  assumes wf: "sub_wf n d" and s: "s \<in> set (subscriptions d)" "\<not> sb_confirmed s"
    and r: "r \<in> set (repositories d)" "rp_id r = sb_repo s"
  shows "(sb_email s, rp_name r) \<in> pending d"
proof -
  obtain q where q: "repos_of d s = [q]" "key_of d s = (sb_email s, rp_name q)"
    using repos_of_single [OF wf s(1)] by blast
  moreover have "r \<in> set (repos_of d s)" using r by (simp add: repos_of_def)
  ultimately have "r = q" by simp
  with q s show ?thesis by (force simp: pending_def)
qed

lemma wp_resolveExisting:
  fixes w :: "'a sub_db_scheme world"
  assumes c: "\<not> ctx_tx c" and wf: "sub_wf n (committed w)"
    and r: "r \<in> set (repositories (committed w))" "rp_name r = repo"
    and fails: "\<And>e. Q (Inl e) (w\<lparr>ncalls := Suc (ncalls w)\<rparr>)"
    and new: "Q (Inr True) (w\<lparr>ncalls := Suc (ncalls w)\<rparr>)"
    and again: "(email, repo) \<in> pending (committed w) \<Longrightarrow> Q (Inr False) (w\<lparr>ncalls := Suc (ncalls w)\<rparr>)"
  shows "wp (resolveExisting E c email (rp_id r)) Q w"
proof -
  have pend: "(email, repo) \<in> pending (committed w)"
    if "filter (\<lambda>s. sb_email s = email \<and> sb_repo s = rp_id r) (subscriptions (committed w)) = [s]"
      "\<not> sb_confirmed s" for s
    using that r pendingI [OF wf, of s r] by (auto dest!: filter_eq_ConsD)
  show ?thesis
    unfolding resolveExisting_def FindByEmailAndRepo_eq FromContext_pool [OF c] wp_simps
    by (rule wp_sql_pool)
      (use fails new again pend in \<open>auto simp: find_subscription_def wp_simps exactly_one_Inr
        split: sum.splits\<close>)
qed

text \<open>
  What a successful subscribe leaves behind: the subscription is pending, and the one new
  message carries a confirmation link with a token signed for exactly this pair.
\<close>

definition subscribed :: "jwt \<Rightarrow> string \<Rightarrow> string \<Rightarrow> string \<Rightarrow> 'a sub_db_scheme \<Rightarrow> 'a sub_db_scheme \<Rightarrow> bool" where
  "subscribed J base email repo d d' \<longleftrightarrow> (email, repo) \<in> pending d' \<and>
     (\<exists>sid claims token. jwt_sign J claims = Inr token \<and> jc_sub claims = email \<and> jc_repo claims = repo \<and>
       announced (SubscriptionPending sid email repo (URLBuilder_ConfirmURL base token)) d d')"

lemma subscribedI:
  "jwt_sign J \<lparr>jc_repo = repo, jc_sub = email, jc_iat = a, jc_exp = b\<rparr> = Inr token \<Longrightarrow> (email, repo) \<in> pending d' \<Longrightarrow>
   announced (SubscriptionPending sid email repo (URLBuilder_ConfirmURL base token)) d d' \<Longrightarrow>
   subscribed J base email repo d d'"
  unfolding subscribed_def by (metis jwtClaims.select_convs(1,2))

lemma wp_emitPending:
  fixes w :: "'a sub_db_scheme world"
  assumes c: "\<not> ctx_tx c" and w: "open_tx w = None" and wf: "sub_wf (ncalls w) (committed w)"
    and r: "r \<in> set (repositories (committed w))" "rp_name r = repo"
    and old: "\<not> isNew \<Longrightarrow> (email, repo) \<in> pending (committed w)"
  shows "wp (emitPending E J ttl base c email repo (rp_id r) isNew) (\<lambda>x w'. refined w w' \<and>
    (x = Inr () \<longrightarrow> subscribed J base email repo (committed w) (committed w'))) w"
proof -
  let ?ev = "\<lambda>sid url. SubscriptionPending sid email repo url"
  have tx: "wp (Within E c (pending_body E sub (?ev sid url)))
      (\<lambda>x w'. refined w w' \<and> (\<forall>u. x = Inr u \<longrightarrow> (email, repo) \<in> pending (committed w') \<and>
        announced (?ev sid url) (committed w) (committed w'))) (w\<lparr>ncalls := m\<rparr>)"
    if "ncalls w \<le> m" "case sub of None \<Rightarrow> (email, repo) \<in> pending (committed w)
      | Some s \<Rightarrow> sb_email s = email \<and> sb_repo s = rp_id r \<and> \<not> sb_confirmed s" for sub sid url m
  proof -
    let ?w = "w\<lparr>ncalls := m\<rparr>"
    have "wp (Within E c (pending_body E sub (?ev sid url)))
        (\<lambda>x w'. refined ?w w' \<and> (\<forall>u. x = Inr u \<longrightarrow> (email, repo) \<in> pending (committed w') \<and>
          announced (?ev sid url) (committed ?w) (committed w'))) ?w"
      using c w r that sub_wf_mono [OF wf that(1)]
      by (intro wp_Within_refined tx_only_pending_body wp_pending_body [where r = r])
        (auto split: option.splits)
    then show ?thesis by simp
  qed
  show ?thesis
    unfolding emitPending_body Issue_def NewSubscription_def randomToken_def pending_body_def [symmetric]
    using w old
    by (auto simp: wp_simps refined_same split: sum.splits intro!: wp_mono [OF tx] intro: subscribedI)
qed

lemma wp_GetOrCreate:
  fixes w :: "'a sub_db_scheme world"
  assumes c: "\<not> ctx_tx c" and wf: "sub_wf (ncalls w) (committed w)"
    and fails: "\<And>e w'. open_tx w' = open_tx w \<Longrightarrow> trace w' = trace w \<Longrightarrow>
      sub_abs (committed w') = sub_abs (committed w) \<Longrightarrow> outbox (committed w') = outbox (committed w) \<Longrightarrow> Q (Inl e) w'"
    and found: "\<And>r w'. open_tx w' = open_tx w \<Longrightarrow> trace w' = trace w \<Longrightarrow> sub_wf (ncalls w') (committed w') \<Longrightarrow>
      sub_abs (committed w') = sub_abs (committed w) \<Longrightarrow> outbox (committed w') = outbox (committed w) \<Longrightarrow>
      r \<in> set (repositories (committed w')) \<Longrightarrow> rp_name r = name \<Longrightarrow> Q (Inr r) w'"
  shows "wp (GetOrCreate E c name) Q w"
proof -
  let ?i = "server_in E (ncalls w) (env_dbclock E (ncalls w))"
  have wf': "sub_wf (Suc (ncalls w)) d" if "get_or_create name ?i (committed w) = Inr (rs, d)" for rs d
    using sub_wf.keeps_get_or_create [of name] wf that unfolding stmt_keeps_def by (metis st_id_server_in)
  show ?thesis
    unfolding GetOrCreate_eq FromContext_pool [OF c] wp_simps
    by (rule wp_sql_pool)
      (auto simp: wp_simps exactly_one_def intro!: fails found dest: abs_get_or_create [OF wf] wf'
        split: list.splits)
qed

text \<open>The use case after the checks that do not touch the database.\<close>

definition subscribe_rest :: "env \<Rightarrow> jwt \<Rightarrow> duration \<Rightarrow> string \<Rightarrow> ctx \<Rightarrow> string \<Rightarrow> string \<Rightarrow>
    ('a sub_db_scheme world, error + unit) state" where
  "subscribe_rest E J ttl base c email repo =
     bindE (wrap ''ensure repository'' (GetOrCreate E c repo)) (\<lambda>r.
     bindE (resolveExisting E c email (rp_id r)) (\<lambda>isNew.
       emitPending E J ttl base c email repo (rp_id r) isNew))"

lemma subscribe_unfold:
  "subscribe_Execute E gh J ttl base c email repo =
     bindE (liftE (ParseRepo repo)) (\<lambda>(owner, name).
     bindE (ensureRepoExists gh c owner name) (\<lambda>_. subscribe_rest E J ttl base c email repo))"
  by (simp add: subscribe_Execute_def subscribe_rest_def)

lemma subscribe_refined:
  fixes w :: "'a sub_db_scheme world"
  assumes c: "\<not> ctx_tx c" and w: "open_tx w = None" and wf: "sub_wf (ncalls w) (committed w)" and gh: "gh_reads gh"
  shows "wp (subscribe_Execute E gh J ttl base c email repo) (\<lambda>x w'. refined w w' \<and>
    (x = Inr () \<longrightarrow> subscribed J base email repo (committed w) (committed w'))) w"
proof -
  let ?Q = "\<lambda>x w'. refined w w' \<and> (x = Inr () \<longrightarrow> subscribed J base email repo (committed w) (committed w'))"
  have emit: "wp (emitPending E J ttl base c email repo (rp_id r) isNew) ?Q w3"
    if "open_tx w3 = None" "trace w3 = trace w" "sub_wf (ncalls w3) (committed w3)"
      "sub_abs (committed w3) = sub_abs (committed w)" "outbox (committed w3) = outbox (committed w)"
      "r \<in> set (repositories (committed w3))" "rp_name r = repo" "isNew \<or> (email, repo) \<in> pending (committed w3)"
    for w3 r isNew
    by (rule wp_mono [OF wp_emitPending [OF c that(1,3,6,7)]])
      (use that in \<open>auto simp: refined_def subscribed_def announced_def intro: stepped_from\<close>)
  have resolve: "wp (resolveExisting E c email (rp_id r)) (\<lambda>x t. case x of Inl e \<Rightarrow> ?Q (Inl e) t
      | Inr isNew \<Rightarrow> wp (emitPending E J ttl base c email repo (rp_id r) isNew) ?Q t) w2"
    if w2: "open_tx w2 = None" "trace w2 = trace w" "sub_wf (ncalls w2) (committed w2)"
      "sub_abs (committed w2) = sub_abs (committed w)" "outbox (committed w2) = outbox (committed w)"
      "r \<in> set (repositories (committed w2))" "rp_name r = repo" for w2 r
    using that sub_wf_mono [OF w2(3), of "Suc (ncalls w2)"]
    by (intro wp_resolveExisting [OF c w2(3,6,7)])
      (simp_all add: refined_idle emit)
  have main: "wp (subscribe_rest E J ttl base c email repo) ?Q w1"
    if "open_tx w1 = None" "trace w1 = trace w" "committed w1 = committed w" "ncalls w \<le> ncalls w1" for w1
    unfolding subscribe_rest_def wp_simps
    using that sub_wf_mono [OF wf that(4)]
    by (intro wp_GetOrCreate [OF c]) (simp_all add: refined_idle resolve)
  have reads: "wp (gh c owner name) (\<lambda>_ w1. open_tx w1 = None \<and> trace w1 = trace w \<and> committed w1 = committed w \<and>
      ncalls w \<le> ncalls w1) w" for owner name
    by (rule wp_mono [OF gh [unfolded gh_reads_def, rule_format]]) (use w in auto)
  show ?thesis
  proof (cases "ParseRepo repo")
    case (Inl e)
    with w show ?thesis by (simp add: subscribe_unfold wp_simps refined_same)
  next
    case (Inr on)
    obtain owner name where on: "on = (owner, name)" by (cases on)
    show ?thesis
      unfolding subscribe_unfold ensureRepoExists_def wp_liftE wp_bindE Inr on
        sum.case prod.case wp_wrap
      by (rule wp_mono [OF reads])
        (use main w in \<open>auto simp: wp_simps refined_same split: sum.split\<close>)
  qed
qed

section \<open>Exactly-once compensation\<close>

definition rollback_applied :: "env \<Rightarrow> payload \<Rightarrow> 'a sub_db_scheme \<Rightarrow> 'a sub_db_scheme \<Rightarrow> bool" where
  "rollback_applied E p d d' \<longleftrightarrow> (\<exists>ev. Unmarshal E TSagaCompensate p = Inr ev \<and>
     d' = d\<lparr>subscriptions := filter (\<lambda>s. \<not> selects_pending (Email ev) (RepoName ev) d s) (subscriptions d)\<rparr>)"

definition rollback_settled :: "env \<Rightarrow> payload \<Rightarrow> 'a sub_db_scheme \<Rightarrow> bool" where
  "rollback_settled E p d \<longleftrightarrow> (\<exists>ev. Unmarshal E TSagaCompensate p = Inr ev \<and>
     (\<forall>s \<in> set (subscriptions d). \<not> selects_pending (Email ev) (RepoName ev) d s))"

lemma rollback_applied_settles: "rollback_applied E p d d' \<Longrightarrow> rollback_settled E p d'"
  by (auto simp: rollback_applied_def rollback_settled_def selects_pending_def repos_of_def)

lemma HandleCompensate_once:
  fixes w :: "'a sub_db_scheme world"
  assumes w: "open_tx w = None"
  shows "wp (HandleCompensate E Background p) (once_post (rollback_applied E) (rollback_settled E) p w) w"
proof (cases "Unmarshal E TSagaCompensate p")
  case (Inr ev)
  let ?d = "(committed w)\<lparr>subscriptions :=
    filter (\<lambda>s. \<not> selects_pending (Email ev) (RepoName ev) (committed w) s) (subscriptions (committed w))\<rparr>"
  have ap: "rollback_applied E p (committed w) ?d" using Inr by (simp add: rollback_applied_def)
  have "?d = committed w" if "rollback_settled E p (committed w)"
  proof -
    from that Inr have "filter (\<lambda>s. \<not> selects_pending (Email ev) (RepoName ev) (committed w) s)
        (subscriptions (committed w)) = subscriptions (committed w)"
      by (auto simp: rollback_settled_def filter_id_conv)
    then show ?thesis by simp
  qed
  then have "once_post (rollback_applied E) (rollback_settled E) p w r (w\<lparr>ncalls := n, committed := ?d\<rparr>)" for r n
    using w ap rollback_applied_settles [OF ap] by (auto simp: once_post_def)
  with Inr w show ?thesis
    unfolding HandleCompensate_def compensate_Execute_def DeletePendingByEmailAndRepo_def
    by (auto simp: wp_simps delete_pending_def intro!: wp_sql_pool once_post_error)
qed (simp add: HandleCompensate_def wp_simps once_post_error w)

interpretation rollback: exactly_once_handler E "HandleCompensate E Background"
  "rollback_applied E" "rollback_settled E" for E
  by unfold_locales (auto intro: HandleCompensate_once rollback_applied_settles)

section \<open>The properties of the subscription service\<close>

definition demo_sub_db :: sub_db where
  "demo_sub_db = \<lparr>outbox = [],
     repositories = [\<lparr>rp_id = 7, rp_name = ''go/go'', rp_created = 0\<rparr>],
     subscriptions = [\<lparr>sb_id = 8, sb_repo = 7, sb_email = ''a@b'', sb_token = ''t'', sb_confirmed = False, sb_created = 0\<rparr>]\<rparr>"

lemma demo_sub_wf: "sub_wf 1 demo_sub_db"
  by (simp add: sub_wf_def outbox_wf_def demo_sub_db_def)

lemma demo_sub_wf': "sub_wf (ncalls (fresh_world demo_sub_db)) (committed (fresh_world demo_sub_db))"
  using demo_sub_wf by simp

definition demo_gh :: "sub_db gitHubClient" where
  "demo_gh c owner name = ok True"

lemma demo_gh_reads: "gh_reads demo_gh"
  by (simp add: gh_reads_def demo_gh_def wp_simps)

definition demo_claims :: "time \<Rightarrow> jwtClaims" where
  "demo_claims t = \<lparr>jc_repo = ''go/go'', jc_sub = ''a@b'', jc_iat = 0, jc_exp = NewNumericDate t\<rparr>"

text \<open>A token library for one pair: it signs every claim set for it with its expiry in unary.\<close>

definition demo_jwt :: jwt where
  "demo_jwt = \<lparr>
     jwt_sign = (\<lambda>cl. if cl = demo_claims 0 then Inr ''tok'' else Inl (External ''key'')),
     jwt_parse = (\<lambda>now tok. if tok = ''tok''
        then (if now < jc_exp (demo_claims 0) then Inr (demo_claims 0) else Inl (Sentinel ErrTokenExpired))
        else Inl (External ''malformed''))\<rparr>"

text \<open>
  \<^bold>\<open>C2.\<close> The subscription service implements its abstract machine: every use case (subscribe,
  confirm, unsubscribe, cleanup, and the handler of compensation commands), run from a
  well-formed database with any failures, moves the pending and confirmed subscriptions along
  one step of \<open>spec_step\<close>, and the messages it adds to the outbox are exactly the events of that
  step, in order; nothing is sent outside the outbox. So other services see an event if and
  only if the state changed accordingly. (The clean-up only ever takes the idle step, see
  \<open>cleanup_never_removes\<close>.)
\<close>

theorem subscription_refines_spec:
  fixes w :: "'a sub_db_scheme world"
  assumes m: "m \<in> {subscribe_Execute E gh J ttl base c email repo, confirm_Execute E J c token,
      unsubscribe_Execute E c token, cleanup_Run E maxAge c, HandleCompensate E c p}"
    and gh: "gh_reads gh" and c: "\<not> ctx_tx c" and w: "open_tx w = None" "sub_wf (ncalls w) (committed w)"
    and run: "run_state m w = (r, w')"
  shows "trace w' = trace w \<and> (\<exists>evs ms. spec_step (sub_abs (committed w)) evs (sub_abs (committed w')) \<and>
    outbox (committed w') = outbox (committed w) @ ms \<and>
    list_all2 (\<lambda>ev row. ob_subject row = subject_of ev \<and> ob_payload row = Doc (encode ev)) evs ms)"
proof -
  have handler: "wp (HandleCompensate E c p) (\<lambda>_. refined w) w"
  proof (cases "Unmarshal E TSagaCompensate p")
    case (Inr ev)
    then show ?thesis
      unfolding HandleCompensate_def
      by (auto simp: wp_simps c w intro!: wp_mono [OF compensate_refined] split: sum.splits)
  qed (simp add: HandleCompensate_def wp_simps w refined_same)
  have "wp (subscribe_Execute E gh J ttl base c email repo) (\<lambda>_. refined w) w"
    by (rule wp_mono [OF subscribe_refined [OF c w gh]]) simp
  moreover have "wp (confirm_Execute E J c token) (\<lambda>_. refined w) w"
    by (rule wp_mono [OF confirm_refined [OF c w]]) simp
  moreover have "wp (unsubscribe_Execute E c token) (\<lambda>_. refined w) w"
    by (rule wp_mono [OF unsubscribe_refined [OF c w]]) simp
  moreover have "wp (cleanup_Run E maxAge c) (\<lambda>_. refined w) w"
    by (rule cleanup_refined [OF c w])
  ultimately have "wp m (\<lambda>_. refined w) w" using m handler by auto
  then have "refined w w'" using run by (rule wpD)
  then show ?thesis by (auto simp: refined_def stepped_def refines_db_def carries_def [abs_def])
qed

theorem subscription_refines_spec_witness:
  "\<exists>evs. spec_step (sub_abs demo_sub_db) evs (sub_abs (committed (snd (run_state
     (unsubscribe_Execute (faulty_env [(4, Lost ''x'')]) Background ''t'') (fresh_world demo_sub_db)))))"
proof -
  let ?E = "faulty_env [(4, Lost ''x'')]"
  have "unsubscribe_Execute ?E Background ''t'' \<in> {subscribe_Execute ?E demo_gh demo_jwt 0 [] Background [] [],
      confirm_Execute ?E demo_jwt Background ''t'', unsubscribe_Execute ?E Background ''t'',
      cleanup_Run ?E 0 Background, HandleCompensate ?E Background Garbage}"
    by (rule insertI2, rule insertI2, rule insertI1)
  from subscription_refines_spec [OF this demo_gh_reads Background_tx fresh_world_simps(2) demo_sub_wf'
      prod.collapse [symmetric], THEN conjunct2]
  show ?thesis unfolding fresh_world_simps by (elim exE conjE) (rule exI)
qed



text \<open>
  The schema's constraints are never violated: whatever fails, every use case keeps ids,
  repository names, unsubscribe tokens and (email, repository) pairs unique, every subscription
  with its repository, and the outbox well-formed.
\<close>

lemma subscription_schema_invariant:
  fixes w :: "'a sub_db_scheme world"
  assumes "m \<in> {subscribe_Execute E gh J ttl base c email repo, confirm_Execute E J c token,
      unsubscribe_Execute E c token, cleanup_Run E maxAge c, HandleCompensate E c p}"
    and "\<forall>c owner name. preserves (db_inv sub_wf) (gh c owner name)"
    and "open_tx w = None" and "sub_wf (ncalls w) (committed w)" and "run_state m w = (r, w')"
  shows "sub_wf (ncalls w') (committed w')"
proof -
  have "preserves (db_inv sub_wf) m"
    using assms(1,2) sub_wf.preserves_subscribe [of gh] sub_wf.preserves_confirm sub_wf.preserves_use_cases by auto
  from preserves_committed [OF this assms(4,3,5)] show ?thesis .
qed

text \<open>
  \<^bold>\<open>C30.\<close> A successful subscribe leaves the subscription pending and adds exactly one
  \<open>subscriptions.pending\<close> message for it, whose confirmation link holds a token the service signed
  for exactly this e-mail and repository; the repository name has the form owner/repo and GitHub
  confirmed it.
\<close>

theorem subscribe_success:
  fixes w :: "'a sub_db_scheme world"
  assumes "gh_reads gh" and "\<not> ctx_tx c" and "open_tx w = None" and "sub_wf (ncalls w) (committed w)"
    and "run_state (subscribe_Execute E gh J ttl base c email repo) w = (Inr (), w')"
  shows "repo \<in> repo_language \<and> (email, repo) \<in> pending (committed w') \<and>
    (\<exists>sid claims token n. jwt_sign J claims = Inr token \<and> jc_sub claims = email \<and> jc_repo claims = repo \<and>
      outbox (committed w') = outbox (committed w) @ [\<lparr>ob_id = n, ob_subject = SubjectSubscriptionPending,
        ob_payload = Doc (encode (SubscriptionPending sid email repo (base @ ''/api/confirm/'' @ token)))\<rparr>])"
proof -
  have "repo \<in> repo_language"
    using assms(5) by (auto simp: subscribe_unfold ParseRepo_eq bindE_def liftE_def split: if_splits)
  moreover have "subscribed J base email repo (committed w) (committed w')"
    using wpD [OF subscribe_refined [OF assms(2,3,4,1)] assms(5)] by simp
  ultimately show ?thesis
    unfolding subscribed_def announced_def URLBuilder_ConfirmURL_def subject_of_simps by blast
qed

lemmas run_simps =
  bindE_def wrap_def liftE_def Let_def sql_def run_pool_def run_tx_def QueryRow_def Scan_def
  exactly_one_def Within_def Begin_def Commit_def Rollback_def Notify_def Now_def NewUUID_def
  NewString_def RandRead_def FromContext_def server_in_def fresh_world_def enqueue_def Enqueue_def
  insert_outbox_def Marshal_def eventValidator_Struct_def valid_fields_def Background_def WithSagaID_def

theorem subscribe_success_witness:
  "(''a@b'', ''go/go'') \<in> pending (committed (snd (run_state
     (subscribe_Execute calm_env demo_gh demo_jwt 0 ''x'' Background ''a@b'' ''go/go'') (fresh_world demo_sub_db))))"
proof -
  have repo: "ParseRepo ''go/go'' = Inr (''go'', ''go'')" by code_simp
  have "repoRegex_MatchString ''go/go''" by code_simp
  then have "fst (run_state (subscribe_Execute calm_env demo_gh demo_jwt 0 ''x'' Background ''a@b'' ''go/go'')
      (fresh_world demo_sub_db)) = Inr ()"
    by (simp add: run_simps subscribe_Execute_def repo ensureRepoExists_def demo_gh_def GetOrCreate_eq
        get_or_create_def resolveExisting_def FindByEmailAndRepo_eq find_subscription_def emitPending_body Issue_def
        NewNumericDate_def demo_jwt_def demo_claims_def demo_sub_db_def URLBuilder_ConfirmURL_def)
  then show ?thesis
    using subscribe_success [OF demo_gh_reads Background_tx fresh_world_simps(2) demo_sub_wf', of calm_env demo_jwt 0
        "''x''" "''a@b''" "''go/go''"]
    by (metis prod.collapse)
qed



text \<open>
  What the token library documents: a token it signed parses to the signed claims before their
  expiry, and from the expiry on is rejected as expired.
\<close>

definition jwt_ok :: "jwt \<Rightarrow> bool" where
  "jwt_ok J \<longleftrightarrow> (\<forall>claims token now. jwt_sign J claims = Inr token \<longrightarrow>
     (if now < jc_exp claims then jwt_parse J now token = Inr claims
      else \<exists>e. jwt_parse J now token = Inl e \<and> errors_Is e ErrTokenExpired))"

lemma Verify_signed:
  assumes "jwt_ok J" and "jwt_sign J claims = Inr token"
  shows "fst (run_state (Verify E J token) v) =
    (if env_clock E (ncalls v) < jc_exp claims then Inr (jc_sub claims, jc_repo claims) else Inl (Sentinel ErrExpired))"
proof -
  from assms have "if env_clock E (ncalls v) < jc_exp claims then jwt_parse J (env_clock E (ncalls v)) token = Inr claims
      else \<exists>e. jwt_parse J (env_clock E (ncalls v)) token = Inl e \<and> errors_Is e ErrTokenExpired"
    unfolding jwt_ok_def by metis
  then show ?thesis by (auto simp: Verify_def Now_def split: if_splits)
qed

text \<open>
  \<^bold>\<open>C36.\<close> Confirmation tokens round-trip: a token \<open>Issue\<close> returned is accepted by \<open>Verify\<close> with
  the e-mail and repository it was issued for until its expiry, the issue time plus the
  configured lifetime cut to seconds; from then on it is answered with \<open>ErrExpired\<close>.
\<close>

theorem token_roundtrip:
  fixes w :: "'a sub_db_scheme world" and v :: "'b sub_db_scheme world"
  assumes "jwt_ok J" and "run_state (Issue E J ttl email repo) w = (Inr token, w')"
    and "expiry = NewNumericDate (env_clock E (ncalls w) + ttl)"
  shows "fst (run_state (Verify E' J token) v) =
    (if env_clock E' (ncalls v) < expiry then Inr (email, repo) else Inl (Sentinel ErrExpired))"
proof -
  let ?cl = "\<lparr>jc_repo = repo, jc_sub = email, jc_iat = NewNumericDate (env_clock E (ncalls w)), jc_exp = expiry\<rparr>"
  from assms(2,3) have "jwt_sign J ?cl = Inr token"
    by (auto simp: Issue_def Now_def wrap_def liftE_def split: sum.splits)
  from Verify_signed [OF assms(1) this, of E' v] show ?thesis by simp
qed

theorem token_roundtrip_witness:
  "fst (run_state (Verify calm_env demo_jwt ''tok'') (fresh_world demo_sub_db)) = Inl (Sentinel ErrExpired)"
proof -
  have "jwt_ok demo_jwt" by (simp add: jwt_ok_def demo_jwt_def)
  moreover have "run_state (Issue calm_env demo_jwt 0 ''a@b'' ''go/go'') (fresh_world demo_sub_db) =
      (Inr ''tok'', (fresh_world demo_sub_db)\<lparr>ncalls := 2\<rparr>)"
    by (simp add: Issue_def Now_def wrap_def liftE_def demo_jwt_def demo_claims_def NewNumericDate_def)
  ultimately show ?thesis
    using token_roundtrip [of demo_jwt calm_env 0 "''a@b''" "''go/go''" "fresh_world demo_sub_db" "''tok''"
        "(fresh_world demo_sub_db)\<lparr>ncalls := 2\<rparr>" 0 calm_env "fresh_world demo_sub_db"]
    by (simp add: NewNumericDate_def)
qed

text \<open>
  Confirming is idempotent and only ever confirms a pending subscription: a successful
  confirm leaves the pair of its token not pending, and confirming a pair that is not pending
  (a second click on the link, an unknown or unsubscribed pair) changes nothing, adds no message
  and still succeeds unless a call fails.
\<close>

theorem confirm_idempotent:
  fixes w :: "'a sub_db_scheme world"
  assumes c: "\<not> ctx_tx c" and w: "open_tx w = None" and wf: "sub_wf (ncalls w) (committed w)"
    and run: "run_state (confirm_Execute E J c token) w = (r, w')"
    and claims: "jwt_parse J (env_clock E (ncalls w)) token = Inr claims"
  shows "(r = Inr () \<longrightarrow> (jc_sub claims, jc_repo claims) \<notin> pending (committed w')) \<and>
    ((jc_sub claims, jc_repo claims) \<notin> pending (committed w) \<longrightarrow> committed w' = committed w \<and>
      ((\<forall>n. env_fault E n = NoFault) \<longrightarrow> r = Inr ()))"
proof -
  let ?e = "jc_sub claims" and ?r = "jc_repo claims" and ?w = "w\<lparr>ncalls := Suc (ncalls w)\<rparr>"
  have "r = Inr () \<longrightarrow> (?e, ?r) \<notin> pending (committed w')"
    using wpD [OF confirm_refined [OF c w wf] run] claims by auto
  moreover have "committed w' = committed w \<and> ((\<forall>n. env_fault E n = NoFault) \<longrightarrow> r = Inr ())"
    if no: "(?e, ?r) \<notin> pending (committed w)"
  proof -
    have none: "confirm_rows ?e ?r i (committed w) = Inr ([], committed w)" for i
      using abs_confirm [OF wf, of ?e ?r i "fst (projr (confirm_rows ?e ?r i (committed w)))"
          "snd (projr (confirm_rows ?e ?r i (committed w)))"] no
      by (auto simp: confirm_rows_def split: if_splits)
    note defs = confirm_Execute_body Verify_def Confirm_def QueryRow_def Within_def Begin_def Commit_def sql_def
      run_tx_def none Scan_def wp_simps Let_def
    have "wp (confirm_Execute E J c token) (\<lambda>r w'. committed w' = committed w) w"
      using c w claims by (simp add: defs split: fault.splits)
    moreover have "wp (confirm_Execute E J c token) (\<lambda>r w'. r = Inr ()) w" if "\<forall>n. env_fault E n = NoFault"
      using c w claims that by (simp add: defs)
    ultimately show ?thesis using wpD [OF _ run] by blast
  qed
  ultimately show ?thesis by blast
qed

theorem confirm_idempotent_witness:
  "committed (snd (run_state (confirm_Execute (faulty_env []) (demo_jwt\<lparr>jwt_parse := (\<lambda>now tok. Inr (demo_claims 0))\<rparr>)
     Background ''tok'') (fresh_world (demo_sub_db\<lparr>subscriptions := []\<rparr>)))) = demo_sub_db\<lparr>subscriptions := []\<rparr>"
proof -
  let ?J = "demo_jwt\<lparr>jwt_parse := (\<lambda>now tok. Inr (demo_claims 0))\<rparr>" and ?d = "demo_sub_db\<lparr>subscriptions := []\<rparr>"
  have wf: "sub_wf (ncalls (fresh_world ?d)) (committed (fresh_world ?d))"
    by (simp add: sub_wf_def outbox_wf_def demo_sub_db_def)
  have "jwt_parse ?J (env_clock (faulty_env []) (ncalls (fresh_world ?d))) ''tok'' = Inr (demo_claims 0)" by simp
  from confirm_idempotent [OF Background_tx fresh_world_simps(2) wf prod.collapse [symmetric] this]
  show ?thesis by (simp add: pending_def)
qed

end
