(* ===== verification/Connect.thy ===== *)
theory Connect
  imports Subscription_Spec
begin

text \<open>
  The public API of the subscription service (\<open>internal/subscription/adapter/connectrpc\<close>) and
  the internal compensation server (\<open>adapter/compensationserver\<close>): the handlers with their
  error mapping, and the authentication and validation interceptors around them.
\<close>

section \<open>Errors\<close>

datatype code = CodeInvalidArgument | CodeNotFound | CodeAlreadyExists | CodeInternal | CodeUnauthenticated

type_synonym connect_error = "code \<times> string"

definition domainErrorMappings :: "(sentinel \<times> code \<times> string) list" where
  "domainErrorMappings =
     [(ErrInvalidRepo, CodeInvalidArgument, ''invalid repo format, expected owner/repo''),
      (ErrRepoNotFound, CodeNotFound, ''repository not found on GitHub''),
      (ErrAlreadyExists, CodeAlreadyExists, ''email already subscribed to this repository''),
      (ErrNotFound, CodeNotFound, ''token not found''),
      (ErrExpired, CodeNotFound, ''confirmation link has expired''),
      (ErrInvalid, CodeInvalidArgument, ''invalid confirmation token'')]"

definition domainError :: "error \<Rightarrow> connect_error" where
  "domainError e =
     (case find (\<lambda>(target, c, m). errors_Is e target) domainErrorMappings of
        Some (target, c, m) \<Rightarrow> (c, m)
      | None \<Rightarrow> (CodeInternal, ''internal server error''))"

section \<open>Handlers\<close>

datatype request =
    SubscribeRequest (rq_email: string) (rq_repo: string)
  | ConfirmRequest (rq_token: string)
  | UnsubscribeRequest (rq_token: string)
  | ListSubscriptionsRequest (rq_email: string)

datatype response = Message string | Subscriptions "sub_view list"

definition toProtoSubscription :: "sub_view \<Rightarrow> sub_view" where
  "toProtoSubscription view =
     \<lparr>vw_email = vw_email view, vw_repo = vw_repo view, vw_confirmed = vw_confirmed view\<rparr>"

definition toProtoSubscriptions :: "sub_view list \<Rightarrow> sub_view list" where
  "toProtoSubscriptions views = map toProtoSubscription views"

type_synonym 'db rpc = "('db world, connect_error + response) state"

definition reply :: "('s, error + 'a) state \<Rightarrow> ('a \<Rightarrow> response) \<Rightarrow> ('s, connect_error + response) state" where
  "reply m f = do {
     r \<leftarrow> m;
     State_Monad.return (case r of Inl e \<Rightarrow> Inl (domainError e) | Inr x \<Rightarrow> Inr (f x))
   }"

text \<open>The service's dependencies, as \<open>NewService\<close> receives them.\<close>

record 'a deps =
  dp_gh :: "'a sub_db_scheme gitHubClient"
  dp_jwt :: jwt
  dp_ttl :: duration
  dp_base :: string

definition Service_Subscribe :: "env \<Rightarrow> 'a deps \<Rightarrow> ctx \<Rightarrow> string \<Rightarrow> string \<Rightarrow> 'a sub_db_scheme rpc" where
  "Service_Subscribe E D c email repo =
     reply (subscribe_Execute E (dp_gh D) (dp_jwt D) (dp_ttl D) (dp_base D) c email repo)
       (\<lambda>_. Message ''subscription successful, confirmation email sent'')"

definition Service_Confirm :: "env \<Rightarrow> 'a deps \<Rightarrow> ctx \<Rightarrow> string \<Rightarrow> 'a sub_db_scheme rpc" where
  "Service_Confirm E D c token =
     reply (confirm_Execute E (dp_jwt D) c token) (\<lambda>_. Message ''subscription confirmed successfully'')"

definition Service_Unsubscribe :: "env \<Rightarrow> 'a deps \<Rightarrow> ctx \<Rightarrow> string \<Rightarrow> 'a sub_db_scheme rpc" where
  "Service_Unsubscribe E D c token =
     reply (unsubscribe_Execute E c token) (\<lambda>_. Message ''unsubscribed successfully'')"

definition Service_ListSubscriptions :: "env \<Rightarrow> 'a deps \<Rightarrow> ctx \<Rightarrow> string \<Rightarrow> 'a sub_db_scheme rpc" where
  "Service_ListSubscriptions E D c email =
     reply (list_Execute E c email) (\<lambda>views. Subscriptions (toProtoSubscriptions views))"

fun handle :: "env \<Rightarrow> 'a deps \<Rightarrow> ctx \<Rightarrow> request \<Rightarrow> 'a sub_db_scheme rpc" where
  "handle E D c (SubscribeRequest email repo) = Service_Subscribe E D c email repo"
| "handle E D c (ConfirmRequest token) = Service_Confirm E D c token"
| "handle E D c (UnsubscribeRequest token) = Service_Unsubscribe E D c token"
| "handle E D c (ListSubscriptionsRequest email) = Service_ListSubscriptions E D c email"

section \<open>Interceptors\<close>

definition bearerPrefix :: string where
  "bearerPrefix = ''Bearer ''"

text \<open>\<open>strings.EqualFold\<close> with a prefix that has no letter with a non-ASCII case variant.\<close>

definition EqualFold :: "string \<Rightarrow> string \<Rightarrow> bool" where
  "EqualFold a b \<longleftrightarrow> map fold_char a = map fold_char b"

definition bearerToken :: "string \<Rightarrow> string" where
  "bearerToken header =
     (if length header < length bearerPrefix \<or> \<not> EqualFold (take (length bearerPrefix) header) bearerPrefix
      then '''' else drop (length bearerPrefix) header)"

fun protectedProcedures :: "request \<Rightarrow> bool" where
  "protectedProcedures (SubscribeRequest e r) = True"
| "protectedProcedures (ListSubscriptionsRequest e) = True"
| "protectedProcedures _ = False"

text \<open>\<open>header\<close> is the value of \<open>Authorization\<close>, empty when the request has none.\<close>

definition AuthInterceptor :: "string \<Rightarrow> string \<Rightarrow> request \<Rightarrow> (request \<Rightarrow> ('s, connect_error + response) state) \<Rightarrow>
    ('s, connect_error + response) state" where
  "AuthInterceptor apiKey header req nxt =
     (if apiKey = '''' \<or> \<not> protectedProcedures req then nxt req
      else if bearerToken header \<noteq> apiKey then State_Monad.return (Inl (CodeUnauthenticated, ''unauthorized''))
      else nxt req)"

text \<open>
  \<open>V\<close> is the protovalidate library on the generated messages: \<open>None\<close> for a valid message, else the
  name of the field of the first violation, when there is one.
\<close>

definition validationMessage :: "string option \<Rightarrow> string" where
  "validationMessage field =
     (if field = Some ''email'' then ''invalid email format''
      else if field = Some ''repo'' then ''invalid repo format, expected owner/repo''
      else if field = Some ''token'' then ''invalid token''
      else ''invalid request'')"

definition ValidationInterceptor ::
  "(request \<Rightarrow> string option option) \<Rightarrow> request \<Rightarrow> (request \<Rightarrow> ('s, connect_error + response) state) \<Rightarrow>
    ('s, connect_error + response) state" where
  "ValidationInterceptor V req nxt =
     (case V req of
        Some field \<Rightarrow> State_Monad.return (Inl (CodeInvalidArgument, validationMessage field))
      | None \<Rightarrow> nxt req)"

text \<open>\<open>NewConnectHandler\<close>: authentication runs before validation.\<close>

definition ConnectHandler :: "env \<Rightarrow> 'a deps \<Rightarrow> string \<Rightarrow> (request \<Rightarrow> string option option) \<Rightarrow> ctx \<Rightarrow> string \<Rightarrow>
    request \<Rightarrow> 'a sub_db_scheme rpc" where
  "ConnectHandler E D apiKey V c header req =
     AuthInterceptor apiKey header req (\<lambda>req. ValidationInterceptor V req (handle E D c))"

section \<open>The compensation server\<close>

record compensate_request =
  cr_saga :: string
  cr_type :: string
  cr_email :: string
  cr_repo :: string

definition Service_Compensate :: "env \<Rightarrow> ctx \<Rightarrow> compensate_request \<Rightarrow>
    ('a sub_db_scheme world, connect_error + bool) state" where
  "Service_Compensate E c req = do {
     r \<leftarrow> compensate_Execute E (WithSagaID c (cr_saga req)) (cr_email req) (cr_repo req);
     State_Monad.return (case r of
         Inl e \<Rightarrow> Inl (CodeInternal, ''internal server error'')
       | Inr rolledBack \<Rightarrow> Inr rolledBack)
   }"

definition compensation_validationMessage :: "string option \<Rightarrow> string" where
  "compensation_validationMessage field =
     (if field = Some ''saga_id'' then ''invalid saga id, expected a uuid''
      else if field = Some ''saga_type'' then ''saga type must not be empty''
      else if field = Some ''email'' then ''invalid email format''
      else if field = Some ''repo_name'' then ''invalid repo name, expected owner/repo''
      else ''invalid request'')"

definition CompensationHandler :: "env \<Rightarrow> (compensate_request \<Rightarrow> string option option) \<Rightarrow> ctx \<Rightarrow>
    compensate_request \<Rightarrow> ('a sub_db_scheme world, connect_error + bool) state" where
  "CompensationHandler E V c req =
     (case V req of
        Some field \<Rightarrow> State_Monad.return (Inl (CodeInvalidArgument, compensation_validationMessage field))
      | None \<Rightarrow> Service_Compensate E c req)"

section \<open>The properties of the API\<close>

text \<open>
  \<^bold>\<open>C32.\<close> Authentication: with an API key configured, a subscribe or list request whose
  \<open>Authorization\<close> header is not that key under the (case-insensitive) Bearer scheme is answered
  with unauthenticated and neither changes the state nor makes any call; confirm and unsubscribe,
  whose tokens are their credentials, are not affected by the header.
\<close>

theorem auth_guards:
  assumes "apiKey \<noteq> ''''" and "\<not> (\<exists>scheme. map fold_char scheme = ''BEARER '' \<and> header = scheme @ apiKey)"
  shows "(protectedProcedures req \<longrightarrow> run_state (ConnectHandler E D apiKey V c header req) w =
      (Inl (CodeUnauthenticated, ''unauthorized''), w)) \<and>
    (\<not> protectedProcedures req \<longrightarrow> run_state (ConnectHandler E D apiKey V c header req) w =
      run_state (ConnectHandler E D apiKey V c other req) w)"
proof -
  have fold: "map fold_char bearerPrefix = ''BEARER ''"
    by code_simp
  have "bearerToken header \<noteq> apiKey"
  proof
    assume eq: "bearerToken header = apiKey"
    with assms(1) have "map fold_char (take (length bearerPrefix) header) = ''BEARER ''"
      by (auto simp: bearerToken_def EqualFold_def fold split: if_splits)
    moreover from eq assms(1) have "header = take (length bearerPrefix) header @ apiKey"
      by (auto simp: bearerToken_def split: if_splits)
    ultimately have "\<exists>scheme. map fold_char scheme = ''BEARER '' \<and> header = scheme @ apiKey"
      by (intro exI conjI)
    with assms(2) show False by (rule notE)
  qed
  with assms(1) show ?thesis by (simp add: ConnectHandler_def AuthInterceptor_def)
qed

theorem auth_guards_witness:
  "run_state (ConnectHandler calm_env \<lparr>dp_gh = demo_gh, dp_jwt = demo_jwt, dp_ttl = 0, dp_base = ''x''\<rparr> ''k''
     (\<lambda>_. None) Background ''Basic k'' (ListSubscriptionsRequest ''a@b'')) (fresh_world demo_sub_db) =
   (Inl (CodeUnauthenticated, ''unauthorized''), fresh_world demo_sub_db)"
proof -
  have "\<not> (\<exists>scheme. map fold_char scheme = ''BEARER '' \<and> ''Basic k'' = scheme @ ''k'')"
    by (auto simp: map_eq_Cons_conv)
  then show ?thesis
    using auth_guards [of "''k''" "''Basic k''" "ListSubscriptionsRequest ''a@b''"] by simp
qed



end
