(* ===== verification/Scan_Pass.thy ===== *)
theory Scan_Pass
  imports Repo_Name "HOL-Library.Multiset"
begin

text \<open>
  The concurrent fetch pass of \<open>internal/scanner/usecase/scanner/scanner.go\<close>: an errgroup with a
  limit runs one goroutine per repository; each asks GitHub for the latest release and appends
  what it got under a mutex. The pass is a step relation over all interleavings of the loop, the
  goroutines and the cancellation of the context.
\<close>

section \<open>One repository\<close>

type_synonym github = "string \<Rightarrow> string \<Rightarrow> error + release"

text \<open>\<open>handleReleaseError\<close>: only an invalid token and the rate limit stop the pass.\<close>

definition handleReleaseError :: "error \<Rightarrow> error option" where
  "handleReleaseError e =
     (if errors_Is e ErrUnauthorized then Some e
      else if errors_Is e ErrRateLimited then Some e
      else if errors_Is e ErrNoRelease \<or> errors_Is e Canceled then None
      else None)"

text \<open>\<open>fetchRelease\<close>, with what the context says when it starts and the client's answers \<open>gh\<close>.\<close>

definition fetchRelease :: "bool \<Rightarrow> github \<Rightarrow> string \<Rightarrow> error + release option" where
  "fetchRelease ctx_done gh repoName =
     (if ctx_done then Inr None
      else case ParseRepo repoName of
        Inl e \<Rightarrow> Inr None
      | Inr (owner, name) \<Rightarrow> (case gh owner name of
          Inr rel \<Rightarrow> Inr (Some rel)
        | Inl e \<Rightarrow> (case handleReleaseError e of None \<Rightarrow> Inr None | Some e \<Rightarrow> Inl e)))"

section \<open>The pass\<close>

text \<open>
  The state of \<open>Scanner.Scan\<close>: the repositories the loop has not reached; the one it has handed to
  \<open>g.Go\<close>, which blocks while the limit is reached; those whose goroutine runs; what was observed
  so far; and whether the group's context is cancelled.
\<close>

record scan_state =
  todo :: "string list"
  handed :: "string option"
  running :: "string list"
  observed :: "(string \<times> release) list"
  cancelled :: bool

text \<open>\<open>errgroup.SetLimit\<close>: a negative limit is none, a limit of zero admits no goroutine.\<close>

definition below_limit :: "int \<Rightarrow> nat \<Rightarrow> bool" where
  "below_limit workers n \<longleftrightarrow> workers < 0 \<or> int n < workers"

text \<open>
  The steps: the loop checks the context and hands over the next repository, or breaks off;
  \<open>g.Go\<close> starts a goroutine; a goroutine ends with what \<open>fetchRelease\<close> gave it; one that sees the
  cancelled context, before or during its request, ends without a result; the caller's
  context may be cancelled at any time.
\<close>

inductive scan_step :: "int \<Rightarrow> github \<Rightarrow> scan_state \<Rightarrow> scan_state \<Rightarrow> bool"
  for workers gh where
  hand_over: "todo s = r # rs \<Longrightarrow> handed s = None \<Longrightarrow> \<not> cancelled s \<Longrightarrow>
    scan_step workers gh s (s\<lparr>todo := rs, handed := Some r\<rparr>)"
| break_off: "todo s \<noteq> [] \<Longrightarrow> handed s = None \<Longrightarrow> cancelled s \<Longrightarrow>
    scan_step workers gh s (s\<lparr>todo := []\<rparr>)"
| spawn: "handed s = Some r \<Longrightarrow> below_limit workers (length (running s)) \<Longrightarrow>
    scan_step workers gh s (s\<lparr>handed := None, running := running s @ [r]\<rparr>)"
| found: "r \<in> set (running s) \<Longrightarrow> fetchRelease False gh r = Inr (Some rel) \<Longrightarrow>
    scan_step workers gh s (s\<lparr>running := remove1 r (running s), observed := observed s @ [(r, rel)]\<rparr>)"
| no_release: "r \<in> set (running s) \<Longrightarrow> fetchRelease False gh r = Inr None \<Longrightarrow>
    scan_step workers gh s (s\<lparr>running := remove1 r (running s)\<rparr>)"
| failed: "r \<in> set (running s) \<Longrightarrow> fetchRelease False gh r = Inl e \<Longrightarrow>
    scan_step workers gh s (s\<lparr>running := remove1 r (running s), cancelled := True\<rparr>)"
| stopped: "r \<in> set (running s) \<Longrightarrow> cancelled s \<Longrightarrow> fetchRelease True gh r = Inr None \<Longrightarrow>
    scan_step workers gh s (s\<lparr>running := remove1 r (running s)\<rparr>)"
| shutdown: "\<not> cancelled s \<Longrightarrow> scan_step workers gh s (s\<lparr>cancelled := True\<rparr>)"

inductive_cases scan_stepE: "scan_step workers gh s s'"

definition scan_start :: "string list \<Rightarrow> scan_state" where
  "scan_start repos = \<lparr>todo = repos, handed = None, running = [], observed = [], cancelled = False\<rparr>"

text \<open>\<open>g.Wait\<close> returns: the loop is over and no goroutine runs. \<open>Scan\<close> then returns \<open>observed\<close>.\<close>

definition scan_final :: "scan_state \<Rightarrow> bool" where
  "scan_final s \<longleftrightarrow> todo s = [] \<and> handed s = None \<and> running s = []"

abbreviation scan_reaches :: "int \<Rightarrow> github \<Rightarrow> scan_state \<Rightarrow> scan_state \<Rightarrow> bool" where
  "scan_reaches workers gh \<equiv> (scan_step workers gh)\<^sup>*\<^sup>*"

section \<open>What the pass observes\<close>

text \<open>The releases that GitHub's answers give, repository by repository.\<close>

definition answered :: "github \<Rightarrow> string \<Rightarrow> (string \<times> release) list" where
  "answered gh r = (case fetchRelease False gh r of Inr (Some rel) \<Rightarrow> [(r, rel)] | _ \<Rightarrow> [])"

definition answers :: "github \<Rightarrow> string list \<Rightarrow> (string \<times> release) list" where
  "answers gh rs = concat (map (answered gh) rs)"

lemma answers_simps [simp]:
  "answers gh [] = []" "answers gh (r # rs) = answered gh r @ answers gh rs"
  "answers gh (xs @ ys) = answers gh xs @ answers gh ys"
  by (simp_all add: answers_def)

lemma mset_answers_remove1:
  "r \<in> set xs \<Longrightarrow> mset (answers gh xs) = mset (answered gh r) + mset (answers gh (remove1 r xs))"
  by (induction xs) auto

lemma set_answers: "(r, rel) \<in> set (answers gh rs) \<longleftrightarrow> r \<in> set rs \<and> fetchRelease False gh r = Inr (Some rel)"
  by (induction rs) (auto simp: answered_def split: sum.splits option.splits)

lemma distinct_answers: "distinct rs \<Longrightarrow> distinct (map fst (answers gh rs))"
  by (induction rs) (auto simp: answered_def set_answers split: sum.splits option.splits)

text \<open>What the pass may still observe.\<close>

definition outstanding :: "scan_state \<Rightarrow> string list" where
  "outstanding s = todo s @ (case handed s of None \<Rightarrow> [] | Some r \<Rightarrow> [r]) @ running s"

definition scan_inv :: "int \<Rightarrow> github \<Rightarrow> string list \<Rightarrow> scan_state \<Rightarrow> bool" where
  "scan_inv workers gh repos s \<longleftrightarrow>
     (0 \<le> workers \<longrightarrow> int (length (running s)) \<le> workers) \<and>
     mset (observed s) + mset (answers gh (outstanding s)) \<subseteq># mset (answers gh repos) \<and>
     (\<not> cancelled s \<longrightarrow> mset (observed s) + mset (answers gh (outstanding s)) = mset (answers gh repos))"

lemma scan_inv_start: "scan_inv workers gh repos (scan_start repos)"
  by (simp add: scan_inv_def scan_start_def outstanding_def)

lemma answered_simps [simp]:
  "fetchRelease False gh r = Inr (Some rel) \<Longrightarrow> answered gh r = [(r, rel)]"
  "fetchRelease False gh r = Inr None \<Longrightarrow> answered gh r = []"
  "fetchRelease False gh r = Inl e \<Longrightarrow> answered gh r = []"
  by (simp_all add: answered_def)

lemma scan_inv_drop:
  assumes "scan_inv workers gh repos s" and "cancelled s'" and "observed s' = observed s"
    and "length (running s') \<le> length (running s)"
    and "mset (answers gh (outstanding s')) \<subseteq># mset (answers gh (outstanding s))"
  shows "scan_inv workers gh repos s'"
proof -
  have "mset (observed s) + mset (answers gh (outstanding s')) \<subseteq># mset (answers gh repos)"
    using assms(1) subset_mset.add_left_mono [OF assms(5), of "mset (observed s)"]
    by (auto simp only: scan_inv_def intro: subset_mset.trans)
  with assms(1-4) show ?thesis by (auto simp: scan_inv_def)
qed

lemma scan_inv_move:
  assumes "scan_inv workers gh repos s" and "cancelled s' = cancelled s" and "observed s' = observed s"
    and "0 \<le> workers \<longrightarrow> int (length (running s')) \<le> workers"
    and "mset (answers gh (outstanding s')) = mset (answers gh (outstanding s))"
  shows "scan_inv workers gh repos s'"
  using assms by (simp add: scan_inv_def)

lemma scan_step_inv:
  "scan_step workers gh s s' \<Longrightarrow> scan_inv workers gh repos s \<Longrightarrow> scan_inv workers gh repos s'"
proof (induction rule: scan_step.induct)
  case (break_off s)
  then show ?case by - (rule scan_inv_drop [of workers gh repos s], simp_all add: outstanding_def)
next
  case (stopped r s)
  have "mset (answers gh (outstanding (s\<lparr>running := remove1 r (running s)\<rparr>))) \<subseteq>#
      mset (answers gh (outstanding s))"
    using mset_answers_remove1 [OF stopped(1), of gh] by (simp add: outstanding_def)
  with stopped show ?case
    by - (rule scan_inv_drop [of workers gh repos s], simp_all add: length_remove1)
next
  case (found r s rel)
  then show ?case
    using mset_answers_remove1 [OF found(1), of gh]
    by (auto simp: scan_inv_def outstanding_def length_remove1)
next
  case (no_release r s)
  then show ?case
    using mset_answers_remove1 [OF no_release(1), of gh]
    by (auto simp: scan_inv_def outstanding_def length_remove1)
next
  case (failed r s e)
  then show ?case
    using mset_answers_remove1 [OF failed(1), of gh]
    by (auto simp: scan_inv_def outstanding_def length_remove1)
next
  case (hand_over s r rs)
  then show ?case
    by - (rule scan_inv_move [of workers gh repos s], simp_all add: outstanding_def scan_inv_def)
next
  case (spawn s r)
  then show ?case
    by - (rule scan_inv_move [of workers gh repos s], auto simp: outstanding_def below_limit_def)
qed (auto simp: scan_inv_def outstanding_def)

lemma scan_reaches_inv: "scan_reaches workers gh (scan_start repos) s \<Longrightarrow> scan_inv workers gh repos s"
  by (induction rule: rtranclp_induct) (auto intro: scan_inv_start scan_step_inv)

section \<open>Progress\<close>

text \<open>Every step makes the rest of the pass smaller.\<close>

definition scan_work :: "scan_state \<Rightarrow> nat" where
  "scan_work s = 3 * length (todo s) + (case handed s of None \<Rightarrow> 0 | Some _ \<Rightarrow> 2) + length (running s) +
     (if cancelled s then 0 else 1)"

lemma scan_step_work: "scan_step workers gh s s' \<Longrightarrow> scan_work s' < scan_work s"
  by (induction rule: scan_step.induct)
    (auto simp: scan_work_def length_remove1 dest: length_pos_if_in_set)

lemma scan_not_stuck:
  assumes "workers \<noteq> 0" and "\<not> scan_final s"
  shows "\<exists>s'. scan_step workers gh s s'"
proof (cases "running s")
  case (Cons r rs)
  then have "r \<in> set (running s)" by simp
  then show ?thesis
    by (cases "fetchRelease False gh r") (metis scan_step.failed, metis not_Some_eq scan_step.no_release scan_step.found)
next
  case Nil
  show ?thesis
  proof (cases "handed s")
    case (Some r)
    from Nil assms(1) have "below_limit workers (length (running s))" by (auto simp: below_limit_def)
    with Some show ?thesis by (blast intro: scan_step.spawn)
  next
    case None
    with Nil assms(2) have "todo s \<noteq> []" by (simp add: scan_final_def)
    with None show ?thesis
      by (metis list.exhaust scan_step.break_off scan_step.hand_over)
  qed
qed

section \<open>The properties of the pass\<close>

text \<open>An answer for one repository and the rate limit for every other.\<close>

definition demo_github :: github where
  "demo_github owner name =
     (if owner = ''a'' then Inr \<lparr>TagName = ''v2'', HTMLURL = ''u''\<rparr> else Inl (Sentinel ErrRateLimited))"

text \<open>
  \<^bold>\<open>C29.\<close> \<open>Scanner.Scan\<close>, in every interleaving: never more goroutines run than the limit; the
  observed releases are exactly answers of GitHub for listed repositories, each at most once;
  and a pass that ends without being cancelled (no invalid token, no rate limit, no shutdown)
  has observed every repository that has a release.
\<close>

theorem scan_observes:
  assumes "scan_reaches workers gh (scan_start repos) s"
  shows "(0 \<le> workers \<longrightarrow> int (length (running s)) \<le> workers) \<and>
    mset (observed s) \<subseteq># mset (answers gh repos) \<and>
    (scan_final s \<and> \<not> cancelled s \<longrightarrow> mset (observed s) = mset (answers gh repos))"
  using scan_reaches_inv [OF assms]
  by (auto simp: scan_inv_def scan_final_def outstanding_def elim: mset_subset_eq_add_left [THEN subset_mset.trans])

lemma demo_pass:
  "scan_reaches 1 demo_github (scan_start [''a/b''])
     \<lparr>todo = [], handed = None, running = [], observed = [(''a/b'', \<lparr>TagName = ''v2'', HTMLURL = ''u''\<rparr>)],
      cancelled = False\<rparr>"
proof -
  have fetch: "fetchRelease False demo_github ''a/b'' = Inr (Some \<lparr>TagName = ''v2'', HTMLURL = ''u''\<rparr>)"
    by code_simp
  have "scan_step 1 demo_github (scan_start [''a/b'']) (scan_start [''a/b'']\<lparr>todo := [], handed := Some ''a/b''\<rparr>)"
    by (rule scan_step.hand_over) (simp_all add: scan_start_def)
  moreover have "scan_step 1 demo_github (scan_start [''a/b'']\<lparr>todo := [], handed := Some ''a/b''\<rparr>)
      (scan_start [''a/b'']\<lparr>todo := [], handed := None, running := [''a/b'']\<rparr>)"
    using scan_step.spawn [of "scan_start [''a/b'']\<lparr>todo := [], handed := Some ''a/b''\<rparr>" "''a/b''" 1 demo_github]
    by (simp add: scan_start_def below_limit_def)
  moreover have "scan_step 1 demo_github (scan_start [''a/b'']\<lparr>todo := [], handed := None, running := [''a/b'']\<rparr>)
      \<lparr>todo = [], handed = None, running = [], observed = [(''a/b'', \<lparr>TagName = ''v2'', HTMLURL = ''u''\<rparr>)],
       cancelled = False\<rparr>"
    using scan_step.found [of "''a/b''" "scan_start [''a/b'']\<lparr>todo := [], handed := None, running := [''a/b'']\<rparr>"
        demo_github _ 1, OF _ fetch]
    by (simp add: scan_start_def)
  ultimately show ?thesis by (meson converse_rtranclp_into_rtranclp rtranclp.rtrancl_refl)
qed

theorem scan_observes_witness:
  "mset [(''a/b'', \<lparr>TagName = ''v2'', HTMLURL = ''u''\<rparr>)] = mset (answers demo_github [''a/b''])"
  using scan_observes [OF demo_pass] by (simp add: scan_final_def)

text \<open>
  \<open>Scanner.Scan\<close> returns: with a worker limit other than zero, no interleaving runs
  forever, and the pass can always go on until the loop is over and no goroutine runs, where
  \<open>g.Wait\<close> returns.
\<close>

lemma scan_pass_ends: "wfp (\<lambda>s' s. scan_step workers gh s s')"
  by (rule wfp_if_convertible_to_nat [where f = scan_work]) (rule scan_step_work)

theorem scan_terminates:
  assumes "workers \<noteq> 0"
  shows "wfp (\<lambda>s' s. scan_step workers gh s s') \<and>
    (\<forall>s. \<not> scan_final s \<longrightarrow> (\<exists>s'. scan_step workers gh s s'))"
  using scan_pass_ends scan_not_stuck [OF assms] by blast

theorem scan_terminates_witness:
  "\<exists>s'. scan_step 5 demo_github (scan_start [''a/b'']) s'"
  using scan_terminates [of 5 demo_github] by (simp add: scan_final_def scan_start_def)

text \<open>
  With \<open>SCAN_WORKERS=0\<close>, which the configuration accepts, \<open>g.Go\<close> never returns: once the
  loop has handed over the first repository the pass observes nothing and never ends, not even
  when the context is cancelled at shutdown.
\<close>

theorem scan_zero_workers_blocks:
  assumes "scan_reaches 0 gh \<lparr>todo = rs, handed = Some r, running = [], observed = [], cancelled = False\<rparr> s"
  shows "handed s = Some r \<and> observed s = [] \<and> \<not> scan_final s"
proof -
  from assms have "handed s = Some r \<and> running s = [] \<and> observed s = []"
    by (induction rule: rtranclp_induct) (auto elim!: scan_stepE simp: below_limit_def)
  then show ?thesis by (simp add: scan_final_def)
qed

theorem scan_zero_workers_blocks_witness:
  "\<not> scan_final \<lparr>todo = [], handed = Some ''a/b'', running = [], observed = [], cancelled = True\<rparr>"
proof -
  let ?s = "\<lparr>todo = [], handed = Some ''a/b'', running = [], observed = [], cancelled = False\<rparr>"
  have "scan_step 0 demo_github ?s (?s\<lparr>cancelled := True\<rparr>)" by (rule scan_step.shutdown) simp
  then have "scan_reaches 0 demo_github ?s (?s\<lparr>cancelled := True\<rparr>)" by (rule r_into_rtranclp)
  then show ?thesis
    using scan_zero_workers_blocks [of demo_github "[]" "''a/b''" "?s\<lparr>cancelled := True\<rparr>"] by simp
qed

end
