(* ===== verification/Scanner.thy ===== *)
theory Scanner
  imports Publishing Scan_Pass
begin

text \<open>
  The scanner service (\<open>internal/scanner\<close>): the table \<open>watched_repos\<close>, the watchlist projection
  of subscription events, the advance of the last seen tag, and the watch use case that seeds
  tags and announces new releases. The fetch pass it calls is the theory \<open>Scan_Pass\<close>.
\<close>

section \<open>Domain and repository\<close>

record watched_repo =
  wr_name :: string
  wr_tag :: "string option"
  wr_count :: int

record scan_db =
  watched :: "watched_repo list"

definition increment :: "string \<Rightarrow> ('a scan_db_scheme, unit) stmt" where
  "increment repo i d =
     (if \<exists>r \<in> set (watched d). wr_name r = repo \<and> wr_count r + 1 > max_integer
      then Inl ''integer out of range''
      else if \<exists>r \<in> set (watched d). wr_name r = repo
      then Inr ((), d\<lparr>watched := map (\<lambda>r. if wr_name r = repo then r\<lparr>wr_count := wr_count r + 1\<rparr> else r) (watched d)\<rparr>)
      else Inr ((), d\<lparr>watched := watched d @ [\<lparr>wr_name = repo, wr_tag = None, wr_count = 1\<rparr>]\<rparr>))"

definition IncrementSubscriber :: "env \<Rightarrow> string \<Rightarrow> ('a scan_db_scheme world, error + unit) state" where
  "IncrementSubscriber E repo = wrap ''increment subscriber count'' (sql E Pool (increment repo))"

text \<open>
  The \<open>UPDATE\<close> of the common table expression and the \<open>DELETE\<close> see the same snapshot: a row with
  more than one subscriber is decremented, and only if there is none the row is deleted.
\<close>

definition decrement :: "string \<Rightarrow> ('a scan_db_scheme, unit) stmt" where
  "decrement repo i d =
     (let many = (\<lambda>r. wr_name r = repo \<and> wr_count r > 1) in
      if \<exists>r \<in> set (watched d). many r
      then Inr ((), d\<lparr>watched := map (\<lambda>r. if many r then r\<lparr>wr_count := wr_count r - 1\<rparr> else r) (watched d)\<rparr>)
      else Inr ((), d\<lparr>watched := filter (\<lambda>r. wr_name r \<noteq> repo) (watched d)\<rparr>))"

definition DecrementSubscriber :: "env \<Rightarrow> string \<Rightarrow> ('a scan_db_scheme world, error + unit) state" where
  "DecrementSubscriber E repo = wrap ''decrement subscriber count'' (sql E Pool (decrement repo))"

definition list_watched :: "('a scan_db_scheme, watched_repo list) stmt" where
  "list_watched i d = Inr (filter (\<lambda>r. wr_count r > 0) (watched d), d)"

definition watchedRepoRow :: "string list" where
  "watchedRepoRow = [''repo_name'', ''last_seen_tag'', ''subscriber_count'']"

definition ListWatched :: "env \<Rightarrow> ('a scan_db_scheme world, error + watched_repo list) state" where
  "ListWatched E =
     bindE (wrap ''query watched repos'' (sql E Pool list_watched)) (\<lambda>rows.
       wrap ''collect watched repos'' (liftE (CollectRows (RowToStructByName watchedRepoRow
         [''repo_name'', ''last_seen_tag'', ''subscriber_count'']) rows)))"

lemma ListWatched_eq: "ListWatched E = wrap ''query watched repos'' (sql E Pool list_watched)"
  by (simp add: ListWatched_def collect_matching watchedRepoRow_def collect_ok)

definition advance_tag :: "string \<Rightarrow> string \<Rightarrow> ('a scan_db_scheme, unit) stmt" where
  "advance_tag repo tag i d =
     Inr ((), d\<lparr>watched := map (\<lambda>r. if wr_name r = repo then r\<lparr>wr_tag := Some tag\<rparr> else r) (watched d)\<rparr>)"

definition AdvanceTag :: "env \<Rightarrow> string \<Rightarrow> string \<Rightarrow> ('a scan_db_scheme world, error + unit) state" where
  "AdvanceTag E repo tag = wrap ''advance last seen tag'' (sql E Pool (advance_tag repo tag))"

section \<open>Watchlist and tags\<close>

definition watchlist_Confirmed :: "env \<Rightarrow> event \<Rightarrow> ('a scan_db_scheme world, error + unit) state" where
  "watchlist_Confirmed E ev = wrap ''increment subscriber'' (IncrementSubscriber E (RepoName ev))"

definition watchlist_Removed :: "env \<Rightarrow> event \<Rightarrow> ('a scan_db_scheme world, error + unit) state" where
  "watchlist_Removed E ev = wrap ''decrement subscriber'' (DecrementSubscriber E (RepoName ev))"

definition advancetag_Execute :: "env \<Rightarrow> string \<Rightarrow> string \<Rightarrow> int \<Rightarrow> ('a scan_db_scheme world, error + unit) state" where
  "advancetag_Execute E repo tag sentCount =
     (if sentCount \<le> 0 then ok ()
      else wrap ''advance tag'' (AdvanceTag E repo tag))"

section \<open>Consumer\<close>

definition scanner_HandleConfirmed :: "env \<Rightarrow> 'a scan_db_scheme handler" where
  "scanner_HandleConfirmed E data =
     bindE (decode_event E TSubscriptionConfirmed data) (\<lambda>ev. watchlist_Confirmed E ev)"

definition scanner_HandleRemoved :: "env \<Rightarrow> 'a scan_db_scheme handler" where
  "scanner_HandleRemoved E data =
     bindE (decode_event E TSubscriptionRemoved data) (\<lambda>ev. watchlist_Removed E ev)"

definition scanner_HandleReleaseNotified :: "env \<Rightarrow> 'a scan_db_scheme handler" where
  "scanner_HandleReleaseNotified E data =
     bindE (decode_event E TReleaseNotified data) (\<lambda>ev.
       advancetag_Execute E (RepoName ev) (Tag ev) (SentCount ev))"

section \<open>Publisher\<close>

definition publish :: "env \<Rightarrow> string \<Rightarrow> event \<Rightarrow> ('db world, error + unit) state" where
  "publish E subject ev =
     bindE (wrap (''marshal '' @ subject) (liftE (Marshal E ev))) (\<lambda>data.
       wrap (''publish '' @ subject) (Publish E subject data))"

definition pub_ReleaseDetected :: "env \<Rightarrow> event \<Rightarrow> ('db world, error + unit) state" where
  "pub_ReleaseDetected E ev = publish E SubjectReleaseDetected ev"

declare pub_ReleaseDetected_def [simp]

section \<open>The watch use case\<close>

text \<open>The \<open>scanner\<close> interface of the use case: the observed releases, by repository.\<close>

type_synonym 'db scan_fn = "string list \<Rightarrow> ('db world, error + (string \<times> release) list) state"

datatype outcome = outcomeUnchanged | outcomeSeeded | outcomeDetected

definition process :: "env \<Rightarrow> watched_repo \<Rightarrow> release \<Rightarrow> ('a scan_db_scheme world, outcome) state" where
  "process E repo rel =
     (case wr_tag repo of
        None \<Rightarrow> do {
          _ \<leftarrow> AdvanceTag E (wr_name repo) (TagName rel);
          State_Monad.return outcomeSeeded
        }
      | Some seen \<Rightarrow>
          if seen = TagName rel then State_Monad.return outcomeUnchanged
          else do {
            sagaID \<leftarrow> NewString E;
            _ \<leftarrow> pub_ReleaseDetected E
                   (ReleaseDetected sagaID (wr_name repo) (TagName rel) (HTMLURL rel));
            State_Monad.return outcomeDetected
          })"

lemmas process_body = process_def [unfolded pub_ReleaseDetected_def]

text \<open>\<open>byName\<close>: a later row with the same name would overwrite an earlier one.\<close>

definition byName :: "watched_repo list \<Rightarrow> string \<Rightarrow> watched_repo option" where
  "byName rows = map_of (rev (map (\<lambda>r. (wr_name r, r)) rows))"

primrec process_all :: "env \<Rightarrow> watched_repo list \<Rightarrow> (string \<times> release) list \<Rightarrow>
    ('a scan_db_scheme world, outcome list) state" where
  "process_all E rows [] = State_Monad.return []"
| "process_all E rows (obs # os) =
     (case byName rows (fst obs) of
        None \<Rightarrow> process_all E rows os
      | Some repo \<Rightarrow> do {
          out \<leftarrow> process E repo (snd obs);
          outs \<leftarrow> process_all E rows os;
          State_Monad.return (out # outs)
        })"

definition watch_Run :: "env \<Rightarrow> 'a scan_db_scheme scan_fn \<Rightarrow> ('a scan_db_scheme world, error + outcome list) state" where
  "watch_Run E scan =
     bindE (wrap ''list watched repos'' (ListWatched E)) (\<lambda>rows.
       if rows = [] then ok []
       else bindE (wrap ''scan repos'' (scan (map wr_name rows))) (\<lambda>observed. do {
         outs \<leftarrow> process_all E rows observed;
         ok outs
       }))"

text \<open>A pass of the scheduler (\<open>infrastructure/scheduler\<close>): a fresh scan id for the logs, and errors are only logged.\<close>

definition scheduler_run :: "env \<Rightarrow> (ctx \<Rightarrow> ('db world, error + 'r) state) \<Rightarrow> ctx \<Rightarrow> ('db world, unit) state" where
  "scheduler_run E runner c = do {
     scanID \<leftarrow> NewString E;
     _ \<leftarrow> runner (WithScanID c scanID);
     State_Monad.return ()
   }"

section \<open>The constraints of the table\<close>

definition scan_wf :: "'a scan_db_scheme \<Rightarrow> bool" where
  "scan_wf d \<longleftrightarrow> distinct (map wr_name (watched d)) \<and>
     (\<forall>r \<in> set (watched d). 1 \<le> wr_count r \<and> wr_count r \<le> max_integer)"

text \<open>Every update of the rows keeps their names.\<close>

lemma scan_wf_update:
  assumes "scan_wf d" and "\<And>r. wr_name (f r) = wr_name r"
    and "\<And>r. r \<in> set (watched d) \<Longrightarrow> 1 \<le> wr_count (f r) \<and> wr_count (f r) \<le> max_integer"
  shows "scan_wf (d\<lparr>watched := map f (watched d)\<rparr>)"
  using assms by (simp add: scan_wf_def comp_def)

lemma keeps_watched:
  "stmt_keeps (\<lambda>_. scan_wf) (increment repo)" "stmt_keeps (\<lambda>_. scan_wf) (decrement repo)"
  "stmt_keeps (\<lambda>_. scan_wf) (advance_tag repo tag)" "stmt_keeps (\<lambda>_. scan_wf) list_watched"
proof -
  show "stmt_keeps (\<lambda>_. scan_wf) (increment repo)"
    by (auto simp: stmt_keeps_def increment_def intro!: scan_wf_update split: if_splits)
      (auto simp: scan_wf_def max_integer_def)
  show "stmt_keeps (\<lambda>_. scan_wf) (decrement repo)"
    by (auto simp: stmt_keeps_def decrement_def Let_def intro!: scan_wf_update split: if_splits)
      (auto simp: scan_wf_def distinct_map_filter)
  show "stmt_keeps (\<lambda>_. scan_wf) (advance_tag repo tag)"
    by (auto simp: stmt_keeps_def advance_tag_def intro!: scan_wf_update) (auto simp: scan_wf_def)
  show "stmt_keeps (\<lambda>_. scan_wf) list_watched"
    by (simp add: stmt_keeps_def list_watched_def)
qed

interpretation scan_wf: db_invariant "\<lambda>_. scan_wf"
  by unfold_locales

lemma preserves_scan_wf:
  "preserves (db_inv (\<lambda>_. scan_wf)) (scanner_HandleConfirmed E p)"
  "preserves (db_inv (\<lambda>_. scan_wf)) (scanner_HandleRemoved E p)"
  "preserves (db_inv (\<lambda>_. scan_wf)) (scanner_HandleReleaseNotified E p)"
  unfolding scanner_HandleConfirmed_def scanner_HandleRemoved_def scanner_HandleReleaseNotified_def
    watchlist_Confirmed_def watchlist_Removed_def advancetag_Execute_def
    IncrementSubscriber_def DecrementSubscriber_def AdvanceTag_def
  by (intro preserves_rules scan_wf.preserves_sql keeps_watched)+

lemma preserves_process: "preserves (db_inv (\<lambda>_. scan_wf)) (process E repo rel)"
  unfolding process_body AdvanceTag_def publish_def
  by (intro preserves_rules keeps_watched)

lemma preserves_process_all: "preserves (db_inv (\<lambda>_. scan_wf)) (process_all E rows os)"
  by (induction os) (auto intro!: preserves_rules preserves_process)

lemma preserves_watch_Run:
  "(\<And>rs. preserves (db_inv (\<lambda>_. scan_wf)) (scan rs)) \<Longrightarrow> preserves (db_inv (\<lambda>_. scan_wf)) (watch_Run E scan)"
  unfolding watch_Run_def ListWatched_eq
  by (intro preserves_rules keeps_watched preserves_process_all) auto

section \<open>The watchlist as a counter\<close>

text \<open>The abstract watchlist: how many confirmed subscriptions a repository has.\<close>

definition watched_row :: "'a scan_db_scheme \<Rightarrow> string \<Rightarrow> watched_repo option" where
  "watched_row d repo = find (\<lambda>r. wr_name r = repo) (watched d)"

definition subscribers :: "'a scan_db_scheme \<Rightarrow> string \<Rightarrow> nat" where
  "subscribers d repo = (case watched_row d repo of None \<Rightarrow> 0 | Some r \<Rightarrow> nat (wr_count r))"

text \<open>The last tag seen of a watched repository.\<close>

definition seen_tag :: "'a scan_db_scheme \<Rightarrow> string \<Rightarrow> string option" where
  "seen_tag d repo = Option.bind (watched_row d repo) wr_tag"

lemma find_map_key:
  "(\<And>r. wr_name (f r) = wr_name r) \<Longrightarrow>
   find (\<lambda>r. wr_name r = repo) (map f rs) = map_option f (find (\<lambda>r. wr_name r = repo) rs)"
  by (induction rs) auto

lemma watched_row_update:
  "(\<And>r. wr_name (f r) = wr_name r) \<Longrightarrow>
   watched_row (d\<lparr>watched := map f (watched d)\<rparr>) q = map_option f (watched_row d q)"
  by (simp add: watched_row_def find_map_key)

lemma find_filter_key:
  "find (\<lambda>r. wr_name r = q) (filter (\<lambda>r. wr_name r \<noteq> repo) rs) =
   (if q = repo then None else find (\<lambda>r. wr_name r = q) rs)"
  by (induction rs) auto

lemma watched_row_remove:
  "watched_row (d\<lparr>watched := filter (\<lambda>r. wr_name r \<noteq> repo) (watched d)\<rparr>) q =
   (if q = repo then None else watched_row d q)"
  by (simp add: watched_row_def find_filter_key)

lemma find_append: "find p (xs @ ys) = (case find p xs of None \<Rightarrow> find p ys | Some x \<Rightarrow> Some x)"
  by (induction xs) auto

lemma watched_row_insert:
  "watched_row (d\<lparr>watched := watched d @ [r]\<rparr>) q =
   (case watched_row d q of None \<Rightarrow> if wr_name r = q then Some r else None | Some r' \<Rightarrow> Some r')"
  by (simp add: watched_row_def find_append split: option.splits)

lemma find_distinct:
  "distinct (map wr_name rs) \<Longrightarrow> r \<in> set rs \<Longrightarrow> find (\<lambda>q. wr_name q = wr_name r) rs = Some r"
  by (induction rs) (auto simp: image_iff)

lemma watched_row_Some:
  "scan_wf d \<Longrightarrow> watched_row d q = Some r \<longleftrightarrow> r \<in> set (watched d) \<and> wr_name r = q"
  using find_distinct [of "watched d" r] by (auto simp: watched_row_def scan_wf_def find_Some_iff)

lemma watched_row_None: "watched_row d q = None \<longleftrightarrow> (\<forall>r \<in> set (watched d). wr_name r \<noteq> q)"
  by (auto simp: watched_row_def find_None_iff)

lemma watched_row_name: "watched_row d q = Some r \<Longrightarrow> wr_name r = q \<and> r \<in> set (watched d)"
  by (auto simp: watched_row_def find_Some_iff)

text \<open>The statements as functions of the row they address.\<close>

lemma watched_row_increment:
  assumes "increment repo i d = Inr (u, d')"
  shows "watched_row d' q = (if q \<noteq> repo then watched_row d q
    else case watched_row d q of
      None \<Rightarrow> Some \<lparr>wr_name = repo, wr_tag = None, wr_count = 1\<rparr>
    | Some r \<Rightarrow> Some (r\<lparr>wr_count := wr_count r + 1\<rparr>))"
  using assms watched_row_None [of d repo] watched_row_name [of d q]
  by (cases "watched_row d q")
    (auto simp: increment_def watched_row_update watched_row_insert split: if_splits)

lemma watched_row_decrement:
  assumes "scan_wf d" and "decrement repo i d = Inr (u, d')"
  shows "watched_row d' q = (if q \<noteq> repo then watched_row d q
    else case watched_row d q of
      None \<Rightarrow> None
    | Some r \<Rightarrow> if wr_count r > 1 then Some (r\<lparr>wr_count := wr_count r - 1\<rparr>) else None)"
proof -
  have "(\<exists>r \<in> set (watched d). wr_name r = repo \<and> wr_count r > 1) \<longleftrightarrow>
      (\<exists>r. watched_row d repo = Some r \<and> wr_count r > 1)"
    using assms(1) by (auto simp: watched_row_Some)
  with assms(2) show ?thesis
    using watched_row_name [of d q]
    by (cases "watched_row d q")
      (auto simp: decrement_def watched_row_update watched_row_remove Let_def split: if_splits)
qed

lemma watched_row_advance:
  assumes "advance_tag repo tag i d = Inr (u, d')"
  shows "watched_row d' q = (if q \<noteq> repo then watched_row d q
    else map_option (\<lambda>r. r\<lparr>wr_tag := Some tag\<rparr>) (watched_row d q))"
  using assms watched_row_name [of d q]
  by (cases "watched_row d q") (auto simp: advance_tag_def watched_row_update)

lemma watched_row_count: "scan_wf d \<Longrightarrow> watched_row d q = Some r \<Longrightarrow> 1 \<le> wr_count r"
  using watched_row_name [of d q r] by (simp add: scan_wf_def)

lemma increment_counts:
  assumes "scan_wf d" and "increment repo i d = Inr (u, d')"
  shows "subscribers d' = (subscribers d)(repo := Suc (subscribers d repo))" and "seen_tag d' = seen_tag d"
  using watched_row_count [OF assms(1), of repo]
  by (cases "watched_row d repo";
      auto simp: subscribers_def seen_tag_def fun_eq_iff watched_row_increment [OF assms(2)])+

lemma decrement_counts:
  assumes "scan_wf d" and "decrement repo i d = Inr (u, d')"
  shows "subscribers d' = (subscribers d)(repo := subscribers d repo - 1)"
    and "seen_tag d' = (seen_tag d)(repo := (if subscribers d repo \<le> 1 then None else seen_tag d repo))"
  by (cases "watched_row d repo";
      auto simp: subscribers_def seen_tag_def fun_eq_iff watched_row_decrement [OF assms])+

section \<open>The advance of the last seen tag\<close>

definition tagged :: "string \<Rightarrow> string \<Rightarrow> 'a scan_db_scheme \<Rightarrow> 'a scan_db_scheme" where
  "tagged repo tag d = d\<lparr>watched := map (\<lambda>r. if wr_name r = repo then r\<lparr>wr_tag := Some tag\<rparr> else r) (watched d)\<rparr>"

lemma advance_tag_tagged: "advance_tag repo tag i d = Inr ((), tagged repo tag d)"
  by (simp add: advance_tag_def tagged_def)

definition notified_applied :: "env \<Rightarrow> payload \<Rightarrow> 'a scan_db_scheme \<Rightarrow> 'a scan_db_scheme \<Rightarrow> bool" where
  "notified_applied E p d d' \<longleftrightarrow> (\<exists>ev. Unmarshal E TReleaseNotified p = Inr ev \<and> 0 < SentCount ev \<and>
     d' = tagged (RepoName ev) (Tag ev) d)"

definition notified_settled :: "env \<Rightarrow> payload \<Rightarrow> 'a scan_db_scheme \<Rightarrow> bool" where
  "notified_settled E p d \<longleftrightarrow> (\<exists>ev. Unmarshal E TReleaseNotified p = Inr ev \<and>
     (0 < SentCount ev \<longrightarrow> (\<forall>r \<in> set (watched d). wr_name r = RepoName ev \<longrightarrow> wr_tag r = Some (Tag ev))))"

lemma tagged_same:
  "\<forall>r \<in> set (watched d). wr_name r = repo \<longrightarrow> wr_tag r = Some tag \<Longrightarrow> tagged repo tag d = d"
  unfolding tagged_def by (subst map_idI) auto

interpretation release_notified: exactly_once_handler E "scanner_HandleReleaseNotified E"
  "notified_applied E" "notified_settled E" for E
proof
  show "notified_settled E p d'" if "notified_applied E p d d'" for p and d d' :: "'a scan_db_scheme"
    using that by (auto simp: notified_applied_def notified_settled_def tagged_def)
  show "wp (scanner_HandleReleaseNotified E p) (once_post (notified_applied E) (notified_settled E) p w) w"
    if w: "open_tx w = None" for p and w :: "'a scan_db_scheme world"
  proof (cases "Unmarshal E TReleaseNotified p")
    case (Inr ev)
    have post: "once_post (notified_applied E) (notified_settled E) p w r
        (w\<lparr>ncalls := n, committed := tagged (RepoName ev) (Tag ev) (committed w)\<rparr>)"
      if "0 < SentCount ev" for r n
      using that w Inr tagged_same [of "committed w" "RepoName ev" "Tag ev"]
      by (auto simp: once_post_def notified_applied_def notified_settled_def) (auto simp: tagged_def)
    show ?thesis
      using w Inr unfolding scanner_HandleReleaseNotified_def advancetag_Execute_def AdvanceTag_def
      by (auto simp: wp_simps advance_tag_tagged post once_post_error intro!: wp_sql_pool)
        (auto simp: once_post_def notified_settled_def)
  qed (use w in \<open>auto simp: scanner_HandleReleaseNotified_def wp_simps once_post_error\<close>)
qed

section \<open>The watch use case without faults\<close>

lemma wp_sql_calm:
  "\<forall>n. env_fault E n = NoFault \<Longrightarrow> f (server_in E (ncalls w) (env_dbclock E (ncalls w))) (committed w) = Inr (r, d) \<Longrightarrow>
   Q (Inr r) (w\<lparr>ncalls := Suc (ncalls w), committed := d\<rparr>) \<Longrightarrow> wp (sql E Pool f) Q w"
  by (simp add: sql_def run_pool_def wp_simps Let_def)

definition announcement :: "env \<Rightarrow> nat \<Rightarrow> string \<times> release \<Rightarrow> effect" where
  "announcement E n obs = Published SubjectReleaseDetected (Doc (encode (ReleaseDetected
     (uuid_String E (env_uuid E n)) (fst obs) (TagName (snd obs)) (HTMLURL (snd obs)))))"

text \<open>The observations that differ from the tag in the listed row, and those whose row has none.\<close>

definition changed :: "(string \<Rightarrow> watched_repo option) \<Rightarrow> string \<times> release \<Rightarrow> bool" where
  "changed rows obs \<longleftrightarrow> (\<exists>t. Option.bind (rows (fst obs)) wr_tag = Some t \<and> t \<noteq> TagName (snd obs))"

definition unseeded :: "(string \<Rightarrow> watched_repo option) \<Rightarrow> string \<times> release \<Rightarrow> bool" where
  "unseeded rows obs \<longleftrightarrow> map_option wr_tag (rows (fst obs)) = Some None"

definition publishable :: "env \<Rightarrow> string \<times> release \<Rightarrow> bool" where
  "publishable E obs \<longleftrightarrow> (\<forall>n. eventValidator_Struct E (ReleaseDetected
     (uuid_String E (env_uuid E n)) (fst obs) (TagName (snd obs)) (HTMLURL (snd obs))))"

definition passed :: "env \<Rightarrow> (string \<times> release) list \<Rightarrow> (string \<times> release) list \<Rightarrow>
    'a scan_db_scheme world \<Rightarrow> 'a scan_db_scheme world \<Rightarrow> bool" where
  "passed E new seeds w w' \<longleftrightarrow>
     (\<exists>ns. length ns = length new \<and> trace w' = trace w @ map2 (announcement E) ns new) \<and>
     committed w' = fold (\<lambda>obs. tagged (fst obs) (TagName (snd obs))) seeds (committed w)"

lemma passed_refl: "passed E [] [] w (w\<lparr>ncalls := n\<rparr>)" "passed E [] [] w w"
  by (simp_all add: passed_def)

lemma passed_ncalls: "passed E new seeds (w\<lparr>ncalls := n\<rparr>) = passed E new seeds w"
  by (rule ext) (simp add: passed_def)

lemma passed_trans:
  assumes "passed E a s w w1" and "passed E b t w1 w2"
  shows "passed E (a @ b) (s @ t) w w2"
proof -
  from assms obtain ns ms where "length ns = length a" "trace w1 = trace w @ map2 (announcement E) ns a"
    "length ms = length b" "trace w2 = trace w1 @ map2 (announcement E) ms b"
    by (auto simp: passed_def)
  then have "length (ns @ ms) = length (a @ b) \<and> trace w2 = trace w @ map2 (announcement E) (ns @ ms) (a @ b)"
    by simp
  moreover have "committed w2 = fold (\<lambda>obs. tagged (fst obs) (TagName (snd obs))) (s @ t) (committed w)"
    using assms by (simp add: passed_def)
  ultimately show ?thesis unfolding passed_def by blast
qed

lemma process_calm:
  assumes calm: "\<forall>n. env_fault E n = NoFault" and "publishable E (wr_name row, rel)"
    and rows: "rows (wr_name row) = Some row"
  shows "wp (process E row rel) (\<lambda>_. passed E (filter (changed rows) [(wr_name row, rel)])
    (filter (unseeded rows) [(wr_name row, rel)]) w) w"
proof (cases "wr_tag row")
  case None
  with rows calm show ?thesis
    by (auto simp: process_body AdvanceTag_def wp_simps changed_def unseeded_def passed_def advance_tag_tagged
        intro!: wp_sql_calm)
next
  case (Some t)
  have "passed E [(wr_name row, rel)] [] w
      (w\<lparr>ncalls := m, trace := trace w @ [announcement E n (wr_name row, rel)]\<rparr>)" for n m
    unfolding passed_def by (auto intro!: exI [where x = "[n]"])
  with Some rows calm assms(2) show ?thesis
    by (auto simp: process_body publish_def Publish_def Marshal_def wp_simps changed_def unseeded_def publishable_def
        passed_refl announcement_def Let_def)
qed

lemma byName_name: "byName rows q = Some row \<Longrightarrow> wr_name row = q"
  by (auto simp: byName_def dest!: map_of_SomeD)

lemma process_all_calm:
  assumes calm: "\<forall>n. env_fault E n = NoFault"
    and "\<forall>obs \<in> set os. publishable E obs"
  shows "wp (process_all E rows os) (\<lambda>_. passed E (filter (changed (byName rows)) os)
    (filter (unseeded (byName rows)) os) w) w"
  using assms(2)
proof (induction os arbitrary: w)
  case Nil
  then show ?case by (simp add: wp_simps passed_refl)
next
  case (Cons obs os)
  show ?case
  proof (cases "byName rows (fst obs)")
    case None
    with Cons show ?thesis by (simp add: changed_def unseeded_def)
  next
    case (Some row)
    have obs: "obs = (wr_name row, snd obs)" using byName_name [OF Some] by simp
    have tail: "wp (process_all E rows os) (\<lambda>_. passed E (filter (changed (byName rows)) ([obs] @ os))
        (filter (unseeded (byName rows)) ([obs] @ os)) w) w1"
      if "passed E (filter (changed (byName rows)) [obs]) (filter (unseeded (byName rows)) [obs]) w w1" for w1
      unfolding filter_append
      by (rule wp_mono [OF Cons.IH]) (use Cons.prems passed_trans [OF that] in auto)
    have "wp (process E row (snd obs)) (\<lambda>_. passed E (filter (changed (byName rows)) [obs])
        (filter (unseeded (byName rows)) [obs]) w) w"
      by (subst (1 2) obs, rule process_calm [OF calm]) (use Cons.prems obs Some byName_name [OF Some] in auto)
    then show ?thesis
      using Some by (auto simp: wp_simps elim!: wp_mono intro!: wp_mono [OF tail])
  qed
qed

lemma byName_watched:
  assumes "scan_wf d"
  shows "byName (watched d) = watched_row d"
proof
  fix q
  have "distinct (map fst (rev (map (\<lambda>r. (wr_name r, r)) (watched d))))"
    using assms by (simp add: scan_wf_def comp_def rev_map [symmetric])
  then have "byName (watched d) q = Some r \<longleftrightarrow> watched_row d q = Some r" for r
    using assms by (auto simp: byName_def watched_row_Some)
  then show "byName (watched d) q = watched_row d q" by (metis not_Some_eq)
qed

lemma watched_row_tagged:
  "watched_row (tagged repo tag d) q = (if q \<noteq> repo then watched_row d q
    else map_option (\<lambda>r. r\<lparr>wr_tag := Some tag\<rparr>) (watched_row d q))"
  by (rule watched_row_advance [OF advance_tag_tagged])

lemma watched_row_seeds:
  "distinct (map fst seeds) \<Longrightarrow>
   watched_row (fold (\<lambda>obs. tagged (fst obs) (TagName (snd obs))) seeds d) q =
   map_option (\<lambda>r. case map_of seeds q of None \<Rightarrow> r | Some rel \<Rightarrow> r\<lparr>wr_tag := Some (TagName rel)\<rparr>) (watched_row d q)"
proof (induction seeds arbitrary: d)
  case Nil
  then show ?case by (simp add: option.map_ident)
next
  case (Cons obs seeds)
  then have "fst obs = q \<Longrightarrow> map_of seeds q = None" by (auto simp: map_of_eq_None_iff)
  with Cons show ?case
    by (auto simp: watched_row_tagged option.map_comp comp_def split: prod.splits)
qed

lemma map_of_filter_key:
  "distinct (map fst xs) \<Longrightarrow> (\<And>v. map_of xs k = Some v \<Longrightarrow> p (k, v) = b) \<Longrightarrow>
   map_of (filter p xs) k = (if b then map_of xs k else None)"
  by (induction xs) (auto simp: map_of_eq_None_iff image_iff split: if_splits)

lemma map_of_mset_eq:
  assumes "mset xs = mset ys" and "distinct (map fst xs)"
  shows "map_of xs = map_of ys"
proof -
  have "distinct (map fst ys)"
    using assms by (metis mset_eq_imp_distinct_iff mset_map)
  moreover have "set xs = set ys" using assms(1) by (rule mset_eq_setD)
  ultimately show ?thesis using assms(2) by (simp add: map_of_inject_set)
qed

lemma answers_publishable:
  assumes "\<forall>n. valid_uuid E (uuid_String E (env_uuid E n)) \<and> uuid_String E (env_uuid E n) \<noteq> []"
    and "\<forall>owner name rel. gh owner name = Inr rel \<longrightarrow> TagName rel \<noteq> [] \<and> HTMLURL rel \<noteq> [] \<and> valid_url E (HTMLURL rel)"
    and "obs \<in> set (answers gh names)"
  shows "publishable E obs"
proof -
  from assms(3) have "fetchRelease False gh (fst obs) = Inr (Some (snd obs))"
    using set_answers [of "fst obs" "snd obs" gh names] by simp
  with assms(2) have "repoRegex_MatchString (fst obs)" "TagName (snd obs) \<noteq> []" "HTMLURL (snd obs) \<noteq> []"
    "valid_url E (HTMLURL (snd obs))"
    by (auto simp: fetchRelease_def ParseRepo_def split: sum.splits option.splits if_splits)
  moreover from this(1) have "fst obs \<noteq> []" by (auto simp: repoRegex_MatchString_def)
  ultimately show ?thesis
    using assms(1) by (simp add: publishable_def eventValidator_Struct_def valid_fields_def)
qed

text \<open>The run of the use case on the observations of a pass.\<close>

lemma watch_Run_calm:
  assumes calm: "\<forall>n. env_fault E n = NoFault" and wf: "scan_wf (committed w)"
    and os: "watched (committed w) = [] \<Longrightarrow> os = []" "\<forall>obs \<in> set os. publishable E obs"
  shows "wp (watch_Run E (\<lambda>_. ok os)) (\<lambda>r w'. passed E (filter (changed (watched_row (committed w))) os)
    (filter (unseeded (watched_row (committed w))) os) w w') w"
proof -
  let ?d = "committed w"
  have rows: "filter (\<lambda>r. 0 < wr_count r) (watched ?d) = watched ?d"
    using wf by (force simp: scan_wf_def intro: filter_True)
  have "wp (process_all E (watched ?d) os) (\<lambda>_. passed E (filter (changed (watched_row ?d)) os)
      (filter (unseeded (watched_row ?d)) os) w) (w\<lparr>ncalls := n\<rparr>)" for n
    using process_all_calm [where rows = "watched ?d" and w = "w\<lparr>ncalls := n\<rparr>", OF calm os(2)]
    by (simp add: byName_watched [OF wf] passed_ncalls)
  then show ?thesis
    unfolding watch_Run_def ListWatched_eq
    by (auto simp: wp_simps list_watched_def rows os(1) passed_refl intro!: wp_sql_calm [OF calm] elim!: wp_mono)
qed

section \<open>The properties of the scanner\<close>

definition demo_scan_db :: scan_db where
  "demo_scan_db = \<lparr>watched = [\<lparr>wr_name = ''a/b'', wr_tag = Some ''v1'', wr_count = 1\<rparr>]\<rparr>"

definition demo_notified :: payload where
  "demo_notified = Doc (JObj [(''sagaID'', JStr ''u1''), (''repoName'', JStr ''a/b''), (''tag'', JStr ''v2''),
     (''sentCount'', JInt 1)])"

definition demo_watch_confirmed :: payload where
  "demo_watch_confirmed = Doc (JObj [(''sagaID'', JStr ''u1''), (''email'', JStr ''a@b''), (''repoName'', JStr ''a/b''),
     (''unsubToken'', JStr ''t'')])"

lemma demo_scan_wf: "scan_wf demo_scan_db"
  by (simp add: scan_wf_def demo_scan_db_def max_integer_def)

text \<open>
  The schema of the scanner's database is never violated: its event handlers and the
  watch use case, for every failure and whatever GitHub answers, keep at most one row per
  repository and every count between 1 and the largest \<open>INTEGER\<close>; a repository without
  subscribers has no row.
\<close>

lemma scanner_schema_invariant:
  fixes w :: "'a scan_db_scheme world"
  assumes "m \<in> {scanner_HandleConfirmed E p, scanner_HandleRemoved E p, scanner_HandleReleaseNotified E p,
      bindE (watch_Run E (\<lambda>_. liftE os)) (\<lambda>_. ok ())}"
    and "open_tx w = None" and "scan_wf (committed w)" and "run_state m w = (r, w')"
  shows "scan_wf (committed w')"
proof -
  have "preserves (db_inv (\<lambda>_. scan_wf)) m"
    using assms(1) by (auto intro: preserves_scan_wf intro!: preserves_bindE preserves_watch_Run preserves_liftE preserves_return)
  from preserves_committed [OF this assms(3,2,4)] show ?thesis .
qed

lemma HandleConfirmed_counts:
  fixes w :: "'a scan_db_scheme world"
  assumes "scan_wf (committed w)" and "run_state (scanner_HandleConfirmed E p) w = (Inr (), w')"
  shows "\<exists>ev. Unmarshal E TSubscriptionConfirmed p = Inr ev \<and> seen_tag (committed w') = seen_tag (committed w) \<and>
    subscribers (committed w') =
      (subscribers (committed w))(RepoName ev := subscribers (committed w) (RepoName ev) + 1)"
proof -
  have "wp (scanner_HandleConfirmed E p) (\<lambda>r w'. r = Inr () \<longrightarrow> (\<exists>ev i.
      Unmarshal E TSubscriptionConfirmed p = Inr ev \<and> increment (RepoName ev) i (committed w) = Inr ((), committed w'))) w"
    unfolding scanner_HandleConfirmed_def watchlist_Confirmed_def IncrementSubscriber_def
    by (auto simp: wp_simps intro!: wp_sql_pool split: sum.splits)
  from wpD [OF this assms(2)] increment_counts [OF assms(1)] show ?thesis by fastforce
qed

lemma HandleRemoved_counts:
  fixes w :: "'a scan_db_scheme world"
  assumes "scan_wf (committed w)" and "run_state (scanner_HandleRemoved E p) w = (Inr (), w')"
  shows "\<exists>ev. Unmarshal E TSubscriptionRemoved p = Inr ev \<and>
    subscribers (committed w') =
      (subscribers (committed w))(RepoName ev := subscribers (committed w) (RepoName ev) - 1) \<and>
    seen_tag (committed w') = (seen_tag (committed w))
      (RepoName ev := (if subscribers (committed w) (RepoName ev) \<le> 1 then None
         else seen_tag (committed w) (RepoName ev)))"
proof -
  have "wp (scanner_HandleRemoved E p) (\<lambda>r w'. r = Inr () \<longrightarrow> (\<exists>ev i.
      Unmarshal E TSubscriptionRemoved p = Inr ev \<and> decrement (RepoName ev) i (committed w) = Inr ((), committed w'))) w"
    unfolding scanner_HandleRemoved_def watchlist_Removed_def DecrementSubscriber_def
    by (auto simp: wp_simps intro!: wp_sql_pool split: sum.splits)
  from wpD [OF this assms(2)] decrement_counts [OF assms(1)] show ?thesis by blast
qed

text \<open>
  \<^bold>\<open>C35.\<close> The watchlist counts subscribers (\<open>watchlist/projector.go\<close>): a handled
  \<open>subscriptions.confirmed\<close> adds one to the count of its repository, a handled
  \<open>subscriptions.removed\<close> subtracts one, down to zero, where the row and with it the last seen
  tag disappear; no other repository is affected, and no other tag.
\<close>

theorem watchlist_counts:
  fixes w :: "'a scan_db_scheme world"
  assumes "scan_wf (committed w)"
  shows "(run_state (scanner_HandleConfirmed E p) w = (Inr (), w') \<longrightarrow>
      (\<exists>ev. Unmarshal E TSubscriptionConfirmed p = Inr ev \<and> seen_tag (committed w') = seen_tag (committed w) \<and>
        subscribers (committed w') =
          (subscribers (committed w))(RepoName ev := subscribers (committed w) (RepoName ev) + 1))) \<and>
    (run_state (scanner_HandleRemoved E p) w = (Inr (), w') \<longrightarrow>
      (\<exists>ev. Unmarshal E TSubscriptionRemoved p = Inr ev \<and>
        subscribers (committed w') =
          (subscribers (committed w))(RepoName ev := subscribers (committed w) (RepoName ev) - 1) \<and>
        seen_tag (committed w') = (seen_tag (committed w))
          (RepoName ev := (if subscribers (committed w) (RepoName ev) \<le> 1 then None
             else seen_tag (committed w) (RepoName ev)))))"
  using HandleConfirmed_counts [OF assms] HandleRemoved_counts [OF assms] by blast

lemma demo_scan_decode:
  "Unmarshal (faulty_env fs) TSubscriptionConfirmed demo_watch_confirmed =
     Inr (SubscriptionConfirmed ''u1'' ''a@b'' ''a/b'' ''t'')"
  "Unmarshal (faulty_env fs) TReleaseNotified demo_notified = Inr (ReleaseNotified ''u1'' ''a/b'' ''v2'' 1 [])"
  by (simp_all add: demo_watch_confirmed_def demo_notified_def Unmarshal_def zero_struct_def field_index_def
      eventValidator_Struct_def valid_fields_def repoRegex_MatchString_def repo_char_def char_between_def in_int64_def)

lemmas scanner_run_simps =
  scanner_HandleConfirmed_def scanner_HandleReleaseNotified_def decode_event_def demo_scan_decode
  watchlist_Confirmed_def IncrementSubscriber_def increment_def advancetag_Execute_def AdvanceTag_def
  advance_tag_def sql_def run_pool_def demo_scan_db_def fresh_world_def bindE_def wrap_def liftE_def Let_def
  max_integer_def

theorem watchlist_counts_witness:
  "subscribers (committed (snd (run_state (scanner_HandleConfirmed (faulty_env []) demo_watch_confirmed)
     (fresh_world demo_scan_db)))) ''a/b'' = 2"
proof -
  have "run_state (scanner_HandleConfirmed (faulty_env []) demo_watch_confirmed) (fresh_world demo_scan_db) =
      (Inr (), snd (run_state (scanner_HandleConfirmed (faulty_env []) demo_watch_confirmed) (fresh_world demo_scan_db)))"
    by (simp add: scanner_run_simps)
  with watchlist_counts [of "fresh_world demo_scan_db" "faulty_env []" demo_watch_confirmed
      "snd (run_state (scanner_HandleConfirmed (faulty_env []) demo_watch_confirmed) (fresh_world demo_scan_db))"]
  show ?thesis
    using demo_scan_wf
    by (auto simp: demo_scan_decode subscribers_def watched_row_def demo_scan_db_def)
qed

text \<open>
  A \<open>releases.notified\<close> message advances the last seen tag exactly once
  (\<open>advancetag/advance_tag.go\<close>): over all its deliveries the table is unchanged or the tag of
  its repository is the notified one, never when nobody was notified; and after an
  acknowledged delivery with a positive count the tag is advanced.
\<close>

theorem release_notified_advances_once:
  fixes w :: "'a scan_db_scheme world"
  assumes "open_tx w = None" and "run_state (Consume E (scanner_HandleReleaseNotified E) p) w = (ds, w')"
  shows "(committed w' = committed w \<or> (\<exists>ev. Unmarshal E TReleaseNotified p = Inr ev \<and> 0 < SentCount ev \<and>
      committed w' = (committed w)\<lparr>watched := map (\<lambda>r. if wr_name r = RepoName ev
        then r\<lparr>wr_tag := Some (Tag ev)\<rparr> else r) (watched (committed w))\<rparr>)) \<and>
    (Ack \<in> set ds \<longrightarrow> (\<exists>ev. Unmarshal E TReleaseNotified p = Inr ev \<and> (0 < SentCount ev \<longrightarrow>
      (\<forall>r \<in> set (watched (committed w')). wr_name r = RepoName ev \<longrightarrow> wr_tag r = Some (Tag ev)))))"
  using wpD [OF release_notified.deliver_once [OF assms(1)] assms(2) [unfolded Consume_def]]
  unfolding notified_applied_def notified_settled_def tagged_def by blast

theorem release_notified_advances_once_witness:
  "\<exists>ev. Unmarshal (faulty_env [(2, Fails ''ack'')]) TReleaseNotified demo_notified = Inr ev \<and> (0 < SentCount ev \<longrightarrow>
     (\<forall>r \<in> set (watched (committed (snd (run_state (Consume (faulty_env [(2, Fails ''ack'')])
        (scanner_HandleReleaseNotified (faulty_env [(2, Fails ''ack'')])) demo_notified) (fresh_world demo_scan_db))))).
        wr_name r = RepoName ev \<longrightarrow> wr_tag r = Some (Tag ev)))"
proof -
  let ?E = "faulty_env [(2, Fails ''ack'')]"
  let ?run = "run_state (Consume ?E (scanner_HandleReleaseNotified ?E) demo_notified) (fresh_world demo_scan_db)"
  have "Ack \<in> set (fst ?run)"
    by (simp add: Consume_def maxDeliver_def numeral_eq_Suc dispatch_def acknowledge_def scanner_run_simps)
  then show ?thesis
    using release_notified_advances_once [of "fresh_world demo_scan_db" ?E demo_notified "fst ?run" "snd ?run"] by auto
qed

lemma filter_mset_perm: "mset xs = mset ys \<Longrightarrow> mset (filter p xs) = mset (filter p ys)"
  by simp

lemma changed_seen:
  "changed (watched_row d) obs \<longleftrightarrow> (\<exists>t. seen_tag d (fst obs) = Some t \<and> t \<noteq> TagName (snd obs))"
  by (simp add: changed_def seen_tag_def)

lemma seeded_rows:
  assumes "distinct (map fst os)"
  shows "watched_row (fold (\<lambda>obs. tagged (fst obs) (TagName (snd obs))) (filter (unseeded (watched_row d)) os) d) q =
    map_option (\<lambda>r. if wr_tag r = None then r\<lparr>wr_tag := map_option TagName (map_of os q)\<rparr> else r) (watched_row d q)"
proof (cases "watched_row d q")
  case (Some r)
  have "map_of (filter (unseeded (watched_row d)) os) q = (if wr_tag r = None then map_of os q else None)"
    by (rule map_of_filter_key [OF assms]) (simp add: unseeded_def Some)
  moreover have "distinct (map fst (filter (unseeded (watched_row d)) os))"
    using assms by (rule distinct_map_filter)
  ultimately show ?thesis
    using Some by (cases "map_of os q") (auto simp: watched_row_seeds)
qed (use assms in \<open>simp add: watched_row_seeds distinct_map_filter\<close>)

text \<open>
  \<^bold>\<open>C14.\<close> A scan without faults announces exactly the new releases (\<open>watch.go\<close> with
  \<open>scanner.go\<close>): when the fetch pass over the watched repositories, in whatever interleaving, ends
  uncancelled, then the use case publishes one \<open>releases.detected\<close> for every repository
  whose latest release differs from the last seen tag and nothing else, and it seeds the tag
  of exactly the repositories that had none and have a release; an announced repository keeps
  its old tag until the release is notified.
\<close>

theorem watch_announces_new_releases:
  fixes w :: "'a scan_db_scheme world"
  assumes "\<forall>n. env_fault E n = NoFault" and "scan_wf (committed w)"
    and "scan_reaches workers gh (scan_start (map wr_name (watched (committed w)))) s"
    and "scan_final s" and "\<not> cancelled s"
    and "\<forall>n. valid_uuid E (uuid_String E (env_uuid E n)) \<and> uuid_String E (env_uuid E n) \<noteq> []"
    and "\<forall>owner name rel. gh owner name = Inr rel \<longrightarrow>
           TagName rel \<noteq> [] \<and> HTMLURL rel \<noteq> [] \<and> valid_url E (HTMLURL rel)"
    and "run_state (watch_Run E (\<lambda>_. ok (observed s))) w = (r, w')"
  shows "(\<exists>ns new. mset new = mset (filter (\<lambda>obs. \<exists>t. seen_tag (committed w) (fst obs) = Some t \<and>
         t \<noteq> TagName (snd obs)) (answers gh (map wr_name (watched (committed w))))) \<and> length ns = length new \<and>
       trace w' = trace w @ map2 (\<lambda>n obs. Published SubjectReleaseDetected (Doc (encode (ReleaseDetected
         (uuid_String E (env_uuid E n)) (fst obs) (TagName (snd obs)) (HTMLURL (snd obs)))))) ns new) \<and>
    (\<forall>q. watched_row (committed w') q = map_option (\<lambda>row.
       if wr_tag row = None then row\<lparr>wr_tag := map_option TagName (map_of (answers gh (map wr_name (watched (committed w)))) q)\<rparr> else row)
       (watched_row (committed w) q))"
proof -
  let ?names = "map wr_name (watched (committed w))"
  have perm: "mset (observed s) = mset (answers gh ?names)"
    using scan_reaches_inv [OF assms(3)] assms(4,5) by (simp add: scan_inv_def scan_final_def outstanding_def)
  then have sets: "set (observed s) = set (answers gh ?names)" by (rule mset_eq_setD)
  have keys: "distinct (map fst (answers gh ?names))"
    using assms(2) by (intro distinct_answers) (simp add: scan_wf_def)
  then have keys': "distinct (map fst (observed s))" using perm by (metis mset_eq_imp_distinct_iff mset_map)
  have pub: "\<forall>obs \<in> set (observed s). publishable E obs"
    using answers_publishable [OF assms(6,7)] sets by blast
  have "watched (committed w) = [] \<Longrightarrow> observed s = []" using perm by simp
  from wpD [OF watch_Run_calm [OF assms(1,2) this pub] assms(8)]
  have post: "passed E (filter (changed (watched_row (committed w))) (observed s))
      (filter (unseeded (watched_row (committed w))) (observed s)) w w'" .
  then obtain ns where ns: "length ns = length (filter (changed (watched_row (committed w))) (observed s))"
    "trace w' = trace w @ map2 (announcement E) ns (filter (changed (watched_row (committed w))) (observed s))"
    by (auto simp: passed_def)
  have same: "map_of (observed s) = map_of (answers gh ?names)"
    by (rule map_of_mset_eq [OF perm keys'])
  have "mset (filter (changed (watched_row (committed w))) (observed s)) =
      mset (filter (changed (watched_row (committed w))) (answers gh ?names))"
    using perm by simp
  then have "\<exists>ns new. mset new = mset (filter (changed (watched_row (committed w))) (answers gh ?names)) \<and>
      length ns = length new \<and> trace w' = trace w @ map2 (announcement E) ns new"
    using ns by blast
  then show ?thesis
    using post seeded_rows [OF keys']
    unfolding passed_def changed_seen [abs_def] announcement_def [abs_def] same by auto
qed

theorem watch_announces_new_releases_witness:
  "\<exists>n. trace (snd (run_state (watch_Run calm_env (\<lambda>_. ok [(''a/b'', \<lparr>TagName = ''v2'', HTMLURL = ''u''\<rparr>)]))
      (fresh_world demo_scan_db))) =
    [Published SubjectReleaseDetected (Doc (encode (ReleaseDetected
       (uuid_String calm_env (env_uuid calm_env n)) ''a/b'' ''v2'' ''u'')))]"
proof -
  let ?s = "\<lparr>todo = [], handed = None, running = [], observed = [(''a/b'', \<lparr>TagName = ''v2'', HTMLURL = ''u''\<rparr>)],
      cancelled = False\<rparr>"
  let ?run = "run_state (watch_Run calm_env (\<lambda>_. ok (observed ?s))) (fresh_world demo_scan_db)"
  have names: "map wr_name (watched (committed (fresh_world demo_scan_db))) = [''a/b'']"
    by (simp add: demo_scan_db_def)
  have ans: "answers demo_github [''a/b''] = [(''a/b'', \<lparr>TagName = ''v2'', HTMLURL = ''u''\<rparr>)]"
    by code_simp
  have seen: "seen_tag demo_scan_db ''a/b'' = Some ''v1''"
    by (simp add: seen_tag_def watched_row_def demo_scan_db_def)
  have "\<exists>ns new. mset new = mset [(''a/b'', \<lparr>TagName = ''v2'', HTMLURL = ''u''\<rparr>)] \<and> length ns = length new \<and>
      trace (snd ?run) = [] @ map2 (\<lambda>n obs. Published SubjectReleaseDetected (Doc (encode (ReleaseDetected
         (uuid_String calm_env (env_uuid calm_env n)) (fst obs) (TagName (snd obs)) (HTMLURL (snd obs)))))) ns new"
    using watch_announces_new_releases [of calm_env "fresh_world demo_scan_db" 1 demo_github ?s "fst ?run" "snd ?run"]
      demo_pass demo_scan_wf
    unfolding names ans
    by (simp add: scan_final_def seen demo_github_def)
  then obtain ns new where new: "mset new = mset [(''a/b'', \<lparr>TagName = ''v2'', HTMLURL = ''u''\<rparr>)]" "length ns = length new"
    and tr: "trace (snd ?run) = [] @ map2 (\<lambda>n obs. Published SubjectReleaseDetected (Doc (encode (ReleaseDetected
         (uuid_String calm_env (env_uuid calm_env n)) (fst obs) (TagName (snd obs)) (HTMLURL (snd obs)))))) ns new"
    by blast
  from new(1) have "new = [(''a/b'', \<lparr>TagName = ''v2'', HTMLURL = ''u''\<rparr>)]" by simp
  with new(2) obtain n where "ns = [n]" by (cases ns) auto
  with tr \<open>new = _\<close> show ?thesis by (intro exI [where x = n]) simp
qed

text \<open>
  The watchlist is not protected against redelivery: when the acknowledgement of a
  \<open>subscriptions.confirmed\<close> message is lost, its second delivery counts the same subscription
  again.
\<close>

theorem watchlist_redelivery_counts_twice:
  "let E = faulty_env [(2, Fails ''timeout'')];
       (ds, w') = run_state (Consume E (scanner_HandleConfirmed E) demo_watch_confirmed) (fresh_world demo_scan_db)
   in ds = [Ack, Ack] \<and> subscribers demo_scan_db ''a/b'' = 1 \<and> subscribers (committed w') ''a/b'' = 3"
  by (simp add: Consume_def maxDeliver_def numeral_eq_Suc dispatch_def acknowledge_def scanner_run_simps
      subscribers_def watched_row_def)

end
