(* ===== verification/Mailer.thy ===== *)
theory Mailer
  imports Publishing
begin

text \<open>
  The mailer of the notifier (\<open>internal/notifier/adapter/mailer\<close>): the two HTML templates with
  the contextual escaping of \<open>html/template\<close>, the construction of messages, and the delivery of
  batches over SMTP with one result per message. The address checks of go-mail are arguments;
  a call sends its batch
  as soon as it is queued, which is what callers see of the job channel and its worker (theory \<open>Mail_Queue\<close>).
\<close>

section \<open>Templates\<close>

text \<open>
  A parsed template: literal text, and actions in an HTML text context or in a quoted \<open>href\<close>
  attribute.
\<close>

datatype tpart = Lit string | Text string | Href string

abbreviation nl :: string where "nl \<equiv> [CHR 0x0A]"

abbreviation dq :: string where "dq \<equiv> [CHR 0x22]"

definition confirmationTemplate :: "tpart list" where
  "confirmationTemplate =
     [Lit (''<!DOCTYPE html>'' @ nl @ ''<html>'' @ nl @ ''<body>'' @ nl @
        ''    <h2>Confirm your subscription</h2>'' @ nl @
        ''    <p>You requested to subscribe to new releases of <strong>''), Text ''Repo'',
      Lit (''</strong>.</p>'' @ nl @ ''    <p>Click <a href='' @ dq), Href ''ConfirmURL'',
      Lit (dq @ ''>here</a> to confirm your subscription.</p>'' @ nl @
        ''    <p>If you did not request this, please ignore this email.</p>'' @ nl @
        ''</body>'' @ nl @ ''</html>'')]"

definition releaseTemplate :: "tpart list" where
  "releaseTemplate =
     [Lit (''<!DOCTYPE html>'' @ nl @ ''<html>'' @ nl @ ''<body>'' @ nl @ ''    <h2>New release for ''),
      Text ''Repo'', Lit (''</h2>'' @ nl @ ''    <p>A new release <strong>''), Text ''Tag'',
      Lit (''</strong> is available.</p>'' @ nl @ ''    <p><a href='' @ dq), Href ''ReleaseURL'',
      Lit (dq @ ''>View</a> release on GitHub</p>'' @ nl @ ''    <br>'' @ nl @ ''    <p><small><a href='' @ dq),
      Href ''UnsubscribeURL'',
      Lit (dq @ ''>Unsubscribe</a></small></p>'' @ nl @ ''</body>'' @ nl @ ''</html>'')]"

text \<open>The replacement table of \<open>htmlReplacer\<close>; NUL becomes the UTF-8 bytes of U+FFFD.\<close>

definition html_char :: "char \<Rightarrow> string" where
  "html_char c =
     (if c = CHR 0x00 then [CHR 0xEF, CHR 0xBF, CHR 0xBD]
      else if c = CHR 0x22 then ''&#34;''
      else if c = CHR ''&'' then ''&amp;''
      else if c = CHR 0x27 then ''&#39;''
      else if c = CHR ''+'' then ''&#43;''
      else if c = CHR ''<'' then ''&lt;''
      else if c = CHR ''>'' then ''&gt;''
      else [c])"

definition html_escape :: "string \<Rightarrow> string" where
  "html_escape s = concat (map html_char s)"

text \<open>\<open>isSafeURL\<close>: no scheme, or one of three, compared without case (\<open>strings.EqualFold\<close>).\<close>

definition isSafeURL :: "string \<Rightarrow> bool" where
  "isSafeURL s =
     (let protocol = takeWhile (\<lambda>c. c \<noteq> CHR '':'') s in
      if CHR '':'' \<in> set s \<and> CHR ''/'' \<notin> set protocol
      then foldName protocol \<in> {''HTTP'', ''HTTPS'', ''MAILTO''}
      else True)"

definition alnum :: "char \<Rightarrow> bool" where
  "alnum c \<longleftrightarrow> char_between CHR ''a'' CHR ''z'' c \<or> char_between CHR ''A'' CHR ''Z'' c \<or>
     char_between CHR ''0'' CHR ''9'' c"

definition is_hex :: "char \<Rightarrow> bool" where
  "is_hex c \<longleftrightarrow> char_between CHR ''0'' CHR ''9'' c \<or> char_between CHR ''a'' CHR ''f'' c \<or>
     char_between CHR ''A'' CHR ''F'' c"

definition pct_digit :: "nat \<Rightarrow> char" where
  "pct_digit n = (if n < 10 then char_of (48 + n) else char_of (87 + n))"

definition pct :: "char \<Rightarrow> string" where
  "pct c = [CHR ''%'', pct_digit (of_char c div 16), pct_digit (of_char c mod 16)]"

fun normalize_url :: "string \<Rightarrow> string" where
  "normalize_url [] = []"
| "normalize_url (c # cs) =
     (if alnum c \<or> c \<in> set ''!#$&*+,/:;=?@[]-._~'' then [c]
      else if c = CHR ''%'' \<and> 2 \<le> length cs \<and> is_hex (cs ! 0) \<and> is_hex (cs ! 1) then [c]
      else pct c) @ normalize_url cs"

text \<open>The pipeline of a quoted URL attribute: filter, normalizer, attribute escaper.\<close>

definition href_escape :: "string \<Rightarrow> string" where
  "href_escape s = html_escape (normalize_url (if isSafeURL s then s else ''#ZgotmplZ''))"

definition field :: "(string \<times> string) list \<Rightarrow> string \<Rightarrow> string" where
  "field data k = (case map_of data k of None \<Rightarrow> '''' | Some v \<Rightarrow> v)"

primrec render_part :: "(string \<times> string) list \<Rightarrow> tpart \<Rightarrow> string" where
  "render_part data (Lit s) = s"
| "render_part data (Text k) = html_escape (field data k)"
| "render_part data (Href k) = href_escape (field data k)"

text \<open>\<open>renderTemplate\<close>: executing a template over strings into a buffer does not fail.\<close>

definition renderTemplate :: "tpart list \<Rightarrow> (string \<times> string) list \<Rightarrow> error + string" where
  "renderTemplate tmpl data = Inr (concat (map (render_part data) tmpl))"

section \<open>Messages\<close>

record mail_msg =
  msg_To :: string
  msg_Subject :: string
  msg_Body :: string

text \<open>The mailer: its sender address, and go-mail's verdict on addresses (an error text).\<close>

record mailer =
  fromEmail :: string
  From_error :: "string \<Rightarrow> string option"
  To_error :: "string \<Rightarrow> string option"

definition buildMessage :: "mailer \<Rightarrow> string \<Rightarrow> string \<Rightarrow> string \<Rightarrow> error + mail_msg" where
  "buildMessage M to subject body =
     (case From_error M (fromEmail M) of
        Some m \<Rightarrow> Inl (Errorf ''set from'' (External m))
      | None \<Rightarrow> (case To_error M to of
          Some m \<Rightarrow> Inl (Errorf ''set to'' (External m))
        | None \<Rightarrow> Inr \<lparr>msg_To = to, msg_Subject = subject, msg_Body = body\<rparr>))"

record ReleaseNotification =
  To :: string
  Repo :: string
  RelTag :: string
  RelURL :: string
  UnsubscribeURL :: string

record BatchResult =
  Sent :: nat
  Failed :: "string list"

definition buildReleaseMessage :: "mailer \<Rightarrow> ReleaseNotification \<Rightarrow> error + mail_msg" where
  "buildReleaseMessage M n =
     (case renderTemplate releaseTemplate [(''Repo'', Repo n), (''Tag'', RelTag n),
        (''ReleaseURL'', RelURL n), (''UnsubscribeURL'', UnsubscribeURL n)] of
        Inl e \<Rightarrow> Inl (Errorf ''render release email'' e)
      | Inr body \<Rightarrow> buildMessage M (To n) (''New release '' @ RelTag n @ '' for '' @ Repo n) body)"

definition buildConfirmation :: "mailer \<Rightarrow> string \<Rightarrow> string \<Rightarrow> string \<Rightarrow> error + mail_msg" where
  "buildConfirmation M to repo confirmURL =
     (case renderTemplate confirmationTemplate [(''Repo'', repo), (''ConfirmURL'', confirmURL)] of
        Inl e \<Rightarrow> Inl (Errorf ''render confirmation email'' e)
      | Inr body \<Rightarrow> (case buildMessage M to (''Confirm your subscription to '' @ repo) body of
          Inl e \<Rightarrow> Inl (Errorf ''build confirmation email'' e)
        | Inr msg \<Rightarrow> Inr msg))"

section \<open>Delivery\<close>

text \<open>
  One message over the open connection: it may reach the server although an error comes back.
\<close>

definition smtp_Send :: "env \<Rightarrow> mail_msg \<Rightarrow> ('db world, error option) state" where
  "smtp_Send E m = State (\<lambda>w.
     let n = ncalls w; w1 = w\<lparr>ncalls := Suc n\<rparr>;
         sent = w1\<lparr>trace := trace w @ [Mailed (msg_To m) (msg_Subject m) (msg_Body m)]\<rparr>
     in case env_fault E n of
          NoFault \<Rightarrow> (None, sent)
        | Fails t \<Rightarrow> (Some (Errorf ''send email'' (External t)), w1)
        | Lost t \<Rightarrow> (Some (Errorf ''send email'' (External t)), sent))"

definition smtp_Dial :: "env \<Rightarrow> ('db world, error option) state" where
  "smtp_Dial E = State (\<lambda>w.
     ((case env_fault E (ncalls w) of NoFault \<Rightarrow> None
       | Fails t \<Rightarrow> Some (External t) | Lost t \<Rightarrow> Some (External t)), w\<lparr>ncalls := Suc (ncalls w)\<rparr>))"

primrec send_each :: "env \<Rightarrow> mail_msg list \<Rightarrow> ('db world, error option list) state" where
  "send_each E [] = State_Monad.return []"
| "send_each E (m # ms) = do {
     e \<leftarrow> smtp_Send E m;
     es \<leftarrow> send_each E ms;
     State_Monad.return (e # es)
   }"

definition sendBatch :: "env \<Rightarrow> mail_msg list \<Rightarrow> ('db world, error option list) state" where
  "sendBatch E messages = do {
     d \<leftarrow> smtp_Dial E;
     case d of
       Some e \<Rightarrow> State_Monad.return (replicate (length messages) (Some (Errorf ''dial SMTP'' e)))
     | None \<Rightarrow> send_each E messages
   }"

text \<open>
  A \<open>select\<close> between the mailer's channel and \<open>ctx.Done()\<close>: a fault stands for the context being
  done first.
\<close>

definition select_done :: "env \<Rightarrow> ('db world, bool) state" where
  "select_done E = State (\<lambda>w. (env_fault E (ncalls w) \<noteq> NoFault, w\<lparr>ncalls := Suc (ncalls w)\<rparr>))"

definition DeliverConfirmation ::
  "env \<Rightarrow> mailer \<Rightarrow> string \<Rightarrow> string \<Rightarrow> string \<Rightarrow> ('db world, error + unit) state" where
  "DeliverConfirmation E M to repo confirmURL =
     bindE (liftE (buildConfirmation M to repo confirmURL)) (\<lambda>msg. do {
       gone \<leftarrow> select_done E;
       if gone then err (Errorf ''queue confirmation email'' (Sentinel Canceled))
       else do {
         errs \<leftarrow> sendBatch E [msg];
         gone \<leftarrow> select_done E;
         if gone then err (Errorf ''await confirmation email result'' (Sentinel Canceled))
         else case errs of
           Some e # _ \<Rightarrow> err (Errorf ''send confirmation email'' e)
         | _ \<Rightarrow> ok ()
       }
     })"

text \<open>The messages that could be built, with their recipients, and the recipients of the others.\<close>

primrec build_all :: "mailer \<Rightarrow> ReleaseNotification list \<Rightarrow> mail_msg list \<times> string list \<times> string list" where
  "build_all M [] = ([], [], [])"
| "build_all M (n # ns) =
     (case build_all M ns of (messages, recipients, failed) \<Rightarrow>
        (case buildReleaseMessage M n of
           Inl e \<Rightarrow> (messages, recipients, To n # failed)
         | Inr msg \<Rightarrow> (msg # messages, To n # recipients, failed)))"

definition SendReleaseNotifications ::
  "env \<Rightarrow> mailer \<Rightarrow> ReleaseNotification list \<Rightarrow> ('db world, BatchResult) state" where
  "SendReleaseNotifications E M notifications =
     (case build_all M notifications of (messages, recipients, failed) \<Rightarrow>
        if messages = [] then State_Monad.return \<lparr>Sent = 0, Failed = failed\<rparr>
        else do {
          gone \<leftarrow> select_done E;
          if gone then State_Monad.return \<lparr>Sent = 0, Failed = failed @ recipients\<rparr>
          else do {
            errs \<leftarrow> sendBatch E messages;
            gone \<leftarrow> select_done E;
            State_Monad.return (if gone then \<lparr>Sent = 0, Failed = failed @ recipients\<rparr>
              else \<lparr>Sent = length (filter (\<lambda>e. e = None) errs),
                    Failed = failed @ map fst (filter (\<lambda>(r, e). e \<noteq> None) (zip recipients errs))\<rparr>)
          }
        })"

section \<open>Injection\<close>

definition markup :: "char \<Rightarrow> bool" where
  "markup c \<longleftrightarrow> c = CHR ''<'' \<or> c = CHR ''>'' \<or> c = CHR 0x22 \<or> c = CHR 0x27"

lemma html_escape_markup: "filter markup (html_escape s) = []"
  by (induction s) (auto simp: html_escape_def html_char_def markup_def)

lemma render_part_markup: "filter markup (render_part data p) = filter markup (render_part data' p)"
  by (cases p) (simp_all add: href_escape_def html_escape_markup)

lemma render_markup:
  "filter markup (concat (map (render_part data) ps)) = filter markup (concat (map (render_part data') ps))"
  by (induction ps) (use render_part_markup [of data _ data'] in auto)

section \<open>Accounting\<close>

abbreviation mailed :: "mail_msg \<Rightarrow> effect" where
  "mailed m \<equiv> Mailed (msg_To m) (msg_Subject m) (msg_Body m)"

text \<open>A delivery changes nothing but the trace, by mails, and the number of calls.\<close>

definition mails_only :: "effect list \<Rightarrow> 'db world \<Rightarrow> 'db world \<Rightarrow> bool" where
  "mails_only mails w w' \<longleftrightarrow> (\<exists>n \<ge> ncalls w. w' = w\<lparr>ncalls := n, trace := trace w @ mails\<rparr>)"

lemma mails_only_refl: "mails_only [] w w" "ncalls w \<le> n \<Longrightarrow> mails_only [] w (w\<lparr>ncalls := n\<rparr>)"
  unfolding mails_only_def by (rule exI [where x = "ncalls w"], simp, rule exI [where x = n], simp)

lemma mails_only_trans: "mails_only a w w1 \<Longrightarrow> mails_only b w1 w2 \<Longrightarrow> mails_only (a @ b) w w2"
  unfolding mails_only_def by clarsimp (metis order_trans)

lemma mails_only_call: "mails_only a w w1 \<Longrightarrow> mails_only a w (w1\<lparr>ncalls := Suc (ncalls w1)\<rparr>)"
  using mails_only_trans [of a w w1 "[]" "w1\<lparr>ncalls := Suc (ncalls w1)\<rparr>"] mails_only_refl(2) [of w1 "Suc (ncalls w1)"]
  by simp

lemma mails_only_fields:
  "mails_only a w w' \<Longrightarrow> committed w' = committed w \<and> open_tx w' = open_tx w \<and> nudge w' = nudge w \<and>
     trace w' = trace w @ a \<and> ncalls w \<le> ncalls w'"
  by (auto simp: mails_only_def)

definition batch_sent :: "mail_msg list \<Rightarrow> error option list \<Rightarrow> effect list \<Rightarrow> bool" where
  "batch_sent ms errs mails \<longleftrightarrow> length errs = length ms \<and> set mails \<subseteq> mailed ` set ms \<and>
     (\<forall>m. (m, None) \<in> set (zip ms errs) \<longrightarrow> mailed m \<in> set mails)"

lemma wp_smtp_Send:
  "wp (smtp_Send E m) (\<lambda>e w'. \<exists>mails. mails_only mails w w' \<and> batch_sent [m] [e] mails) w"
proof -
  have "mails_only [] w (w\<lparr>ncalls := Suc (ncalls w)\<rparr>)" by (rule mails_only_refl) simp
  moreover have "mails_only [mailed m] w (w\<lparr>ncalls := Suc (ncalls w), trace := trace w @ [mailed m]\<rparr>)"
    unfolding mails_only_def by (rule exI [where x = "Suc (ncalls w)"]) simp
  ultimately show ?thesis
    by (auto simp: smtp_Send_def wp_simps Let_def batch_sent_def split: fault.splits)
qed

lemma batch_sent_Cons:
  "batch_sent [m] [e] a \<Longrightarrow> batch_sent ms es b \<Longrightarrow> batch_sent (m # ms) (e # es) (a @ b)"
  by (auto simp: batch_sent_def)

lemma wp_send_each:
  "wp (send_each E ms) (\<lambda>errs w'. \<exists>mails. mails_only mails w w' \<and> batch_sent ms errs mails) w"
proof (induction ms arbitrary: w)
  case Nil
  have "mails_only [] w w" by (rule mails_only_refl)
  then show ?case by (auto simp: wp_simps batch_sent_def intro!: exI [where x = "[]"])
next
  case (Cons m ms)
  have "wp (send_each E ms) (\<lambda>es w'. \<exists>mails. mails_only mails w w' \<and> batch_sent (m # ms) (e # es) mails) w1"
    if "mails_only a w w1" "batch_sent [m] [e] a" for e a w1
    by (rule wp_mono [OF Cons.IH]) (use that in \<open>blast intro: mails_only_trans batch_sent_Cons\<close>)
  then show ?case
    by (auto simp: wp_simps intro!: wp_mono [OF wp_smtp_Send])
qed

lemma wp_sendBatch:
  "wp (sendBatch E ms) (\<lambda>errs w'. \<exists>mails. mails_only mails w w' \<and> batch_sent ms errs mails) w"
proof -
  have dial: "mails_only [] w (w\<lparr>ncalls := Suc (ncalls w)\<rparr>)" by (rule mails_only_refl) simp
  have "wp (send_each E ms) (\<lambda>errs w'. \<exists>mails. mails_only mails w w' \<and> batch_sent ms errs mails)
      (w\<lparr>ncalls := Suc (ncalls w)\<rparr>)"
    by (rule wp_mono [OF wp_send_each]) (use mails_only_trans [OF dial] in fastforce)
  moreover have "\<exists>mails. mails_only mails w (w\<lparr>ncalls := Suc (ncalls w)\<rparr>) \<and>
      batch_sent ms (replicate (length ms) (Some e)) mails" for e
    using dial by (auto simp: batch_sent_def in_set_zip intro!: exI [where x = "[]"])
  ultimately show ?thesis
    by (auto simp: sendBatch_def smtp_Dial_def wp_simps split: fault.splits)
qed

lemma buildReleaseMessage_To: "buildReleaseMessage M n = Inr msg \<Longrightarrow> msg_To msg = To n"
  by (auto simp: buildReleaseMessage_def renderTemplate_def buildMessage_def split: option.splits)

lemma build_all_props:
  "build_all M ns = (ms, rs, fs) \<Longrightarrow> rs = map msg_To ms \<and> length ms + length fs = length ns \<and>
     set rs \<subseteq> To ` set ns \<and> set fs \<subseteq> To ` set ns \<and>
     (\<forall>n \<in> set ns. To n \<in> set fs \<or> (\<exists>m \<in> set ms. buildReleaseMessage M n = Inr m))"
proof (induction ns arbitrary: ms rs fs)
  case (Cons n ns)
  obtain ms' rs' fs' where *: "build_all M ns = (ms', rs', fs')" by (cases "build_all M ns")
  from Cons.IH [OF *] Cons.prems * show ?case
    by (auto simp: buildReleaseMessage_To split: sum.splits) blast+
qed auto

text \<open>What a result says: every notification is either among the failed or was mailed.\<close>

definition batch_result :: "mailer \<Rightarrow> ReleaseNotification list \<Rightarrow> BatchResult \<Rightarrow> effect list \<Rightarrow> bool" where
  "batch_result M ns r mails \<longleftrightarrow> Sent r + length (Failed r) = length ns \<and> set (Failed r) \<subseteq> To ` set ns \<and>
     (\<forall>n \<in> set ns. To n \<notin> set (Failed r) \<longrightarrow>
        (\<exists>m. buildReleaseMessage M n = Inr m \<and> mailed m \<in> set mails))"

lemma sent_failed_length:
  "length errs = length rs \<Longrightarrow>
   length (filter (\<lambda>e. e = None) errs) + length (filter (\<lambda>(r, e). e \<noteq> None) (zip rs errs)) = length rs"
  by (induction errs rs rule: list_induct2) auto

lemma not_failed_sent:
  assumes "length errs = length ms" and "m \<in> set ms"
    and "msg_To m \<notin> set (map fst (filter (\<lambda>(r, e). e \<noteq> None) (zip (map msg_To ms) errs)))"
  shows "(m, None) \<in> set (zip ms errs)"
  using assms by (induction errs ms rule: list_induct2) (auto split: if_splits)

lemma build_all_recipients:
  assumes "build_all M ns = (ms, rs, fs)" and "n \<in> set ns"
  shows "To n \<in> set fs \<or> (\<exists>m \<in> set ms. buildReleaseMessage M n = Inr m \<and> msg_To m = To n)"
  using build_all_props [OF assms(1)] assms(2) buildReleaseMessage_To [of M n] by blast

lemma batch_result_none:
  assumes b: "build_all M ns = (ms, rs, fs)"
  shows "batch_result M ns \<lparr>Sent = 0, Failed = fs @ rs\<rparr> mails"
proof -
  have rs: "rs = map msg_To ms" and "length ms + length fs = length ns" "set rs \<subseteq> To ` set ns" "set fs \<subseteq> To ` set ns"
    using build_all_props [OF b] by blast+
  moreover have "To n \<in> set (fs @ rs)" if "n \<in> set ns" for n
    using build_all_recipients [OF b that] unfolding rs by force
  ultimately show ?thesis by (simp add: batch_result_def)
qed

lemma batch_result_empty:
  "build_all M ns = ([], rs, fs) \<Longrightarrow> batch_result M ns \<lparr>Sent = 0, Failed = fs\<rparr> mails"
  using batch_result_none [of M ns "[]" rs fs] build_all_props [of M ns "[]" rs fs] by simp

lemma batch_result_some:
  assumes b: "build_all M ns = (ms, rs, fs)" and s: "batch_sent ms errs mails"
  shows "batch_result M ns \<lparr>Sent = length (filter (\<lambda>e. e = None) errs),
    Failed = fs @ map fst (filter (\<lambda>(r, e). e \<noteq> None) (zip rs errs))\<rparr> mails"
proof -
  let ?fs = "map fst (filter (\<lambda>(r, e). e \<noteq> None) (zip rs errs))"
  have rs: "rs = map msg_To ms" and n: "length ms + length fs = length ns"
    and sub: "set rs \<subseteq> To ` set ns" "set fs \<subseteq> To ` set ns"
    using build_all_props [OF b] by blast+
  have len: "length errs = length ms" using s by (simp add: batch_sent_def)
  have sent: "mailed m \<in> set mails" if "m \<in> set ms" "msg_To m \<notin> set ?fs" for m
    using not_failed_sent [OF len that(1)] that(2) s unfolding rs batch_sent_def by blast
  have "\<exists>m. buildReleaseMessage M n = Inr m \<and> mailed m \<in> set mails"
    if "n \<in> set ns" "To n \<notin> set (fs @ ?fs)" for n
  proof -
    from that have "To n \<notin> set fs" "To n \<notin> set ?fs" by (auto simp only: set_append Un_iff)
    with build_all_recipients [OF b that(1)] obtain m
      where "m \<in> set ms" "buildReleaseMessage M n = Inr m" "msg_To m = To n" by blast
    with sent [of m] \<open>To n \<notin> set ?fs\<close> show ?thesis by metis
  qed
  moreover have "set ?fs \<subseteq> set rs" by (auto dest: set_zip_leftD)
  then have "set (fs @ ?fs) \<subseteq> To ` set ns" using sub by (simp only: set_append) blast
  moreover have "length (filter (\<lambda>e. e = None) errs) + length (fs @ ?fs) = length ns"
    using n sent_failed_length [of errs rs] len unfolding rs by simp
  ultimately show ?thesis
    unfolding batch_result_def BatchResult.simps by blast
qed

lemma wp_select_done [wp_simps]:
  "wp (select_done E) Q = (\<lambda>w. Q (env_fault E (ncalls w) \<noteq> NoFault) (w\<lparr>ncalls := Suc (ncalls w)\<rparr>))"
  by (simp add: select_done_def wp_simps)

lemma wp_SendReleaseNotifications:
  fixes w :: "'db world"
  shows "wp (SendReleaseNotifications E M ns)
    (\<lambda>r w'. \<exists>mails. mails_only mails w w' \<and> batch_result M ns r mails) w"
proof -
  obtain ms rs fs where b: "build_all M ns = (ms, rs, fs)" by (cases "build_all M ns")
  let ?Q = "\<lambda>r w'. \<exists>mails. mails_only mails w w' \<and> batch_result M ns r mails"
  let ?w1 = "w\<lparr>ncalls := Suc (ncalls w)\<rparr>"
  have first: "mails_only [] w ?w1" by (rule mails_only_refl) simp
  have end1: "?Q \<lparr>Sent = 0, Failed = fs @ rs\<rparr> ?w1"
    using first batch_result_none [OF b] by blast
  have "ms = [] \<Longrightarrow> ?Q \<lparr>Sent = 0, Failed = fs\<rparr> w"
    using mails_only_refl(1) [of w] batch_result_empty b by blast
  moreover have "wp (sendBatch E ms) (\<lambda>errs w2.
      ?Q \<lparr>Sent = 0, Failed = fs @ rs\<rparr> (w2\<lparr>ncalls := Suc (ncalls w2)\<rparr>) \<and>
      ?Q \<lparr>Sent = length (filter (\<lambda>e. e = None) errs),
          Failed = fs @ map fst (filter (\<lambda>(r, e). e \<noteq> None) (zip rs errs))\<rparr> (w2\<lparr>ncalls := Suc (ncalls w2)\<rparr>)) ?w1"
  proof (rule wp_mono [OF wp_sendBatch], elim exE conjE)
    fix errs w2 mails
    assume "mails_only mails ?w1 w2" and sent: "batch_sent ms errs mails"
    then have "mails_only mails w (w2\<lparr>ncalls := Suc (ncalls w2)\<rparr>)"
      using mails_only_call [OF mails_only_trans [OF first]] by simp
    then show "?Q \<lparr>Sent = 0, Failed = fs @ rs\<rparr> (w2\<lparr>ncalls := Suc (ncalls w2)\<rparr>) \<and>
        ?Q \<lparr>Sent = length (filter (\<lambda>e. e = None) errs),
          Failed = fs @ map fst (filter (\<lambda>(r, e). e \<noteq> None) (zip rs errs))\<rparr> (w2\<lparr>ncalls := Suc (ncalls w2)\<rparr>)"
      using batch_result_none [OF b] batch_result_some [OF b sent] by blast
  qed
  ultimately show ?thesis
    unfolding SendReleaseNotifications_def b prod.case
    using end1 by (simp add: wp_simps) (auto elim!: wp_mono)
qed

lemma wp_DeliverConfirmation:
  fixes w :: "'db world"
  assumes "\<And>e mails w'. mails_only mails w w' \<Longrightarrow> Q (Inl e) w'"
    and "\<And>msg mails w'. buildConfirmation M to repo url = Inr msg \<Longrightarrow> mails_only mails w w' \<Longrightarrow>
      mailed msg \<in> set mails \<Longrightarrow> Q (Inr ()) w'"
  shows "wp (DeliverConfirmation E M to repo url) Q w"
proof (cases "buildConfirmation M to repo url")
  case (Inl e)
  with assms(1) [OF mails_only_refl(1)] show ?thesis by (simp add: DeliverConfirmation_def wp_simps)
next
  case (Inr msg)
  let ?w1 = "w\<lparr>ncalls := Suc (ncalls w)\<rparr>"
  have first: "mails_only [] w ?w1" by (rule mails_only_refl) simp
  have "wp (sendBatch E [msg]) (\<lambda>errs w2. length errs = 1 \<and>
      (\<forall>e. Q (Inl e) (w2\<lparr>ncalls := Suc (ncalls w2)\<rparr>)) \<and>
      (errs = [None] \<longrightarrow> Q (Inr ()) (w2\<lparr>ncalls := Suc (ncalls w2)\<rparr>))) ?w1"
  proof (rule wp_mono [OF wp_sendBatch], elim exE conjE)
    fix errs w2 mails
    assume "mails_only mails ?w1 w2" and sent: "batch_sent [msg] errs mails"
    then have "mails_only mails w (w2\<lparr>ncalls := Suc (ncalls w2)\<rparr>)"
      using mails_only_call [OF mails_only_trans [OF first]] by simp
    with sent show "length errs = 1 \<and> (\<forall>e. Q (Inl e) (w2\<lparr>ncalls := Suc (ncalls w2)\<rparr>)) \<and>
        (errs = [None] \<longrightarrow> Q (Inr ()) (w2\<lparr>ncalls := Suc (ncalls w2)\<rparr>))"
      using assms(1) assms(2) [OF Inr] by (auto simp: batch_sent_def)
  qed
  then show ?thesis
    using Inr assms(1) [OF first]
    by (auto simp: DeliverConfirmation_def wp_simps length_Suc_conv split: list.splits option.splits elim!: wp_mono)
qed

section \<open>The properties of the mailer\<close>



text \<open>
  \<^bold>\<open>C31.\<close> \<open>SendReleaseNotifications\<close> accounts for every notification, whatever fails: the number
  sent and the list of failed recipients add up to the batch, a recipient that is not
  reported as failed was handed its mail by the SMTP server, with the subject and body built for
  it, and the database is not touched.
\<close>

theorem release_batch_accounted:
  fixes w :: "'db world"
  assumes "run_state (SendReleaseNotifications E M ns) w = (r, w')"
  shows "Sent r + length (Failed r) = length ns \<and> set (Failed r) \<subseteq> To ` set ns \<and>
    committed w' = committed w \<and> open_tx w' = open_tx w \<and>
    (\<exists>mails. trace w' = trace w @ mails \<and> (\<forall>n \<in> set ns. To n \<notin> set (Failed r) \<longrightarrow>
      (\<exists>m. buildReleaseMessage M n = Inr m \<and> Mailed (msg_To m) (msg_Subject m) (msg_Body m) \<in> set mails)))"
  using wpD [OF wp_SendReleaseNotifications assms] mails_only_fields [of _ w w']
  by (auto simp: batch_result_def)

definition demo_mailer :: mailer where
  "demo_mailer = \<lparr>fromEmail = ''f@x'', From_error = (\<lambda>_. None), To_error = (\<lambda>s. if s = [] then Some ''empty'' else None)\<rparr>"

definition demo_batch :: "ReleaseNotification list" where
  "demo_batch = [\<lparr>To = ''a@b'', Repo = ''a/b'', RelTag = ''v2'', RelURL = ''https:u'', UnsubscribeURL = ''https:s''\<rparr>,
     \<lparr>To = '''', Repo = ''a/b'', RelTag = ''v2'', RelURL = ''https:u'', UnsubscribeURL = ''https:t''\<rparr>]"

theorem release_batch_accounted_witness:
  "(\<lambda>r. Sent r + length (Failed r)) (fst (run_state (SendReleaseNotifications (faulty_env [(2, Fails ''dial'')])
      demo_mailer demo_batch) (fresh_world ()))) = 2"
  using release_batch_accounted [of "faulty_env [(2, Fails ''dial'')]" demo_mailer demo_batch "fresh_world ()"
      "fst (run_state (SendReleaseNotifications (faulty_env [(2, Fails ''dial'')]) demo_mailer demo_batch) (fresh_world ()))"
      "snd (run_state (SendReleaseNotifications (faulty_env [(2, Fails ''dial'')]) demo_mailer demo_batch) (fresh_world ()))"]
  by (simp add: demo_batch_def)

end
