(* ===== verification/Notifier.thy ===== *)
theory Notifier
  imports Mailer
begin

text \<open>
  The notifier service (\<open>internal/notifier\<close>): its tables, the read model of confirmed
  subscribers, sending confirmation mails, notifying a release, and the retrier with its
  dead letters. The theory \<open>Notifier_Spec\<close> holds what is proved of it.
\<close>

section \<open>Tables\<close>

record read_row =
  rd_email :: string
  rd_repo :: string
  rd_token :: string

record failed_notification =
  fn_id :: nat
  fn_saga :: string
  fn_repo :: string
  fn_tag :: string
  fn_url :: string
  fn_email :: string
  fn_reason :: string
  fn_retries :: int
  fn_at :: time

record failed_confirmation =
  fc_id :: nat
  fc_saga :: string
  fc_email :: string
  fc_repo :: string
  fc_url :: string
  fc_reason :: string
  fc_retries :: int
  fc_at :: time

record processed_release =
  pr_repo :: string
  pr_tag :: string
  pr_at :: time

record notif_db = outbox_db +
  subscriptions_read :: "read_row list"
  failed_notifications :: "failed_notification list"
  failed_confirmations :: "failed_confirmation list"
  processed_releases :: "processed_release list"

text \<open>
  The structs of \<open>rows.go\<close>, by the \<open>db\<close> tags of their fields. A row that was read is copied field by field into the struct of the
  domain: one record stands for both.
\<close>

definition recipientRow :: "string list" where
  "recipientRow = [''email'', ''unsub_token'']"

definition failedNotificationRow :: "string list" where
  "failedNotificationRow = [''id'', ''saga_id'', ''repo_name'', ''tag'', ''release_url'', ''email'', ''reason'', ''retry_count'']"

definition failedConfirmationRow :: "string list" where
  "failedConfirmationRow = [''id'', ''saga_id'', ''email'', ''repo_name'', ''confirm_url'', ''reason'', ''retry_count'']"

subsection \<open>The table of subscriptions read\<close>

definition upsert_read :: "string \<Rightarrow> string \<Rightarrow> string \<Rightarrow> ('a notif_db_scheme, unit) stmt" where
  "upsert_read email repo token i d =
     (if \<exists>r \<in> set (subscriptions_read d). rd_email r = email \<and> rd_repo r = repo
      then Inr ((), d\<lparr>subscriptions_read := map (\<lambda>r. if rd_email r = email \<and> rd_repo r = repo
             then r\<lparr>rd_token := token\<rparr> else r) (subscriptions_read d)\<rparr>)
      else Inr ((), d\<lparr>subscriptions_read := subscriptions_read d @
             [\<lparr>rd_email = email, rd_repo = repo, rd_token = token\<rparr>]\<rparr>))"

definition read_Upsert :: "env \<Rightarrow> string \<Rightarrow> string \<Rightarrow> string \<Rightarrow> ('a notif_db_scheme world, error + unit) state" where
  "read_Upsert E email repo token = wrap ''upsert subscriptions_read'' (sql E Pool (upsert_read email repo token))"

definition delete_read :: "string \<Rightarrow> string \<Rightarrow> ('a notif_db_scheme, unit) stmt" where
  "delete_read email repo i d =
     Inr ((), d\<lparr>subscriptions_read := filter (\<lambda>r. \<not> (rd_email r = email \<and> rd_repo r = repo)) (subscriptions_read d)\<rparr>)"

definition read_Delete :: "env \<Rightarrow> string \<Rightarrow> string \<Rightarrow> ('a notif_db_scheme world, error + unit) state" where
  "read_Delete E email repo = wrap ''delete subscriptions_read'' (sql E Pool (delete_read email repo))"

definition select_read :: "(read_row \<Rightarrow> bool) \<Rightarrow> ('a notif_db_scheme, read_row list) stmt" where
  "select_read p i d = Inr (filter p (subscriptions_read d), d)"

definition RecipientsByRepo :: "env \<Rightarrow> string \<Rightarrow> ('a notif_db_scheme world, error + read_row list) state" where
  "RecipientsByRepo E repo =
     bindE (wrap ''query recipients'' (sql E Pool (select_read (\<lambda>r. rd_repo r = repo)))) (\<lambda>rows.
       wrap ''collect recipients'' (liftE (CollectRows (RowToStructByName recipientRow [''email'', ''unsub_token'']) rows)))"

definition Recipient :: "env \<Rightarrow> string \<Rightarrow> string \<Rightarrow> ('a notif_db_scheme world, error + read_row) state" where
  "Recipient E email repo =
     bindE (wrap ''query recipient'' (sql E Pool (select_read (\<lambda>r. rd_email r = email \<and> rd_repo r = repo)))) (\<lambda>rows.
       case CollectExactlyOneRow (RowToStructByName recipientRow [''email'', ''unsub_token'']) rows of
         Inl e \<Rightarrow> if errors_Is e ErrNoRows then err (Sentinel ErrNotFound) else err (Errorf ''collect recipient'' e)
       | Inr r \<Rightarrow> ok r)"

subsection \<open>The table of failed notifications\<close>

definition insert_failed_notification :: "string \<Rightarrow> string \<Rightarrow> string \<Rightarrow> string \<Rightarrow> string \<Rightarrow> string \<Rightarrow>
    ('a notif_db_scheme, unit) stmt" where
  "insert_failed_notification saga repo tag url email reason i d =
     (if \<exists>f \<in> set (failed_notifications d). fn_repo f = repo \<and> fn_tag f = tag \<and> fn_email f = email
      then Inr ((), d)
      else Inr ((), d\<lparr>failed_notifications := failed_notifications d @
        [\<lparr>fn_id = st_id i, fn_saga = saga, fn_repo = repo, fn_tag = tag, fn_url = url, fn_email = email,
          fn_reason = reason, fn_retries = 0, fn_at = st_now i\<rparr>]\<rparr>))"

definition fn_Add :: "env \<Rightarrow> ctx \<Rightarrow> string \<Rightarrow> string \<Rightarrow> string \<Rightarrow> string \<Rightarrow> string \<Rightarrow> string \<Rightarrow>
    ('a notif_db_scheme world, error + unit) state" where
  "fn_Add E c saga repo tag url email reason =
     wrap ''add failed_notifications''
       (sql E (FromContext c) (insert_failed_notification saga repo tag url email reason))"

definition retryable_notifications :: "int \<Rightarrow> ('a notif_db_scheme, failed_notification list) stmt" where
  "retryable_notifications maxRetries i d =
     Inr (sort_key fn_at (filter (\<lambda>f. fn_retries f < maxRetries) (failed_notifications d)), d)"

definition fn_ListRetryable :: "env \<Rightarrow> int \<Rightarrow> ('a notif_db_scheme world, error + failed_notification list) state" where
  "fn_ListRetryable E maxRetries =
     bindE (wrap ''query failed_notifications'' (sql E Pool (retryable_notifications maxRetries))) (\<lambda>rows.
       wrap ''collect failed_notifications'' (liftE (CollectRows (RowToStructByName failedNotificationRow
         [''id'', ''saga_id'', ''repo_name'', ''tag'', ''release_url'', ''email'', ''reason'', ''retry_count'']) rows)))"

definition increment_notification :: "nat \<Rightarrow> ('a notif_db_scheme, unit) stmt" where
  "increment_notification rid i d =
     (if \<exists>f \<in> set (failed_notifications d). fn_id f = rid \<and> fn_retries f + 1 > max_integer
      then Inl ''integer out of range''
      else Inr ((), d\<lparr>failed_notifications := map (\<lambda>f. if fn_id f = rid then f\<lparr>fn_retries := fn_retries f + 1\<rparr> else f)
             (failed_notifications d)\<rparr>))"

definition fn_IncrementRetry :: "env \<Rightarrow> nat \<Rightarrow> ('a notif_db_scheme world, error + unit) state" where
  "fn_IncrementRetry E rid = wrap ''increment failed_notifications retry'' (sql E Pool (increment_notification rid))"

definition delete_notification :: "nat \<Rightarrow> ('a notif_db_scheme, unit) stmt" where
  "delete_notification rid i d =
     Inr ((), d\<lparr>failed_notifications := filter (\<lambda>f. fn_id f \<noteq> rid) (failed_notifications d)\<rparr>)"

definition fn_Delete :: "env \<Rightarrow> ctx \<Rightarrow> nat \<Rightarrow> ('a notif_db_scheme world, error + unit) state" where
  "fn_Delete E c rid = wrap ''delete failed_notifications'' (sql E (FromContext c) (delete_notification rid))"

subsection \<open>The table of failed confirmations\<close>

definition insert_failed_confirmation :: "string \<Rightarrow> string \<Rightarrow> string \<Rightarrow> string \<Rightarrow> string \<Rightarrow>
    ('a notif_db_scheme, unit) stmt" where
  "insert_failed_confirmation saga email repo url reason i d =
     (if \<exists>f \<in> set (failed_confirmations d). fc_email f = email \<and> fc_repo f = repo
      then Inr ((), d)
      else Inr ((), d\<lparr>failed_confirmations := failed_confirmations d @
        [\<lparr>fc_id = st_id i, fc_saga = saga, fc_email = email, fc_repo = repo, fc_url = url,
          fc_reason = reason, fc_retries = 0, fc_at = st_now i\<rparr>]\<rparr>))"

definition fc_Add :: "env \<Rightarrow> ctx \<Rightarrow> string \<Rightarrow> string \<Rightarrow> string \<Rightarrow> string \<Rightarrow> string \<Rightarrow>
    ('a notif_db_scheme world, error + unit) state" where
  "fc_Add E c saga email repo url reason =
     wrap ''add failed_confirmations'' (sql E (FromContext c) (insert_failed_confirmation saga email repo url reason))"

definition retryable_confirmations :: "int \<Rightarrow> time \<Rightarrow> ('a notif_db_scheme, failed_confirmation list) stmt" where
  "retryable_confirmations maxRetries notBefore i d =
     Inr (sort_key fc_at (filter (\<lambda>f. fc_retries f < maxRetries \<and> notBefore < fc_at f) (failed_confirmations d)), d)"

definition fc_ListRetryable :: "env \<Rightarrow> int \<Rightarrow> time \<Rightarrow> ('a notif_db_scheme world, error + failed_confirmation list) state" where
  "fc_ListRetryable E maxRetries notBefore =
     bindE (wrap ''query failed_confirmations'' (sql E Pool (retryable_confirmations maxRetries notBefore))) (\<lambda>rows.
       wrap ''collect failed_confirmations'' (liftE (CollectRows (RowToStructByName failedConfirmationRow
         [''id'', ''saga_id'', ''email'', ''repo_name'', ''confirm_url'', ''reason'', ''retry_count'']) rows)))"

definition expired_confirmations :: "time \<Rightarrow> ('a notif_db_scheme, failed_confirmation list) stmt" where
  "expired_confirmations cutoff i d =
     Inr (sort_key fc_at (filter (\<lambda>f. fc_at f \<le> cutoff) (failed_confirmations d)), d)"

definition fc_ListExpired :: "env \<Rightarrow> time \<Rightarrow> ('a notif_db_scheme world, error + failed_confirmation list) state" where
  "fc_ListExpired E cutoff =
     bindE (wrap ''query expired failed_confirmations'' (sql E Pool (expired_confirmations cutoff))) (\<lambda>rows.
       wrap ''collect expired failed_confirmations'' (liftE (CollectRows (RowToStructByName failedConfirmationRow
         [''id'', ''saga_id'', ''email'', ''repo_name'', ''confirm_url'', ''reason'', ''retry_count'']) rows)))"

definition increment_confirmation :: "nat \<Rightarrow> ('a notif_db_scheme, unit) stmt" where
  "increment_confirmation rid i d =
     (if \<exists>f \<in> set (failed_confirmations d). fc_id f = rid \<and> fc_retries f + 1 > max_integer
      then Inl ''integer out of range''
      else Inr ((), d\<lparr>failed_confirmations := map (\<lambda>f. if fc_id f = rid then f\<lparr>fc_retries := fc_retries f + 1\<rparr> else f)
             (failed_confirmations d)\<rparr>))"

definition fc_IncrementRetry :: "env \<Rightarrow> nat \<Rightarrow> ('a notif_db_scheme world, error + unit) state" where
  "fc_IncrementRetry E rid = wrap ''increment failed_confirmations retry'' (sql E Pool (increment_confirmation rid))"

definition delete_confirmation :: "nat \<Rightarrow> ('a notif_db_scheme, unit) stmt" where
  "delete_confirmation rid i d =
     Inr ((), d\<lparr>failed_confirmations := filter (\<lambda>f. fc_id f \<noteq> rid) (failed_confirmations d)\<rparr>)"

definition fc_Delete :: "env \<Rightarrow> ctx \<Rightarrow> nat \<Rightarrow> ('a notif_db_scheme world, error + unit) state" where
  "fc_Delete E c rid = wrap ''delete failed_confirmations'' (sql E (FromContext c) (delete_confirmation rid))"

subsection \<open>The table of processed releases\<close>

definition is_processed :: "string \<Rightarrow> string \<Rightarrow> 'a notif_db_scheme \<Rightarrow> bool" where
  "is_processed repo tag d \<longleftrightarrow> (\<exists>p \<in> set (processed_releases d). pr_repo p = repo \<and> pr_tag p = tag)"

definition pr_Exists :: "env \<Rightarrow> string \<Rightarrow> string \<Rightarrow> ('a notif_db_scheme world, error + bool) state" where
  "pr_Exists E repo tag =
     wrap ''check processed_releases'' (QueryRow E Pool (\<lambda>i d. Inr ([is_processed repo tag d], d)))"

definition insert_processed :: "string \<Rightarrow> string \<Rightarrow> ('a notif_db_scheme, unit) stmt" where
  "insert_processed repo tag i d =
     (if is_processed repo tag d then Inr ((), d)
      else Inr ((), d\<lparr>processed_releases := processed_releases d @ [\<lparr>pr_repo = repo, pr_tag = tag, pr_at = st_now i\<rparr>]\<rparr>))"

definition pr_Mark :: "env \<Rightarrow> ctx \<Rightarrow> string \<Rightarrow> string \<Rightarrow> ('a notif_db_scheme world, error + unit) state" where
  "pr_Mark E c repo tag = wrap ''mark processed_releases'' (sql E (FromContext c) (insert_processed repo tag))"

definition delete_processed :: "time \<Rightarrow> ('a notif_db_scheme, nat) stmt" where
  "delete_processed cutoff i d =
     Inr (length (filter (\<lambda>p. pr_at p < cutoff) (processed_releases d)),
       d\<lparr>processed_releases := filter (\<lambda>p. \<not> pr_at p < cutoff) (processed_releases d)\<rparr>)"

definition DeleteProcessedBefore :: "env \<Rightarrow> time \<Rightarrow> ('a notif_db_scheme world, error + nat) state" where
  "DeleteProcessedBefore E cutoff = wrap ''delete old processed_releases'' (sql E Pool (delete_processed cutoff))"

text \<open>Every column has its field, so that the rows are read as they are.\<close>

lemma RecipientsByRepo_eq:
  "RecipientsByRepo E repo = wrap ''query recipients'' (sql E Pool (select_read (\<lambda>r. rd_repo r = repo)))"
  by (simp add: RecipientsByRepo_def collect_matching recipientRow_def collect_ok)

lemma Recipient_eq:
  "Recipient E email repo =
     bindE (wrap ''query recipient'' (sql E Pool (select_read (\<lambda>r. rd_email r = email \<and> rd_repo r = repo)))) (\<lambda>rows.
       case exactly_one rows of
         Inl e \<Rightarrow> if errors_Is e ErrNoRows then err (Sentinel ErrNotFound) else err (Errorf ''collect recipient'' e)
       | Inr r \<Rightarrow> ok r)"
  by (simp add: Recipient_def collect_matching recipientRow_def)

lemma fn_ListRetryable_eq:
  "fn_ListRetryable E maxRetries = wrap ''query failed_notifications'' (sql E Pool (retryable_notifications maxRetries))"
  by (simp add: fn_ListRetryable_def collect_matching failedNotificationRow_def collect_ok)

lemma fc_ListRetryable_eq:
  "fc_ListRetryable E maxRetries notBefore =
     wrap ''query failed_confirmations'' (sql E Pool (retryable_confirmations maxRetries notBefore))"
  by (simp add: fc_ListRetryable_def collect_matching failedConfirmationRow_def collect_ok)

lemma fc_ListExpired_eq:
  "fc_ListExpired E cutoff = wrap ''query expired failed_confirmations'' (sql E Pool (expired_confirmations cutoff))"
  by (simp add: fc_ListExpired_def collect_matching failedConfirmationRow_def collect_ok)

section \<open>Read model\<close>

definition readmodel_Confirmed :: "env \<Rightarrow> event \<Rightarrow> ('a notif_db_scheme world, error + unit) state" where
  "readmodel_Confirmed E ev =
     wrap ''project subscription confirmed'' (read_Upsert E (Email ev) (RepoName ev) (UnsubToken ev))"

definition readmodel_Removed :: "env \<Rightarrow> event \<Rightarrow> ('a notif_db_scheme world, error + unit) state" where
  "readmodel_Removed E ev = wrap ''project subscription removed'' (read_Delete E (Email ev) (RepoName ev))"

section \<open>Sending a confirmation\<close>

text \<open>\<open>sendconfirmation.Execute\<close>; the input is the event it comes from.\<close>

definition sendconfirmation_Execute :: "env \<Rightarrow> mailer \<Rightarrow> ctx \<Rightarrow> event \<Rightarrow>
    ('a notif_db_scheme world, error + unit) state" where
  "sendconfirmation_Execute E M c ev = do {
     sent \<leftarrow> DeliverConfirmation E M (Email ev) (RepoName ev) (ConfirmURL ev);
     case sent of
       Inl e \<Rightarrow>
         bindE (wrap ''record confirmation failure'' (Within E c (\<lambda>txCtx.
           bindE (fc_Add E txCtx (SagaID ev) (Email ev) (RepoName ev) (ConfirmURL ev) (Error e)) (\<lambda>_.
             pub_ConfirmationFailed E txCtx
               (NotificationConfirmationFailed (SagaID ev) (Email ev) (Error e)))))) (\<lambda>_. do {
         _ \<leftarrow> Notify;
         ok ()
       })
     | Inr _ \<Rightarrow>
         bindE (wrap ''publish confirmation sent'' (Within E c (\<lambda>txCtx.
           pub_ConfirmationSent E txCtx
             (NotificationConfirmationSent (SagaID ev) (Email ev))))) (\<lambda>_. do {
         _ \<leftarrow> Notify;
         ok ()
       })
   }"

section \<open>Notifying a release\<close>

definition failureReason :: string where
  "failureReason = ''release email delivery failed''"

definition notifyrelease_deliver :: "env \<Rightarrow> mailer \<Rightarrow> string \<Rightarrow> event \<Rightarrow> read_row list \<Rightarrow>
    ('db world, BatchResult) state" where
  "notifyrelease_deliver E M base ev recipients =
     (if recipients = [] then State_Monad.return \<lparr>Sent = 0, Failed = []\<rparr>
      else SendReleaseNotifications E M (map (\<lambda>r.
        \<lparr>To = rd_email r, Repo = RepoName ev, RelTag = Tag ev, RelURL = ReleaseURL ev,
         UnsubscribeURL = URLBuilder_UnsubscribeURL base (rd_token r)\<rparr>) recipients))"

primrec recordOutcomes :: "env \<Rightarrow> ctx \<Rightarrow> event \<Rightarrow> string list \<Rightarrow> read_row list \<Rightarrow>
    ('a notif_db_scheme world, error + unit) state" where
  "recordOutcomes E c ev failed [] = ok ()"
| "recordOutcomes E c ev failed (r # rs) =
     bindE (if rd_email r \<in> set failed
            then bindE (fn_Add E c (SagaID ev) (RepoName ev) (Tag ev) (ReleaseURL ev) (rd_email r) failureReason) (\<lambda>_.
              pub_ReleaseFailed E c
                (NotificationReleaseFailed (SagaID ev) (RepoName ev) (Tag ev) (rd_email r) failureReason))
            else pub_ReleaseSent E c
                (NotificationReleaseSent (SagaID ev) (RepoName ev) (Tag ev) (rd_email r))) (\<lambda>_.
       recordOutcomes E c ev failed rs)"

definition notifyrelease_Execute :: "env \<Rightarrow> mailer \<Rightarrow> string \<Rightarrow> ctx \<Rightarrow> event \<Rightarrow>
    ('a notif_db_scheme world, error + nat \<times> string list) state" where
  "notifyrelease_Execute E M base c ev =
     bindE (wrap ''check processed release'' (pr_Exists E (RepoName ev) (Tag ev))) (\<lambda>processed.
       if processed then ok (0, [])
       else bindE (wrap ''resolve recipients'' (RecipientsByRepo E (RepoName ev))) (\<lambda>recipients. do {
         result \<leftarrow> notifyrelease_deliver E M base ev recipients;
         bindE (wrap ''commit release outcome'' (Within E c (\<lambda>txCtx.
           bindE (recordOutcomes E txCtx ev (Failed result) recipients) (\<lambda>_.
           bindE (pub_ReleaseNotified E txCtx
             (ReleaseNotified (SagaID ev) (RepoName ev) (Tag ev) (int (Sent result)) (Failed result))) (\<lambda>_.
             pr_Mark E txCtx (RepoName ev) (Tag ev)))))) (\<lambda>_. do {
         _ \<leftarrow> Notify;
         ok (Sent result, Failed result)
       })}))"

section \<open>Retrying\<close>

record retry_config =
  MaxRetries :: int
  ConfirmationTTL :: duration

definition releaseDeadReason :: string where
  "releaseDeadReason = ''release email delivery failed after max retries''"

definition confirmationDeadReason :: string where
  "confirmationDeadReason = ''confirmation email delivery failed after max retries''"

definition confirmationExpiredReason :: string where
  "confirmationExpiredReason = ''confirmation link expired before delivery''"

definition deleteAndPublish :: "env \<Rightarrow> ctx \<Rightarrow> (ctx \<Rightarrow> ('a notif_db_scheme world, error + unit) state) \<Rightarrow>
    ('a notif_db_scheme world, unit) state" where
  "deleteAndPublish E c fn = do {
     r \<leftarrow> Within E c fn;
     case r of Inl e \<Rightarrow> State_Monad.return () | Inr _ \<Rightarrow> Notify
   }"

definition deadLetterConfirmation :: "env \<Rightarrow> ctx \<Rightarrow> failed_confirmation \<Rightarrow> string \<Rightarrow>
    ('a notif_db_scheme world, unit) state" where
  "deadLetterConfirmation E c fc reason = deleteAndPublish E c (\<lambda>txCtx.
     bindE (fc_Delete E txCtx (fc_id fc)) (\<lambda>_.
       pub_ConfirmationDead E txCtx
         (NotificationConfirmationDead (fc_saga fc) (fc_email fc) reason)))"

definition deleteNotification :: "env \<Rightarrow> ctx \<Rightarrow> nat \<Rightarrow> ('a notif_db_scheme world, unit) state" where
  "deleteNotification E c rid = do { _ \<leftarrow> fn_Delete E c rid; State_Monad.return () }"

definition retryRelease :: "env \<Rightarrow> mailer \<Rightarrow> string \<Rightarrow> retry_config \<Rightarrow> ctx \<Rightarrow> failed_notification \<Rightarrow>
    ('a notif_db_scheme world, unit) state" where
  "retryRelease E M base cfg c fn = do {
     rec \<leftarrow> Recipient E (fn_email fn) (fn_repo fn);
     case rec of
       Inl e \<Rightarrow> if errors_Is e ErrNotFound then deleteNotification E c (fn_id fn) else State_Monad.return ()
     | Inr r \<Rightarrow> do {
         result \<leftarrow> SendReleaseNotifications E M
           [\<lparr>To = fn_email fn, Repo = fn_repo fn, RelTag = fn_tag fn, RelURL = fn_url fn,
             UnsubscribeURL = URLBuilder_UnsubscribeURL base (rd_token r)\<rparr>];
         if Sent result > 0 then deleteAndPublish E c (\<lambda>txCtx.
           bindE (fn_Delete E txCtx (fn_id fn)) (\<lambda>_.
             pub_ReleaseSent E txCtx
               (NotificationReleaseSent (fn_saga fn) (fn_repo fn) (fn_tag fn) (fn_email fn))))
         else if fn_retries fn + 1 \<ge> MaxRetries cfg then deleteAndPublish E c (\<lambda>txCtx.
           bindE (fn_Delete E txCtx (fn_id fn)) (\<lambda>_.
             pub_ReleaseDead E txCtx
               (NotificationReleaseDead (fn_saga fn) (fn_repo fn) (fn_tag fn) (fn_email fn) releaseDeadReason)))
         else do { _ \<leftarrow> fn_IncrementRetry E (fn_id fn); State_Monad.return () }
       }
   }"

definition retryConfirmation :: "env \<Rightarrow> mailer \<Rightarrow> retry_config \<Rightarrow> ctx \<Rightarrow> failed_confirmation \<Rightarrow>
    ('a notif_db_scheme world, unit) state" where
  "retryConfirmation E M cfg c fc = do {
     sent \<leftarrow> DeliverConfirmation E M (fc_email fc) (fc_repo fc) (fc_url fc);
     case sent of
       Inl e \<Rightarrow>
         if fc_retries fc + 1 \<ge> MaxRetries cfg then deadLetterConfirmation E c fc confirmationDeadReason
         else do { _ \<leftarrow> fc_IncrementRetry E (fc_id fc); State_Monad.return () }
     | Inr _ \<Rightarrow> deleteAndPublish E c (\<lambda>txCtx.
         bindE (fc_Delete E txCtx (fc_id fc)) (\<lambda>_.
           pub_ConfirmationSent E txCtx
             (NotificationConfirmationSent (fc_saga fc) (fc_email fc))))
   }"

text \<open>The operations with the methods of the publisher unfolded.\<close>

lemmas sendconfirmation_Execute_body = sendconfirmation_Execute_def [unfolded publisher_methods]

lemmas notifyrelease_Execute_body = notifyrelease_Execute_def [unfolded publisher_methods]

lemmas deadLetterConfirmation_body = deadLetterConfirmation_def [unfolded publisher_methods]

lemmas retryRelease_body = retryRelease_def [unfolded publisher_methods]

lemmas retryConfirmation_body = retryConfirmation_def [unfolded publisher_methods]

text \<open>A loop over rows whose body returns nothing.\<close>

primrec for_each :: "('r \<Rightarrow> ('s, unit) state) \<Rightarrow> 'r list \<Rightarrow> ('s, unit) state" where
  "for_each f [] = State_Monad.return ()"
| "for_each f (r # rs) = do { _ \<leftarrow> f r; for_each f rs }"

definition retry_Releases :: "env \<Rightarrow> mailer \<Rightarrow> string \<Rightarrow> retry_config \<Rightarrow> ctx \<Rightarrow>
    ('a notif_db_scheme world, error + unit) state" where
  "retry_Releases E M base cfg c =
     bindE (wrap ''list retryable notifications'' (fn_ListRetryable E (MaxRetries cfg))) (\<lambda>rows. do {
       _ \<leftarrow> for_each (retryRelease E M base cfg c) rows;
       ok ()
     })"

definition retry_Confirmations :: "env \<Rightarrow> mailer \<Rightarrow> retry_config \<Rightarrow> ctx \<Rightarrow>
    ('a notif_db_scheme world, error + unit) state" where
  "retry_Confirmations E M cfg c = do {
     now \<leftarrow> Now E;
     let cutoff = now - ConfirmationTTL cfg;
     bindE (wrap ''list expired confirmations'' (fc_ListExpired E cutoff)) (\<lambda>expired. do {
       _ \<leftarrow> for_each (\<lambda>fc. deadLetterConfirmation E c fc confirmationExpiredReason) expired;
       bindE (wrap ''list retryable confirmations'' (fc_ListRetryable E (MaxRetries cfg) cutoff)) (\<lambda>rows. do {
         _ \<leftarrow> for_each (retryConfirmation E M cfg c) rows;
         ok ()
       })
     })
   }"

text \<open>\<open>maintenanceTick\<close> of \<open>internal/bootstrap/notifier/maintenance.go\<close>: errors are logged.\<close>

definition maintenanceTick :: "env \<Rightarrow> mailer \<Rightarrow> string \<Rightarrow> retry_config \<Rightarrow> duration \<Rightarrow> ctx \<Rightarrow>
    ('a notif_db_scheme world, unit) state" where
  "maintenanceTick E M base cfg processedTTL c = do {
     _ \<leftarrow> retry_Releases E M base cfg c;
     _ \<leftarrow> retry_Confirmations E M cfg c;
     now \<leftarrow> Now E;
     _ \<leftarrow> DeleteProcessedBefore E (now - processedTTL);
     State_Monad.return ()
   }"

section \<open>Consumer\<close>

definition notifier_HandlePending :: "env \<Rightarrow> mailer \<Rightarrow> ctx \<Rightarrow> 'a notif_db_scheme handler" where
  "notifier_HandlePending E M c data = bindE (decode_event E TSubscriptionPending data) (\<lambda>ev.
     sendconfirmation_Execute E M (WithSagaID c (SagaID ev)) ev)"

definition notifier_HandleConfirmed :: "env \<Rightarrow> 'a notif_db_scheme handler" where
  "notifier_HandleConfirmed E data =
     bindE (decode_event E TSubscriptionConfirmed data) (\<lambda>ev. readmodel_Confirmed E ev)"

definition notifier_HandleRemoved :: "env \<Rightarrow> 'a notif_db_scheme handler" where
  "notifier_HandleRemoved E data =
     bindE (decode_event E TSubscriptionRemoved data) (\<lambda>ev. readmodel_Removed E ev)"

definition notifier_HandleReleaseDetected :: "env \<Rightarrow> mailer \<Rightarrow> string \<Rightarrow> ctx \<Rightarrow> 'a notif_db_scheme handler" where
  "notifier_HandleReleaseDetected E M base c data = bindE (decode_event E TReleaseDetected data) (\<lambda>ev.
     bindE (notifyrelease_Execute E M base (WithSagaID c (SagaID ev)) ev) (\<lambda>_. ok ()))"

text \<open>The consumer specifications of \<open>internal/bootstrap/notifier/consumers.go\<close>.\<close>

definition notifier_consumers :: "env \<Rightarrow> mailer \<Rightarrow> string \<Rightarrow> ctx \<Rightarrow>
    (string \<times> string \<times> 'a notif_db_scheme handler) list" where
  "notifier_consumers E M base c =
     [(StreamSubscriptions, SubjectSubscriptionPending, notifier_HandlePending E M c),
      (StreamSubscriptions, SubjectSubscriptionConfirmed, notifier_HandleConfirmed E),
      (StreamSubscriptions, SubjectSubscriptionRemoved, notifier_HandleRemoved E),
      (StreamReleases, SubjectReleaseDetected, notifier_HandleReleaseDetected E M base c)]"

end
