(* ===== verification/Notifier_Spec.thy ===== *)
theory Notifier_Spec
  imports Notifier
begin

text \<open>
  What the notifier guarantees: the constraints of its schema, the read model as a map, one
  recorded outcome per release however often its message is delivered, no recipient and no
  confirmation forgotten, and the fate of every row the retrier takes up.
\<close>

section \<open>Invariants of the notifier's database\<close>

context db_invariant
begin

lemma db_inv_mails: "db_inv P w \<Longrightarrow> mails_only mails w w' \<Longrightarrow> db_inv P w'"
  by (auto simp: db_inv_def mails_only_def intro: P_le)

lemma preserves_mailer [preserves_rules]:
  "preserves (db_inv P) (SendReleaseNotifications E M ns)"
  "preserves (db_inv P) (DeliverConfirmation E M to repo url)"
proof -
  show "preserves (db_inv P) (SendReleaseNotifications E M ns)"
    by (rule preservesI, rule wp_mono [OF wp_SendReleaseNotifications]) (auto intro: db_inv_mails)
  show "preserves (db_inv P) (DeliverConfirmation E M to repo url)"
    by (rule preservesI, rule wp_DeliverConfirmation) (auto intro: db_inv_mails)
qed

end

lemma preserves_for_each [preserves_rules]:
  "(\<And>r. r \<in> set rs \<Longrightarrow> preserves I (f r)) \<Longrightarrow> preserves I (for_each f rs)"
  by (induction rs) (auto intro!: preserves_rules)

text \<open>
  What a property of the notifier's tables has to satisfy; only two consumers add rows that come from
  events, to the read model and to the failed confirmations.
\<close>

locale notif_rows = outbox_invariant P E emits
  for P :: "nat \<Rightarrow> 'a notif_db_scheme \<Rightarrow> bool" and E emits +
  assumes keeps_delete_read: "stmt_keeps P (delete_read email repo)"
    and keeps_insert_fn: "stmt_keeps P (insert_failed_notification saga repo tag url email reason)"
    and keeps_increment_fn: "stmt_keeps P (increment_notification rid)"
    and keeps_delete_fn: "stmt_keeps P (delete_notification rid)"
    and keeps_increment_fc: "stmt_keeps P (increment_confirmation rid)"
    and keeps_delete_fc: "stmt_keeps P (delete_confirmation rid)"
    and keeps_insert_processed: "stmt_keeps P (insert_processed repo tag)"
    and keeps_delete_processed: "stmt_keeps P (delete_processed cutoff)"
    and emits_outcomes [preserves_rules]:
      "emits SubjectNotificationConfirmationSent (NotificationConfirmationSent sid email)"
      "emits SubjectNotificationConfirmationFailed (NotificationConfirmationFailed sid email reason)"
      "emits SubjectNotificationConfirmationDead (NotificationConfirmationDead sid email reason)"
      "emits SubjectNotificationReleaseSent (NotificationReleaseSent sid repo tag email)"
      "emits SubjectNotificationReleaseFailed (NotificationReleaseFailed sid repo tag email reason)"
      "emits SubjectNotificationReleaseDead (NotificationReleaseDead sid repo tag email reason)"
      "emits SubjectReleaseNotified (ReleaseNotified sid repo tag n failed)"
begin

lemmas keeps_tables = keeps_delete_read keeps_insert_fn keeps_increment_fn keeps_delete_fn
  keeps_increment_fc keeps_delete_fc keeps_insert_processed keeps_delete_processed

lemma keeps_queries:
  "stmt_keeps P (select_read p)" "stmt_keeps P (retryable_notifications k)"
  "stmt_keeps P (retryable_confirmations k t)" "stmt_keeps P (expired_confirmations t)"
  "stmt_keeps P (\<lambda>i d. Inr ([is_processed repo tag d], d))"
  by (rule keeps_readonly; simp add: select_read_def retryable_notifications_def retryable_confirmations_def
      expired_confirmations_def)+

lemma preserves_repositories [preserves_rules]:
  "preserves (db_inv P) (read_Delete E email repo)"
  "preserves (db_inv P) (RecipientsByRepo E repo)" "preserves (db_inv P) (Recipient E email repo)"
  "preserves (db_inv P) (fn_Add E c saga repo tag url email reason)" "preserves (db_inv P) (fn_ListRetryable E k)"
  "preserves (db_inv P) (fn_IncrementRetry E rid)" "preserves (db_inv P) (fn_Delete E c rid)"
  "preserves (db_inv P) (fc_ListRetryable E k t)"
  "preserves (db_inv P) (fc_ListExpired E t)" "preserves (db_inv P) (fc_IncrementRetry E rid)"
  "preserves (db_inv P) (fc_Delete E c rid)" "preserves (db_inv P) (pr_Exists E repo tag)"
  "preserves (db_inv P) (pr_Mark E c repo tag)" "preserves (db_inv P) (DeleteProcessedBefore E t)"
  unfolding read_Delete_def RecipientsByRepo_eq Recipient_eq fn_Add_def fn_ListRetryable_eq
    fn_IncrementRetry_def fn_Delete_def fc_ListRetryable_eq fc_ListExpired_eq fc_IncrementRetry_def
    fc_Delete_def pr_Exists_def pr_Mark_def DeleteProcessedBefore_def
  by (intro preserves_rules keeps_tables keeps_queries)+

lemma preserves_recordOutcomes [preserves_rules]: "preserves (db_inv P) (recordOutcomes E c ev failed rs)"
  by (induction rs) (auto intro!: preserves_rules)

lemma preserves_HandleRemoved [preserves_rules]: "preserves (db_inv P) (notifier_HandleRemoved E p)"
  unfolding notifier_HandleRemoved_def readmodel_Removed_def by (intro preserves_rules)

lemma preserves_HandleReleaseDetected [preserves_rules]:
  "preserves (db_inv P) (notifier_HandleReleaseDetected E M base c p)"
  unfolding notifier_HandleReleaseDetected_def notifyrelease_Execute_body notifyrelease_deliver_def
  by (intro preserves_rules)

lemma preserves_HandleConfirmed:
  assumes "\<And>ev. Unmarshal E TSubscriptionConfirmed p = Inr ev \<Longrightarrow>
    stmt_keeps P (upsert_read (Email ev) (RepoName ev) (UnsubToken ev))"
  shows "preserves (db_inv P) (notifier_HandleConfirmed E p)"
  using assms unfolding notifier_HandleConfirmed_def decode_event_def readmodel_Confirmed_def read_Upsert_def
  by (cases "Unmarshal E TSubscriptionConfirmed p") (auto intro!: preserves_rules simp: bindE_def)

lemma preserves_HandlePending:
  assumes "\<And>ev reason. Unmarshal E TSubscriptionPending p = Inr ev \<Longrightarrow>
    stmt_keeps P (insert_failed_confirmation (SagaID ev) (Email ev) (RepoName ev) (ConfirmURL ev) reason)"
  shows "preserves (db_inv P) (notifier_HandlePending E M c p)"
proof (cases "Unmarshal E TSubscriptionPending p")
  case (Inr ev)
  have "preserves (db_inv P) (sendconfirmation_Execute E M c ev)" for c
    unfolding sendconfirmation_Execute_body fc_Add_def by (intro preserves_rules assms Inr)
  with Inr show ?thesis by (simp add: notifier_HandlePending_def decode_event_def bindE_def)
qed (simp add: notifier_HandlePending_def decode_event_def bindE_def preserves_return)

lemma preserves_retries [preserves_rules]:
  "preserves (db_inv P) (retryRelease E M base cfg c fn)" "preserves (db_inv P) (retryConfirmation E M cfg c fc)"
  "preserves (db_inv P) (deadLetterConfirmation E c fc reason)"
  unfolding retryRelease_body retryConfirmation_body deadLetterConfirmation_body deleteAndPublish_def
    deleteNotification_def
  by (intro preserves_rules)+

lemma preserves_maintenance: "preserves (db_inv P) (maintenanceTick E M base cfg ttl c)"
  unfolding maintenanceTick_def retry_Releases_def retry_Confirmations_def Let_def
  by (intro preserves_rules)

end

locale notif_tables = notif_rows +
  assumes keeps_upsert_read: "stmt_keeps P (upsert_read email repo token)"
    and keeps_insert_fc: "stmt_keeps P (insert_failed_confirmation saga email repo url reason)"
begin

lemma preserves_consumers:
  "(stream, subject, h) \<in> set (notifier_consumers E M base c) \<Longrightarrow> preserves (db_inv P) (h p)"
  using keeps_upsert_read keeps_insert_fc
  by (auto simp: notifier_consumers_def
      intro!: preserves_rules preserves_HandleConfirmed preserves_HandlePending)

end

text \<open>Primary keys, identity columns and unique constraints of the four tables and the outbox.\<close>

definition notif_wf :: "nat \<Rightarrow> 'a notif_db_scheme \<Rightarrow> bool" where
  "notif_wf n d \<longleftrightarrow> outbox_wf n d \<and>
     distinct (map (\<lambda>r. (rd_email r, rd_repo r)) (subscriptions_read d)) \<and>
     distinct (map fn_id (failed_notifications d)) \<and> (\<forall>f \<in> set (failed_notifications d). fn_id f < n) \<and>
     distinct (map (\<lambda>f. (fn_repo f, fn_tag f, fn_email f)) (failed_notifications d)) \<and>
     distinct (map fc_id (failed_confirmations d)) \<and> (\<forall>f \<in> set (failed_confirmations d). fc_id f < n) \<and>
     distinct (map (\<lambda>f. (fc_email f, fc_repo f)) (failed_confirmations d)) \<and>
     distinct (map (\<lambda>p. (pr_repo p, pr_tag p)) (processed_releases d))"

lemma notif_wf_later: "notif_wf n d \<Longrightarrow> notif_wf (Suc n) d"
  by (auto simp: notif_wf_def outbox_wf_def intro: less_SucI)

lemma notif_wf_update_read:
  "notif_wf n d \<Longrightarrow> (\<And>r. rd_email (f r) = rd_email r) \<Longrightarrow> (\<And>r. rd_repo (f r) = rd_repo r) \<Longrightarrow>
   notif_wf (Suc n) (d\<lparr>subscriptions_read := map f (subscriptions_read d)\<rparr>)"
  by (auto simp: notif_wf_def outbox_wf_def comp_def intro: less_SucI)

interpretation notif_wf: notif_tables notif_wf E "\<lambda>_ _. True" for E
proof
  show "notif_wf (Suc n) d" if "notif_wf n d" for n and d :: "'a notif_db_scheme"
    using that by (rule notif_wf_later)
  show "stmt_keeps notif_wf (insert_outbox s (Doc (encode ev)))" for s ev
    unfolding stmt_keeps_def insert_outbox_def by (auto simp: notif_wf_def outbox_wf_def intro: less_SucI)
  show "stmt_keeps notif_wf (upsert_read email repo token)" for email repo token
    unfolding stmt_keeps_def upsert_read_def
    by (auto intro!: notif_wf_update_read split: if_splits) (auto simp: notif_wf_def outbox_wf_def intro: less_SucI)
  show "stmt_keeps notif_wf (delete_read email repo)" for email repo
    unfolding stmt_keeps_def delete_read_def
    by (auto simp: notif_wf_def outbox_wf_def distinct_map_filter intro: less_SucI)
  show "stmt_keeps notif_wf (insert_failed_notification saga repo tag url email reason)"
    for saga repo tag url email reason
    unfolding stmt_keeps_def insert_failed_notification_def
    by (auto simp: notif_wf_def outbox_wf_def intro: less_SucI split: if_splits)
  show "stmt_keeps notif_wf (increment_notification rid)" for rid
    unfolding stmt_keeps_def increment_notification_def
    by (auto simp: notif_wf_def outbox_wf_def comp_def if_distrib intro: less_SucI cong: if_cong split: if_splits)
  show "stmt_keeps notif_wf (delete_notification rid)" for rid
    unfolding stmt_keeps_def delete_notification_def
    by (auto simp: notif_wf_def outbox_wf_def distinct_map_filter intro: less_SucI)
  show "stmt_keeps notif_wf (insert_failed_confirmation saga email repo url reason)" for saga email repo url reason
    unfolding stmt_keeps_def insert_failed_confirmation_def
    by (auto simp: notif_wf_def outbox_wf_def intro: less_SucI split: if_splits)
  show "stmt_keeps notif_wf (increment_confirmation rid)" for rid
    unfolding stmt_keeps_def increment_confirmation_def
    by (auto simp: notif_wf_def outbox_wf_def comp_def if_distrib intro: less_SucI cong: if_cong split: if_splits)
  show "stmt_keeps notif_wf (delete_confirmation rid)" for rid
    unfolding stmt_keeps_def delete_confirmation_def
    by (auto simp: notif_wf_def outbox_wf_def distinct_map_filter intro: less_SucI)
  show "stmt_keeps notif_wf (insert_processed repo tag)" for repo tag
    unfolding stmt_keeps_def insert_processed_def is_processed_def
    by (auto simp: notif_wf_def outbox_wf_def intro: less_SucI split: if_splits)
  show "stmt_keeps notif_wf (delete_processed cutoff)" for cutoff
    unfolding stmt_keeps_def delete_processed_def
    by (auto simp: notif_wf_def outbox_wf_def distinct_map_filter intro: less_SucI)
qed simp_all

section \<open>The read model\<close>

text \<open>The abstract read model: the unsubscribe token of a confirmed (e-mail, repository) pair.\<close>

definition subscribers_of :: "'a notif_db_scheme \<Rightarrow> (string \<times> string) \<rightharpoonup> string" where
  "subscribers_of d = map_of (map (\<lambda>r. ((rd_email r, rd_repo r), rd_token r)) (subscriptions_read d))"

definition read_applied :: "env \<Rightarrow> payload \<Rightarrow> 'a notif_db_scheme \<Rightarrow> 'a notif_db_scheme \<Rightarrow> bool" where
  "read_applied E p d d' \<longleftrightarrow> (\<exists>ev i. Unmarshal E TSubscriptionConfirmed p = Inr ev \<and>
     upsert_read (Email ev) (RepoName ev) (UnsubToken ev) i d = Inr ((), d'))"

definition read_settled :: "env \<Rightarrow> payload \<Rightarrow> 'a notif_db_scheme \<Rightarrow> bool" where
  "read_settled E p d \<longleftrightarrow> (\<exists>ev. Unmarshal E TSubscriptionConfirmed p = Inr ev \<and>
     (\<exists>r \<in> set (subscriptions_read d). rd_email r = Email ev \<and> rd_repo r = RepoName ev) \<and>
     (\<forall>r \<in> set (subscriptions_read d). rd_email r = Email ev \<and> rd_repo r = RepoName ev \<longrightarrow> rd_token r = UnsubToken ev))"

lemma upsert_read_settled:
  assumes "upsert_read email repo token i d = Inr (u, d')"
  shows "(\<exists>r \<in> set (subscriptions_read d'). rd_email r = email \<and> rd_repo r = repo) \<and>
    (\<forall>r \<in> set (subscriptions_read d'). rd_email r = email \<and> rd_repo r = repo \<longrightarrow> rd_token r = token)"
proof (cases "\<exists>r \<in> set (subscriptions_read d). rd_email r = email \<and> rd_repo r = repo")
  case True
  then obtain r where "r \<in> set (subscriptions_read d)" "rd_email r = email" "rd_repo r = repo" by blast
  with True assms show ?thesis by (auto simp: upsert_read_def intro!: bexI [where x = "r\<lparr>rd_token := token\<rparr>"])
next
  case False
  with assms have "d' = d\<lparr>subscriptions_read := subscriptions_read d @ [\<lparr>rd_email = email, rd_repo = repo, rd_token = token\<rparr>]\<rparr>"
    by (simp add: upsert_read_def)
  with False show ?thesis by auto
qed

lemma upsert_read_again:
  assumes "\<exists>r \<in> set (subscriptions_read d). rd_email r = email \<and> rd_repo r = repo"
    and "\<forall>r \<in> set (subscriptions_read d). rd_email r = email \<and> rd_repo r = repo \<longrightarrow> rd_token r = token"
  shows "upsert_read email repo token i d = Inr ((), d)"
proof -
  have "map (\<lambda>r. if rd_email r = email \<and> rd_repo r = repo then r\<lparr>rd_token := token\<rparr> else r) (subscriptions_read d) =
      subscriptions_read d"
    using assms(2) by (intro map_idI) auto
  with assms(1) show ?thesis by (simp add: upsert_read_def)
qed

interpretation read_confirmed: exactly_once_handler E "notifier_HandleConfirmed E" "read_applied E" "read_settled E" for E
proof
  show "read_settled E p d'" if "read_applied E p d d'" for p and d d' :: "'a notif_db_scheme"
    using that upsert_read_settled unfolding read_applied_def read_settled_def by blast
  show "wp (notifier_HandleConfirmed E p) (once_post (read_applied E) (read_settled E) p w) w"
    if w: "open_tx w = None" for p and w :: "'a notif_db_scheme world"
  proof (cases "Unmarshal E TSubscriptionConfirmed p")
    case (Inr ev)
    have post: "once_post (read_applied E) (read_settled E) p w r (w\<lparr>ncalls := n, committed := d\<rparr>)"
      if up: "upsert_read (Email ev) (RepoName ev) (UnsubToken ev) i (committed w) = Inr (u, d)" for r n d i u
    proof (cases "read_settled E p (committed w)")
      case True
      then have "d = committed w"
        using up upsert_read_again [of "committed w" "Email ev" "RepoName ev" "UnsubToken ev" i] Inr
        by (auto simp: read_settled_def)
      with True w show ?thesis by (simp add: once_post_def)
    next
      case False
      have "read_settled E p d" using upsert_read_settled [OF up] Inr by (simp add: read_settled_def)
      moreover have "read_applied E p (committed w) d" using up Inr by (auto simp: read_applied_def)
      ultimately show ?thesis using False w by (simp add: once_post_def)
    qed
    show ?thesis
      using w Inr unfolding notifier_HandleConfirmed_def readmodel_Confirmed_def read_Upsert_def
      by (auto simp: wp_simps once_post_error intro!: wp_sql_pool post)
  qed (use w in \<open>auto simp: notifier_HandleConfirmed_def wp_simps once_post_error\<close>)
qed

definition unread_applied :: "env \<Rightarrow> payload \<Rightarrow> 'a notif_db_scheme \<Rightarrow> 'a notif_db_scheme \<Rightarrow> bool" where
  "unread_applied E p d d' \<longleftrightarrow> (\<exists>ev i. Unmarshal E TSubscriptionRemoved p = Inr ev \<and>
     delete_read (Email ev) (RepoName ev) i d = Inr ((), d'))"

definition unread_settled :: "env \<Rightarrow> payload \<Rightarrow> 'a notif_db_scheme \<Rightarrow> bool" where
  "unread_settled E p d \<longleftrightarrow> (\<exists>ev. Unmarshal E TSubscriptionRemoved p = Inr ev \<and>
     (\<forall>r \<in> set (subscriptions_read d). \<not> (rd_email r = Email ev \<and> rd_repo r = RepoName ev)))"

interpretation read_removed: exactly_once_handler E "notifier_HandleRemoved E" "unread_applied E" "unread_settled E" for E
proof
  show "unread_settled E p d'" if "unread_applied E p d d'" for p and d d' :: "'a notif_db_scheme"
    using that by (auto simp: unread_applied_def unread_settled_def delete_read_def)
  show "wp (notifier_HandleRemoved E p) (once_post (unread_applied E) (unread_settled E) p w) w"
    if w: "open_tx w = None" for p and w :: "'a notif_db_scheme world"
  proof (cases "Unmarshal E TSubscriptionRemoved p")
    case (Inr ev)
    have post: "once_post (unread_applied E) (unread_settled E) p w r (w\<lparr>ncalls := n, committed := d\<rparr>)"
      if del: "delete_read (Email ev) (RepoName ev) i (committed w) = Inr (u, d)" for r n d i u
    proof (cases "unread_settled E p (committed w)")
      case True
      then have "filter (\<lambda>r. \<not> (rd_email r = Email ev \<and> rd_repo r = RepoName ev)) (subscriptions_read (committed w)) =
          subscriptions_read (committed w)"
        using Inr by (intro filter_True) (auto simp: unread_settled_def)
      then have "d = committed w" using del by (simp add: delete_read_def)
      with True w show ?thesis by (simp add: once_post_def)
    next
      case False
      have "unread_settled E p d" using del Inr by (auto simp: unread_settled_def delete_read_def)
      moreover have "unread_applied E p (committed w) d" using del Inr by (auto simp: unread_applied_def)
      ultimately show ?thesis using False w by (simp add: once_post_def)
    qed
    show ?thesis
      using w Inr unfolding notifier_HandleRemoved_def readmodel_Removed_def read_Delete_def
      by (auto simp: wp_simps once_post_error intro!: wp_sql_pool post)
  qed (use w in \<open>auto simp: notifier_HandleRemoved_def wp_simps once_post_error\<close>)
qed

text \<open>The statements on the map.\<close>

lemma map_of_update_key:
  "(\<And>x. key (f x) = key x) \<Longrightarrow> map_of (map (\<lambda>x. (key (f x), val (f x))) xs) k =
   map_option val (map_option f (find (\<lambda>x. key x = k) xs))"
  by (induction xs) auto

lemma subscribers_find:
  "subscribers_of d k = map_option rd_token (find (\<lambda>r. (rd_email r, rd_repo r) = k) (subscriptions_read d))"
  unfolding subscribers_of_def
  using map_of_update_key [of "\<lambda>r. (rd_email r, rd_repo r)" "\<lambda>r. r" rd_token "subscriptions_read d" k]
  by (simp add: option.map_ident)

lemma subscribers_upsert:
  assumes "upsert_read email repo token i d = Inr (u, d')"
  shows "subscribers_of d' = (subscribers_of d)((email, repo) \<mapsto> token)"
proof
  fix k
  let ?key = "\<lambda>r. (rd_email r, rd_repo r)"
  let ?f = "\<lambda>r. if rd_email r = email \<and> rd_repo r = repo then r\<lparr>rd_token := token\<rparr> else r"
  show "subscribers_of d' k = ((subscribers_of d)((email, repo) \<mapsto> token)) k"
  proof (cases "\<exists>r \<in> set (subscriptions_read d). rd_email r = email \<and> rd_repo r = repo")
    case True
    then have d': "subscriptions_read d' = map ?f (subscriptions_read d)"
      using assms by (auto simp: upsert_read_def)
    have found: "find (\<lambda>r. ?key r = (email, repo)) (subscriptions_read d) \<noteq> None"
      using True by (auto simp: find_None_iff)
    have "?key (?f r) = ?key r" for r by simp
    from map_of_update_key [of ?key ?f rd_token "subscriptions_read d" k, OF this]
    have "subscribers_of d' k = map_option rd_token (map_option ?f (find (\<lambda>r. ?key r = k) (subscriptions_read d)))"
      by (simp only: subscribers_of_def d' map_map comp_def)
    moreover have "?key r = k" if "find (\<lambda>r. ?key r = k) (subscriptions_read d) = Some r" for r
      using that by (auto simp: find_Some_iff)
    ultimately show ?thesis
      using found by (cases "find (\<lambda>r. ?key r = k) (subscriptions_read d)") (auto simp: subscribers_find [of d])
  next
    case False
    then have d': "d' = d\<lparr>subscriptions_read := subscriptions_read d @ [\<lparr>rd_email = email, rd_repo = repo, rd_token = token\<rparr>]\<rparr>"
      using assms unfolding upsert_read_def if_not_P [OF False] by simp
    have "map_of (map (\<lambda>r. (?key r, rd_token r)) (subscriptions_read d)) (email, repo) = None"
      using False by (auto simp: map_of_eq_None_iff)
    then show ?thesis by (simp add: subscribers_of_def d' map_add_def split: option.splits)
  qed
qed

lemma subscribers_delete:
  assumes "delete_read email repo i d = Inr (u, d')"
  shows "subscribers_of d' = (subscribers_of d)((email, repo) := None)"
proof
  fix k
  have "map_of (map (\<lambda>r. ((rd_email r, rd_repo r), rd_token r))
      (filter (\<lambda>r. \<not> (rd_email r = email \<and> rd_repo r = repo)) rs)) k =
    (if k = (email, repo) then None else map_of (map (\<lambda>r. ((rd_email r, rd_repo r), rd_token r)) rs) k)" for rs
    by (induction rs) auto
  then show "subscribers_of d' k = ((subscribers_of d)((email, repo) := None)) k"
    using assms by (auto simp: delete_read_def subscribers_of_def)
qed

section \<open>The outcome of a release\<close>

text \<open>What \<open>recordOutcomes\<close> does for one recipient, and for all.\<close>

definition outcome_event :: "event \<Rightarrow> string list \<Rightarrow> read_row \<Rightarrow> string \<times> event" where
  "outcome_event ev failed r =
     (if rd_email r \<in> set failed
      then (SubjectNotificationReleaseFailed,
        NotificationReleaseFailed (SagaID ev) (RepoName ev) (Tag ev) (rd_email r) failureReason)
      else (SubjectNotificationReleaseSent,
        NotificationReleaseSent (SagaID ev) (RepoName ev) (Tag ev) (rd_email r)))"

definition carries :: "string \<times> event \<Rightarrow> outbox_row \<Rightarrow> bool" where
  "carries se row \<longleftrightarrow> ob_subject row = fst se \<and> ob_payload row = Doc (encode (snd se))"

definition recorded :: "event \<Rightarrow> string list \<Rightarrow> read_row list \<Rightarrow> 'a notif_db_scheme \<Rightarrow> 'a notif_db_scheme \<Rightarrow> bool" where
  "recorded ev failed rs d d' \<longleftrightarrow>
     (\<exists>ms fs. d' = d\<lparr>outbox := outbox d @ ms, failed_notifications := failed_notifications d @ fs\<rparr> \<and>
        list_all2 carries (map (outcome_event ev failed) rs) ms \<and>
        (\<forall>f \<in> set fs. fn_repo f = RepoName ev \<and> fn_tag f = Tag ev \<and> fn_email f \<in> rd_email ` set rs \<inter> set failed)) \<and>
     (\<forall>r \<in> set rs. rd_email r \<in> set failed \<longrightarrow> (\<exists>f \<in> set (failed_notifications d').
        fn_repo f = RepoName ev \<and> fn_tag f = Tag ev \<and> fn_email f = rd_email r))"

lemma recordedI:
  "d' = d\<lparr>outbox := outbox d @ ms, failed_notifications := failed_notifications d @ fs\<rparr> \<Longrightarrow>
   list_all2 carries (map (outcome_event ev failed) rs) ms \<Longrightarrow>
   (\<And>f. f \<in> set fs \<Longrightarrow> fn_repo f = RepoName ev \<and> fn_tag f = Tag ev \<and> fn_email f \<in> rd_email ` set rs \<inter> set failed) \<Longrightarrow>
   (\<And>r. r \<in> set rs \<Longrightarrow> rd_email r \<in> set failed \<Longrightarrow> \<exists>f \<in> set (failed_notifications d @ fs).
      fn_repo f = RepoName ev \<and> fn_tag f = Tag ev \<and> fn_email f = rd_email r) \<Longrightarrow>
   recorded ev failed rs d d'"
  unfolding recorded_def by auto

lemma recorded_Nil: "recorded ev failed [] d d"
  by (rule recordedI [of d d "[]" "[]"]) auto

lemma recorded_sent:
  "rd_email r \<notin> set failed \<Longrightarrow> recorded ev failed [r] d
     (with_message n SubjectNotificationReleaseSent
        (NotificationReleaseSent (SagaID ev) (RepoName ev) (Tag ev) (rd_email r)) d)"
  unfolding with_message_def
  by (rule recordedI [where fs = "[]"]) (auto simp: outcome_event_def carries_def)

lemma insert_failed_notification_row:
  assumes "insert_failed_notification saga repo tag url email reason i d = Inr (u, d')"
  obtains fs where "d' = d\<lparr>failed_notifications := failed_notifications d @ fs\<rparr>"
    and "\<forall>f \<in> set fs. fn_repo f = repo \<and> fn_tag f = tag \<and> fn_email f = email"
    and "\<exists>f \<in> set (failed_notifications d @ fs). fn_repo f = repo \<and> fn_tag f = tag \<and> fn_email f = email"
proof (cases "\<exists>f \<in> set (failed_notifications d). fn_repo f = repo \<and> fn_tag f = tag \<and> fn_email f = email")
  case True
  show thesis
    by (rule that [of "[]"]) (use True assms in \<open>simp_all add: insert_failed_notification_def\<close>)
next
  case False
  let ?f = "\<lparr>fn_id = st_id i, fn_saga = saga, fn_repo = repo, fn_tag = tag, fn_url = url, fn_email = email,
    fn_reason = reason, fn_retries = 0, fn_at = st_now i\<rparr>"
  show thesis
    by (rule that [of "[?f]"]) (use assms in \<open>simp_all only: insert_failed_notification_def if_not_P [OF False]\<close>, auto)
qed

lemma recorded_failed:
  assumes "rd_email r \<in> set failed"
    and "insert_failed_notification (SagaID ev) (RepoName ev) (Tag ev) url (rd_email r) failureReason i d = Inr (u, d1)"
  shows "recorded ev failed [r] d (with_message n SubjectNotificationReleaseFailed
      (NotificationReleaseFailed (SagaID ev) (RepoName ev) (Tag ev) (rd_email r) failureReason) d1)"
proof -
  from assms(2) obtain fs where fs: "d1 = d\<lparr>failed_notifications := failed_notifications d @ fs\<rparr>"
    "\<forall>f \<in> set fs. fn_repo f = RepoName ev \<and> fn_tag f = Tag ev \<and> fn_email f = rd_email r"
    "\<exists>f \<in> set (failed_notifications d @ fs). fn_repo f = RepoName ev \<and> fn_tag f = Tag ev \<and> fn_email f = rd_email r"
    by (rule insert_failed_notification_row)
  show ?thesis
    unfolding with_message_def fs(1)
    by (rule recordedI [where fs = fs and ms = "[\<lparr>ob_id = n, ob_subject = SubjectNotificationReleaseFailed,
          ob_payload = Doc (encode (NotificationReleaseFailed (SagaID ev) (RepoName ev) (Tag ev) (rd_email r) failureReason))\<rparr>]"])
      (use fs(2,3) assms(1) in \<open>auto simp: outcome_event_def carries_def\<close>)
qed

lemma recorded_append:
  assumes "recorded ev failed a d d1" and "recorded ev failed b d1 d2"
  shows "recorded ev failed (a @ b) d d2"
proof -
  from assms obtain ms fs ns gs where
    d1: "d1 = d\<lparr>outbox := outbox d @ ms, failed_notifications := failed_notifications d @ fs\<rparr>"
    and d2: "d2 = d1\<lparr>outbox := outbox d1 @ ns, failed_notifications := failed_notifications d1 @ gs\<rparr>"
    and ms: "list_all2 carries (map (outcome_event ev failed) a) ms" "list_all2 carries (map (outcome_event ev failed) b) ns"
    and fs: "\<forall>f \<in> set fs. fn_repo f = RepoName ev \<and> fn_tag f = Tag ev \<and> fn_email f \<in> rd_email ` set a \<inter> set failed"
      "\<forall>f \<in> set gs. fn_repo f = RepoName ev \<and> fn_tag f = Tag ev \<and> fn_email f \<in> rd_email ` set b \<inter> set failed"
    unfolding recorded_def by blast
  show ?thesis
  proof (rule recordedI)
    show "d2 = d\<lparr>outbox := outbox d @ (ms @ ns), failed_notifications := failed_notifications d @ (fs @ gs)\<rparr>"
      by (simp add: d1 d2)
    show "list_all2 carries (map (outcome_event ev failed) (a @ b)) (ms @ ns)"
      using ms by (simp add: list_all2_appendI)
    show "fn_repo f = RepoName ev \<and> fn_tag f = Tag ev \<and> fn_email f \<in> rd_email ` set (a @ b) \<inter> set failed"
      if "f \<in> set (fs @ gs)" for f
      using that fs by auto
    show "\<exists>f \<in> set (failed_notifications d @ fs @ gs). fn_repo f = RepoName ev \<and> fn_tag f = Tag ev \<and> fn_email f = rd_email r"
      if "r \<in> set (a @ b)" "rd_email r \<in> set failed" for r
      using that assms by (auto simp: recorded_def d1 d2)
  qed
qed

lemma tx_step_recordOutcomes:
  fixes ev :: event
  shows "tx_step (recordOutcomes E (c\<lparr>ctx_tx := True\<rparr>) ev failed rs) (\<lambda>_. recorded ev failed rs)"
proof (induction rs)
  case Nil
  show ?case by (simp, rule tx_step_mono [OF tx_step_ok]) (simp add: recorded_Nil)
next
  case (Cons r rs)
  have one: "tx_step (if rd_email r \<in> set failed
        then bindE (fn_Add E (c\<lparr>ctx_tx := True\<rparr>) (SagaID ev) (RepoName ev) (Tag ev) (ReleaseURL ev) (rd_email r) failureReason) (\<lambda>_.
          enqueue E (c\<lparr>ctx_tx := True\<rparr>) SubjectNotificationReleaseFailed
            (NotificationReleaseFailed (SagaID ev) (RepoName ev) (Tag ev) (rd_email r) failureReason))
        else enqueue E (c\<lparr>ctx_tx := True\<rparr>) SubjectNotificationReleaseSent
            (NotificationReleaseSent (SagaID ev) (RepoName ev) (Tag ev) (rd_email r)))
      (\<lambda>_. recorded ev failed [r])"
    unfolding fn_Add_def FromContext_tx
    by (rule tx_step_mono [OF tx_step_if [OF tx_step_bindE [OF tx_step_wrap [OF tx_step_sql] tx_step_enqueue] tx_step_enqueue]])
      (auto intro: recorded_sent recorded_failed split: if_splits)
  show ?case
    unfolding recordOutcomes.simps publisher_methods
    by (rule tx_step_mono [OF tx_step_bindE [OF one Cons.IH]])
      (use recorded_append [of ev failed "[r]"] in auto)
qed

text \<open>
  The commit of a release: the outcome of every recipient, the summary for the scanner and the
  mark that makes redeliveries no-ops.
\<close>

definition notification_of :: "string \<Rightarrow> event \<Rightarrow> read_row \<Rightarrow> ReleaseNotification" where
  "notification_of base ev r = \<lparr>To = rd_email r, Repo = RepoName ev, RelTag = Tag ev, RelURL = ReleaseURL ev,
     UnsubscribeURL = URLBuilder_UnsubscribeURL base (rd_token r)\<rparr>"

definition recipients_of :: "event \<Rightarrow> 'a notif_db_scheme \<Rightarrow> read_row list" where
  "recipients_of ev d = filter (\<lambda>r. rd_repo r = RepoName ev) (subscriptions_read d)"

definition summary :: "event \<Rightarrow> BatchResult \<Rightarrow> event" where
  "summary ev result = ReleaseNotified (SagaID ev) (RepoName ev) (Tag ev) (int (Sent result)) (Failed result)"

definition release_done :: "event \<Rightarrow> BatchResult \<Rightarrow> 'a notif_db_scheme \<Rightarrow> 'a notif_db_scheme \<Rightarrow> bool" where
  "release_done ev result d d' \<longleftrightarrow> (\<exists>d1 n i u. recorded ev (Failed result) (recipients_of ev d) d d1 \<and>
     insert_processed (RepoName ev) (Tag ev) i (with_message n SubjectReleaseNotified (summary ev result) d1) = Inr (u, d'))"

lemma is_processed_insert: "insert_processed repo tag i d = Inr (u, d') \<Longrightarrow> is_processed repo tag d'"
  by (auto simp: insert_processed_def is_processed_def split: if_splits)

lemma release_done_processed: "release_done ev result d d' \<Longrightarrow> is_processed (RepoName ev) (Tag ev) d'"
  by (auto simp: release_done_def intro: is_processed_insert)

definition release_body :: "env \<Rightarrow> event \<Rightarrow> BatchResult \<Rightarrow> read_row list \<Rightarrow> ctx \<Rightarrow>
    ('a notif_db_scheme world, error + unit) state" where
  "release_body E ev result rs txCtx =
     bindE (recordOutcomes E txCtx ev (Failed result) rs) (\<lambda>_.
     bindE (enqueue E txCtx SubjectReleaseNotified
       (ReleaseNotified (SagaID ev) (RepoName ev) (Tag ev) (int (Sent result)) (Failed result))) (\<lambda>_.
       pr_Mark E txCtx (RepoName ev) (Tag ev)))"

lemma tx_step_release:
  "tx_step (release_body E ev result (recipients_of ev d) (c\<lparr>ctx_tx := True\<rparr>))
     (\<lambda>_ d0 d'. d0 = d \<longrightarrow> release_done ev result d d')"
  unfolding release_body_def pr_Mark_def FromContext_tx
  by (rule tx_step_mono [OF tx_step_bindE [OF tx_step_recordOutcomes tx_step_bindE [OF tx_step_enqueue
        tx_step_wrap [OF tx_step_sql]]]])
    (auto simp: release_done_def summary_def)

text \<open>Delivering to the recipients, none of which is a special case.\<close>

lemma wp_notifyrelease_deliver:
  "wp (notifyrelease_deliver E M base ev rs)
    (\<lambda>r w'. \<exists>mails. mails_only mails w w' \<and> batch_result M (map (notification_of base ev) rs) r mails) w"
proof (cases "rs = []")
  case True
  have "mails_only [] w w" by (rule mails_only_refl)
  with True show ?thesis
    by (auto simp: notifyrelease_deliver_def wp_simps batch_result_def)
next
  case False
  then show ?thesis
    using wp_SendReleaseNotifications [of E M "map (notification_of base ev) rs" w]
    by (simp add: notifyrelease_deliver_def notification_of_def [abs_def])
qed

definition notified :: "mailer \<Rightarrow> string \<Rightarrow> event \<Rightarrow> 'a notif_db_scheme world \<Rightarrow> bool \<Rightarrow> 'a notif_db_scheme world \<Rightarrow> bool" where
  "notified M base ev w success w' \<longleftrightarrow> open_tx w' = None \<and> (\<exists>mails. trace w' = trace w @ mails \<and>
     (committed w' = committed w \<and> (success \<longrightarrow> is_processed (RepoName ev) (Tag ev) (committed w)) \<or>
      \<not> is_processed (RepoName ev) (Tag ev) (committed w) \<and>
      (\<exists>result. batch_result M (map (notification_of base ev) (recipients_of ev (committed w))) result mails \<and>
         release_done ev result (committed w) (committed w'))))"

lemma notified_error: "open_tx w' = None \<Longrightarrow> committed w' = committed w \<Longrightarrow> trace w' = trace w @ mails \<Longrightarrow> notified M base ev w False w'"
  by (auto simp: notified_def)

lemma wp_notifyrelease_Execute:
  fixes w :: "'a notif_db_scheme world"
  assumes c: "\<not> ctx_tx c" and w: "open_tx w = None"
  shows "wp (notifyrelease_Execute E M base c ev) (\<lambda>r. notified M base ev w (\<not> isl r)) w"
proof -
  let ?rs = "recipients_of ev (committed w)"
  let ?done = "is_processed (RepoName ev) (Tag ev) (committed w)"
  have commit: "wp (Within E c (release_body E ev result ?rs))
      (\<lambda>r w'. (\<forall>u. r = Inr u \<longrightarrow> notified M base ev w True (w'\<lparr>nudge := True\<rparr>)) \<and> notified M base ev w False w') w1"
    if nd: "\<not> ?done" and m: "mails_only mails (w\<lparr>ncalls := n\<rparr>) w1"
      and b: "batch_result M (map (notification_of base ev) ?rs) result mails" for result mails w1 n
    by (rule wp_Within_step [where fn = "release_body E ev result ?rs" and c = c and w = w1, OF c _ tx_step_release])
      (use mails_only_fields [OF m] w nd b in \<open>auto simp: notified_def\<close>)
  have deliver: "wp (notifyrelease_deliver E M base ev ?rs) (\<lambda>result. wp (Within E c (release_body E ev result ?rs))
      (\<lambda>r w'. (\<forall>u. r = Inr u \<longrightarrow> notified M base ev w True (w'\<lparr>nudge := True\<rparr>)) \<and> notified M base ev w False w'))
      (w\<lparr>ncalls := n\<rparr>)" if "\<not> ?done" for n
    by (rule wp_mono [OF wp_notifyrelease_deliver]) (use commit [OF that] in blast)
  have same: "notified M base ev w False (w\<lparr>ncalls := n\<rparr>)" for n
    using w by (auto intro: notified_error [where mails = "[]"])
  have skip: "notified M base ev w True (w\<lparr>ncalls := n\<rparr>)" if ?done for n
    using w that by (simp add: notified_def)
  have rest: "wp (bindE (wrap ''resolve recipients'' (RecipientsByRepo E (RepoName ev))) (\<lambda>recipients. do {
         result \<leftarrow> notifyrelease_deliver E M base ev recipients;
         bindE (wrap ''commit release outcome'' (Within E c (release_body E ev result recipients))) (\<lambda>_. do {
         _ \<leftarrow> Notify;
         ok (Sent result, Failed result)
       })})) (\<lambda>r. notified M base ev w (\<not> isl r)) (w\<lparr>ncalls := n\<rparr>)" if "\<not> ?done" for n
    unfolding RecipientsByRepo_eq wp_simps
    by (rule wp_sql_pool)
      (auto simp: select_read_def recipients_of_def [symmetric] wp_simps same
        intro!: wp_mono [OF deliver [OF that]] elim!: wp_mono split: sum.splits)
  show ?thesis
    unfolding notifyrelease_Execute_body release_body_def [symmetric] wp_bindE [of "wrap ''check processed release'' _"]
      wp_wrap pr_Exists_def QueryRow_def wp_bindE [of "sql E Pool _"] wp_liftE
    by (rule wp_sql_pool) (auto simp: Scan_def wp_simps(1) skip same rest)
qed

definition release_applied :: "env \<Rightarrow> payload \<Rightarrow> 'a notif_db_scheme \<Rightarrow> 'a notif_db_scheme \<Rightarrow> bool" where
  "release_applied E p d d' \<longleftrightarrow> (\<exists>ev result. Unmarshal E TReleaseDetected p = Inr ev \<and>
     Sent result + length (Failed result) = length (recipients_of ev d) \<and> release_done ev result d d')"

definition release_settled :: "env \<Rightarrow> payload \<Rightarrow> 'a notif_db_scheme \<Rightarrow> bool" where
  "release_settled E p d \<longleftrightarrow> (\<exists>ev. Unmarshal E TReleaseDetected p = Inr ev \<and> is_processed (RepoName ev) (Tag ev) d)"

lemma notified_once:
  assumes "notified M base ev w success w'" and "Unmarshal E TReleaseDetected p = Inr ev"
    and "r = Inr () \<longrightarrow> success"
  shows "once_post (release_applied E) (release_settled E) p w r w'"
  using assms release_done_processed [of ev _ "committed w" "committed w'"]
  unfolding notified_def once_post_def release_applied_def release_settled_def batch_result_def
  by (auto simp del: split_paired_Ex)

interpretation release_detected: exactly_once_handler E "notifier_HandleReleaseDetected E M base Background"
  "release_applied E" "release_settled E" for E M base
proof
  show "release_settled E p d'" if "release_applied E p d d'" for p and d d' :: "'a notif_db_scheme"
    using that release_done_processed unfolding release_applied_def release_settled_def by blast
  show "wp (notifier_HandleReleaseDetected E M base Background p) (once_post (release_applied E) (release_settled E) p w) w"
    if w: "open_tx w = None" for p and w :: "'a notif_db_scheme world"
  proof (cases "Unmarshal E TReleaseDetected p")
    case (Inr ev)
    show ?thesis
      using Inr unfolding notifier_HandleReleaseDetected_def
      by (auto simp: wp_simps split: sum.splits intro: notified_once
          intro!: wp_mono [OF wp_notifyrelease_Execute [where c = "WithSagaID Background (SagaID ev)", OF _ w]])
  qed (use w in \<open>auto simp: notifier_HandleReleaseDetected_def wp_simps once_post_error\<close>)
qed

lemma carries_outcome:
  "carries (outcome_event ev failed r) m \<Longrightarrow>
     ob_subject m = (if rd_email r \<in> set failed then SubjectNotificationReleaseFailed else SubjectNotificationReleaseSent)"
  by (auto simp: carries_def outcome_event_def split: if_splits)

lemma insert_processed_frame:
  "insert_processed repo tag i d = Inr (u, d') \<Longrightarrow> outbox d' = outbox d \<and> failed_notifications d' = failed_notifications d"
  by (auto simp: insert_processed_def split: if_splits)

lemma release_done_rows:
  assumes "release_done ev result d d'" and "r \<in> set (recipients_of ev d)" and "rd_email r \<in> set (Failed result)"
  shows "\<exists>f \<in> set (failed_notifications d'). fn_repo f = RepoName ev \<and> fn_tag f = Tag ev \<and> fn_email f = rd_email r"
proof -
  from assms(1) obtain d1 n i u where rec: "recorded ev (Failed result) (recipients_of ev d) d d1"
    and ins: "insert_processed (RepoName ev) (Tag ev) i (with_message n SubjectReleaseNotified (summary ev result) d1) = Inr (u, d')"
    unfolding release_done_def by blast
  have "failed_notifications d' = failed_notifications d1"
    using insert_processed_frame [OF ins] by (simp add: with_message_def)
  then show ?thesis using rec assms(2,3) unfolding recorded_def by simp
qed

lemma release_done_explicit:
  assumes "release_done ev result d d'"
  shows "\<exists>ms n. outbox d' = outbox d @ ms @ [\<lparr>ob_id = n, ob_subject = SubjectReleaseNotified,
        ob_payload = Doc (encode (ReleaseNotified (SagaID ev) (RepoName ev) (Tag ev) (int (Sent result)) (Failed result)))\<rparr>] \<and>
      list_all2 (\<lambda>r m. if rd_email r \<in> set (Failed result)
        then ob_subject m = SubjectNotificationReleaseFailed \<and> (\<exists>f \<in> set (failed_notifications d').
          fn_repo f = RepoName ev \<and> fn_tag f = Tag ev \<and> fn_email f = rd_email r)
        else ob_subject m = SubjectNotificationReleaseSent) (recipients_of ev d) ms"
proof -
  from assms obtain d1 n i u where rec: "recorded ev (Failed result) (recipients_of ev d) d d1"
    and ins: "insert_processed (RepoName ev) (Tag ev) i (with_message n SubjectReleaseNotified (summary ev result) d1) = Inr (u, d')"
    unfolding release_done_def by blast
  have d': "outbox d' = outbox d1 @ [\<lparr>ob_id = n, ob_subject = SubjectReleaseNotified,
      ob_payload = Doc (encode (summary ev result))\<rparr>]"
    using insert_processed_frame [OF ins] by simp
  from rec obtain ms where ms: "outbox d1 = outbox d @ ms"
    "list_all2 carries (map (outcome_event ev (Failed result)) (recipients_of ev d)) ms"
    unfolding recorded_def by auto
  have "list_all2 (\<lambda>r m. r \<in> set (recipients_of ev d) \<and> carries (outcome_event ev (Failed result) r) m) (recipients_of ev d) ms"
    using ms(2) by (auto simp: list_all2_conv_all_nth)
  then have "list_all2 (\<lambda>r m. if rd_email r \<in> set (Failed result)
        then ob_subject m = SubjectNotificationReleaseFailed \<and> (\<exists>f \<in> set (failed_notifications d').
          fn_repo f = RepoName ev \<and> fn_tag f = Tag ev \<and> fn_email f = rd_email r)
        else ob_subject m = SubjectNotificationReleaseSent) (recipients_of ev d) ms"
    by (rule list_all2_mono) (use release_done_rows [OF assms] carries_outcome in auto)
  then show ?thesis using d' ms(1) by (auto simp: summary_def)
qed

section \<open>The properties of the notifier\<close>

definition demo_notif_db :: notif_db where
  "demo_notif_db = \<lparr>outbox = [], subscriptions_read = [\<lparr>rd_email = ''a@b'', rd_repo = ''a/b'', rd_token = ''t''\<rparr>],
     failed_notifications = [], failed_confirmations = [], processed_releases = []\<rparr>"

definition demo_detected :: payload where
  "demo_detected = Doc (JObj [(''sagaID'', JStr ''u1''), (''repoName'', JStr ''a/b''), (''tag'', JStr ''v2''),
     (''releaseURL'', JStr ''https:u'')])"

definition demo_read_confirmed :: payload where
  "demo_read_confirmed = Doc (JObj [(''sagaID'', JStr ''u1''), (''email'', JStr ''c@d''), (''repoName'', JStr ''a/b''),
     (''unsubToken'', JStr ''s'')])"

lemma demo_notif_decode:
  "Unmarshal (faulty_env fs) TReleaseDetected demo_detected = Inr (ReleaseDetected ''u1'' ''a/b'' ''v2'' ''https:u'')"
  "Unmarshal (faulty_env fs) TSubscriptionConfirmed demo_read_confirmed = Inr (SubscriptionConfirmed ''u1'' ''c@d'' ''a/b'' ''s'')"
  by (simp_all add: demo_detected_def demo_read_confirmed_def Unmarshal_def zero_struct_def field_index_def
      eventValidator_Struct_def valid_fields_def repoRegex_MatchString_def repo_char_def char_between_def)

lemmas notifier_run_simps =
  Consume_def maxDeliver_def numeral_eq_Suc dispatch_def acknowledge_def
  notifier_HandleReleaseDetected_def notifier_HandleConfirmed_def notifyrelease_Execute_body notifyrelease_deliver_def
  readmodel_Confirmed_def read_Upsert_def upsert_read_def decode_event_def demo_notif_decode pr_Exists_def
  RecipientsByRepo_eq select_read_def SendReleaseNotifications_def sendBatch_def smtp_Dial_def smtp_Send_def
  select_done_def fn_Add_def insert_failed_notification_def failureReason_def pr_Mark_def insert_processed_def is_processed_def QueryRow_def Scan_def sql_def run_pool_def run_tx_def
  demo_notif_db_def fresh_world_def bindE_def wrap_def liftE_def disposition_of_def
  Within_def Begin_def Commit_def Rollback_def Notify_def FromContext_def Background_def WithSagaID_def
  enqueue_def Enqueue_def insert_outbox_def Marshal_def eventValidator_Struct_def valid_fields_def
  repoRegex_MatchString_def repo_char_def char_between_def in_int64_def Let_def

text \<open>
  The constraints of the notifier's schema hold in every reachable state: each
  consumer and each maintenance tick (retries, dead letters and pruning), with any failures,
  keeps the pair unique in the read model, one failed notification per (repository, tag, e-mail), one
  failed confirmation per pair, one processed mark per release, and ids unique and below the
  sequence.
\<close>

lemma notifier_schema_invariant:
  fixes w :: "'a notif_db_scheme world"
  assumes "open_tx w = None" and "notif_wf (ncalls w) (committed w)"
    and "(\<exists>stream subject handler p r. (stream, subject, handler) \<in> set (notifier_consumers E M base c) \<and>
        run_state (handler p) w = (r, w')) \<or>
      run_state (maintenanceTick E M base cfg ttl c) w = ((), w')"
  shows "notif_wf (ncalls w') (committed w')"
  using assms(3)
  by (elim disjE exE conjE)
    (rule preserves_committed [where P = notif_wf, OF notif_wf.preserves_consumers assms(2,1)]
      preserves_committed [where P = notif_wf, OF notif_wf.preserves_maintenance assms(2,1)], assumption+)+

text \<open>
  \<^bold>\<open>C22.\<close> The read model is a projection of the subscription events
  (\<open>readmodel/readmodel.go\<close>): seen as a map from (e-mail, repository) to the unsubscribe token,
  the deliveries of a \<open>subscriptions.confirmed\<close> message leave the map or update it at the
  pair, and those of \<open>subscriptions.removed\<close> leave it or delete the pair; after an acknowledged
  delivery the map has the token of the event, or no entry for the pair.
\<close>

theorem read_model_projection:
  fixes w :: "'a notif_db_scheme world"
  assumes "open_tx w = None" and "Unmarshal E ty p = Inr ev"
    and "ty = TSubscriptionConfirmed \<and> handler = notifier_HandleConfirmed E \<and> entry = Some (UnsubToken ev) \<or>
      ty = TSubscriptionRemoved \<and> handler = notifier_HandleRemoved E \<and> entry = None"
    and "run_state (Consume E handler p) w = (ds, w')"
  shows "(subscribers_of (committed w') = subscribers_of (committed w) \<or>
      subscribers_of (committed w') = (subscribers_of (committed w))((Email ev, RepoName ev) := entry)) \<and>
    (Ack \<in> set ds \<longrightarrow> subscribers_of (committed w') (Email ev, RepoName ev) = entry)"
  using assms(3)
proof
  assume c: "ty = TSubscriptionConfirmed \<and> handler = notifier_HandleConfirmed E \<and> entry = Some (UnsubToken ev)"
  have post: "(committed w' = committed w \<or> read_applied E p (committed w) (committed w')) \<and>
      (Ack \<in> set ds \<longrightarrow> read_settled E p (committed w'))"
    using wpD [OF read_confirmed.deliver_once [OF assms(1)], of maxDeliver E p ds w'] assms(4) c by (simp add: Consume_def)
  have "subscribers_of d (Email ev, RepoName ev) = entry" if "read_settled E p d" for d :: "'a notif_db_scheme"
    using that assms(2) c upsert_read_again [of d "Email ev" "RepoName ev" "UnsubToken ev" undefined]
      subscribers_upsert [of "Email ev" "RepoName ev" "UnsubToken ev" undefined d "()" d]
    by (auto simp: read_settled_def) (metis fun_upd_same)
  then show ?thesis
    using post assms(2) c by (auto simp: read_applied_def dest!: subscribers_upsert)
next
  assume c: "ty = TSubscriptionRemoved \<and> handler = notifier_HandleRemoved E \<and> entry = None"
  have post: "(committed w' = committed w \<or> unread_applied E p (committed w) (committed w')) \<and>
      (Ack \<in> set ds \<longrightarrow> unread_settled E p (committed w'))"
    using wpD [OF read_removed.deliver_once [OF assms(1)], of maxDeliver E p ds w'] assms(4) c by (simp add: Consume_def)
  have "subscribers_of d (Email ev, RepoName ev) = entry" if "unread_settled E p d" for d :: "'a notif_db_scheme"
    using that assms(2) c by (auto simp: unread_settled_def subscribers_of_def map_of_eq_None_iff)
  then show ?thesis
    using post assms(2) c by (auto simp: unread_applied_def dest!: subscribers_delete)
qed

theorem read_model_projection_witness:
  "subscribers_of (committed (snd (run_state (Consume (faulty_env [(1, Lost ''x'')])
     (notifier_HandleConfirmed (faulty_env [(1, Lost ''x'')])) demo_read_confirmed) (fresh_world demo_notif_db))))
     (''c@d'', ''a/b'') = Some ''s''"
proof -
  let ?E = "faulty_env [(1, Lost ''x'')]"
  let ?run = "run_state (Consume ?E (notifier_HandleConfirmed ?E) demo_read_confirmed) (fresh_world demo_notif_db)"
  have "Ack \<in> set (fst ?run)" by (simp add: notifier_run_simps)
  then show ?thesis
    using read_model_projection [of "fresh_world demo_notif_db" ?E TSubscriptionConfirmed demo_read_confirmed
        "SubscriptionConfirmed ''u1'' ''c@d'' ''a/b'' ''s''" "notifier_HandleConfirmed ?E" "Some ''s''" "fst ?run" "snd ?run"]
    by (simp add: demo_notif_decode)
qed

text \<open>
  \<^bold>\<open>C8.\<close> A release is recorded exactly once (\<open>notifyrelease/notify_release.go\<close> behind the
  consumer): over all deliveries of one \<open>releases.detected\<close> message, with any failures, the
  database is unchanged or one commit holds the whole outcome. That commit has one outbox
  message per recipient, in the order of the read model, saying sent or failed; a row to retry for every
  recipient that failed; and one \<open>releases.notified\<close> summary whose counts add up to the
  recipients. An acknowledged message is marked as processed.
\<close>

theorem release_recorded_once:
  fixes w :: "'a notif_db_scheme world"
  assumes "open_tx w = None"
    and "run_state (Consume E (notifier_HandleReleaseDetected E M base Background) p) w = (ds, w')"
  shows "(committed w' = committed w \<or>
      (\<exists>ev sent failed ms n. Unmarshal E TReleaseDetected p = Inr ev \<and>
        sent + length failed = length (filter (\<lambda>r. rd_repo r = RepoName ev) (subscriptions_read (committed w))) \<and>
        outbox (committed w') = outbox (committed w) @ ms @ [\<lparr>ob_id = n, ob_subject = SubjectReleaseNotified,
          ob_payload = Doc (encode (ReleaseNotified (SagaID ev) (RepoName ev) (Tag ev) (int sent) failed))\<rparr>] \<and>
        list_all2 (\<lambda>r m. if rd_email r \<in> set failed
          then ob_subject m = SubjectNotificationReleaseFailed \<and> (\<exists>f \<in> set (failed_notifications (committed w')).
            fn_repo f = RepoName ev \<and> fn_tag f = Tag ev \<and> fn_email f = rd_email r)
          else ob_subject m = SubjectNotificationReleaseSent)
        (filter (\<lambda>r. rd_repo r = RepoName ev) (subscriptions_read (committed w))) ms)) \<and>
    (Ack \<in> set ds \<longrightarrow> (\<exists>ev. Unmarshal E TReleaseDetected p = Inr ev \<and> is_processed (RepoName ev) (Tag ev) (committed w')))"
proof -
  have post: "committed w' = committed w \<or> release_applied E p (committed w) (committed w')"
    "Ack \<in> set ds \<longrightarrow> release_settled E p (committed w')"
    using wpD [OF release_detected.deliver_once [OF assms(1)] assms(2) [unfolded Consume_def]] by blast+
  show ?thesis
  proof (rule conjI)
    show "Ack \<in> set ds \<longrightarrow> (\<exists>ev. Unmarshal E TReleaseDetected p = Inr ev \<and> is_processed (RepoName ev) (Tag ev) (committed w'))"
      using post(2) by (simp add: release_settled_def)
    show "committed w' = committed w \<or>
      (\<exists>ev sent failed ms n. Unmarshal E TReleaseDetected p = Inr ev \<and>
        sent + length failed = length (filter (\<lambda>r. rd_repo r = RepoName ev) (subscriptions_read (committed w))) \<and>
        outbox (committed w') = outbox (committed w) @ ms @ [\<lparr>ob_id = n, ob_subject = SubjectReleaseNotified,
          ob_payload = Doc (encode (ReleaseNotified (SagaID ev) (RepoName ev) (Tag ev) (int sent) failed))\<rparr>] \<and>
        list_all2 (\<lambda>r m. if rd_email r \<in> set failed
          then ob_subject m = SubjectNotificationReleaseFailed \<and> (\<exists>f \<in> set (failed_notifications (committed w')).
            fn_repo f = RepoName ev \<and> fn_tag f = Tag ev \<and> fn_email f = rd_email r)
          else ob_subject m = SubjectNotificationReleaseSent)
        (filter (\<lambda>r. rd_repo r = RepoName ev) (subscriptions_read (committed w))) ms)"
      using post(1) release_done_explicit [of _ _ "committed w" "committed w'"]
      unfolding release_applied_def recipients_of_def by blast
  qed
qed

lemma demo_message:
  "To n \<noteq> [] \<Longrightarrow> \<exists>m. buildReleaseMessage demo_mailer n = Inr m"
  by (auto simp: buildReleaseMessage_def renderTemplate_def buildMessage_def demo_mailer_def)

theorem release_recorded_once_witness:
  "\<exists>ev. Unmarshal (faulty_env [(6, Lost ''x'')]) TReleaseDetected demo_detected = Inr ev \<and>
     is_processed (RepoName ev) (Tag ev) (committed (snd (run_state (Consume (faulty_env [(6, Lost ''x'')])
       (notifier_HandleReleaseDetected (faulty_env [(6, Lost ''x'')]) demo_mailer ''b'' Background) demo_detected)
       (fresh_world demo_notif_db))))"
proof -
  let ?E = "faulty_env [(6, Lost ''x'')]"
  let ?run = "run_state (Consume ?E (notifier_HandleReleaseDetected ?E demo_mailer ''b'' Background) demo_detected) (fresh_world demo_notif_db)"
  obtain m where "buildReleaseMessage demo_mailer \<lparr>To = ''a@b'', Repo = ''a/b'', RelTag = ''v2'', RelURL = ''https:u'',
      UnsubscribeURL = URLBuilder_UnsubscribeURL ''b'' ''t''\<rparr> = Inr m"
    using demo_message [of "\<lparr>To = ''a@b'', Repo = ''a/b'', RelTag = ''v2'', RelURL = ''https:u'',
      UnsubscribeURL = URLBuilder_UnsubscribeURL ''b'' ''t''\<rparr>"] by auto
  then have "Ack \<in> set (fst ?run)" by (simp add: notifier_run_simps)
  then show ?thesis
    using release_recorded_once [of "fresh_world demo_notif_db" ?E demo_mailer "''b''" demo_detected "fst ?run" "snd ?run"] by auto
qed

text \<open>
  \<^bold>\<open>C11.\<close> Nobody is forgotten: when a delivery of a new release is handled without an error, every
  confirmed subscriber of the repository was handed its mail during that delivery, with
  the unsubscribe link of its own token, or is recorded for a retry of exactly that release.
\<close>

theorem release_reaches_everyone:
  fixes w :: "'a notif_db_scheme world"
  assumes "open_tx w = None" and "Unmarshal E TReleaseDetected p = Inr ev"
    and "\<not> is_processed (RepoName ev) (Tag ev) (committed w)"
    and "run_state (notifier_HandleReleaseDetected E M base Background p) w = (Inr (), w')"
    and "r \<in> set (subscriptions_read (committed w))" and "rd_repo r = RepoName ev"
  shows "(\<exists>m. buildReleaseMessage M \<lparr>To = rd_email r, Repo = RepoName ev, RelTag = Tag ev, RelURL = ReleaseURL ev,
        UnsubscribeURL = URLBuilder_UnsubscribeURL base (rd_token r)\<rparr> = Inr m \<and>
      Mailed (msg_To m) (msg_Subject m) (msg_Body m) \<in> set (drop (length (trace w)) (trace w'))) \<or>
    (\<exists>f \<in> set (failed_notifications (committed w')).
       fn_repo f = RepoName ev \<and> fn_tag f = Tag ev \<and> fn_email f = rd_email r)"
proof -
  have "wp (notifier_HandleReleaseDetected E M base Background p) (\<lambda>r. notified M base ev w (\<not> isl r)) w"
    using assms(2) unfolding notifier_HandleReleaseDetected_def
    by (auto simp: wp_simps split: sum.splits
        intro!: wp_mono [OF wp_notifyrelease_Execute [where c = "WithSagaID Background (SagaID ev)", OF _ assms(1)]])
  from wpD [OF this assms(4)] assms(3) obtain mails result where tr: "trace w' = trace w @ mails"
    and batch: "batch_result M (map (notification_of base ev) (recipients_of ev (committed w))) result mails"
    and rd: "release_done ev result (committed w) (committed w')"
    by (auto simp: notified_def)
  have r: "r \<in> set (recipients_of ev (committed w))" using assms(5,6) by (simp add: recipients_of_def)
  show ?thesis
  proof (cases "rd_email r \<in> set (Failed result)")
    case True
    then show ?thesis using release_done_rows [OF rd r] by blast
  next
    case False
    with batch r tr show ?thesis by (auto simp: batch_result_def notification_of_def)
  qed
qed

theorem release_reaches_everyone_witness:
  "\<exists>f \<in> set (failed_notifications (committed (snd (run_state (notifier_HandleReleaseDetected (faulty_env [(4, Fails ''dial'')])
     demo_mailer ''b'' Background demo_detected) (fresh_world demo_notif_db))))).
     fn_repo f = ''a/b'' \<and> fn_tag f = ''v2'' \<and> fn_email f = ''a@b''"
proof -
  let ?E = "faulty_env [(4, Fails ''dial'')]"
  let ?run = "run_state (notifier_HandleReleaseDetected ?E demo_mailer ''b'' Background demo_detected) (fresh_world demo_notif_db)"
  obtain m where m: "buildReleaseMessage demo_mailer \<lparr>To = ''a@b'', Repo = ''a/b'', RelTag = ''v2'', RelURL = ''https:u'',
      UnsubscribeURL = URLBuilder_UnsubscribeURL ''b'' ''t''\<rparr> = Inr m"
    using demo_message [of "\<lparr>To = ''a@b'', Repo = ''a/b'', RelTag = ''v2'', RelURL = ''https:u'',
      UnsubscribeURL = URLBuilder_UnsubscribeURL ''b'' ''t''\<rparr>"] by auto
  then have "fst ?run = Inr ()" "trace (snd ?run) = []" by (simp_all add: notifier_run_simps)
  moreover have "\<not> is_processed ''a/b'' ''v2'' demo_notif_db" by (simp add: is_processed_def demo_notif_db_def)
  ultimately show ?thesis
    using release_reaches_everyone [of "fresh_world demo_notif_db" ?E demo_detected
        "ReleaseDetected ''u1'' ''a/b'' ''v2'' ''https:u''" demo_mailer "''b''" "snd ?run"
        "\<lparr>rd_email = ''a@b'', rd_repo = ''a/b'', rd_token = ''t''\<rparr>"]
    by (simp add: demo_notif_decode prod_eq_iff) (simp add: demo_notif_db_def)
qed

end
