(* ===== verification/Retry_Spec.thy ===== *)
theory Retry_Spec
  imports Notifier_Spec
begin

text \<open>
  Confirmations and retries of the notifier (\<open>usecase/sendconfirmation\<close>, \<open>usecase/retry\<close>): the
  fate of every confirmation and of every row the retrier takes up, and the budget of attempts.
\<close>

section \<open>One commit\<close>

definition without_notification :: "nat \<Rightarrow> 'a notif_db_scheme \<Rightarrow> 'a notif_db_scheme" where
  "without_notification rid d = d\<lparr>failed_notifications := filter (\<lambda>f. fn_id f \<noteq> rid) (failed_notifications d)\<rparr>"

definition without_confirmation :: "nat \<Rightarrow> 'a notif_db_scheme \<Rightarrow> 'a notif_db_scheme" where
  "without_confirmation rid d = d\<lparr>failed_confirmations := filter (\<lambda>f. fc_id f \<noteq> rid) (failed_confirmations d)\<rparr>"

lemma tx_step_take_notification:
  "tx_step (bindE (fn_Delete E (c\<lparr>ctx_tx := True\<rparr>) rid) (\<lambda>_. enqueue E (c\<lparr>ctx_tx := True\<rparr>) s ev))
     (\<lambda>_ d d'. \<exists>n. d' = with_message n s ev (without_notification rid d))"
  unfolding fn_Delete_def FromContext_tx
  by (rule tx_step_mono [OF tx_step_bindE [OF tx_step_wrap [OF tx_step_sql] tx_step_enqueue]])
    (auto simp: delete_notification_def without_notification_def)

lemma tx_step_take_confirmation:
  "tx_step (bindE (fc_Delete E (c\<lparr>ctx_tx := True\<rparr>) rid) (\<lambda>_. enqueue E (c\<lparr>ctx_tx := True\<rparr>) s ev))
     (\<lambda>_ d d'. \<exists>n. d' = with_message n s ev (without_confirmation rid d))"
  unfolding fc_Delete_def FromContext_tx
  by (rule tx_step_mono [OF tx_step_bindE [OF tx_step_wrap [OF tx_step_sql] tx_step_enqueue]])
    (auto simp: delete_confirmation_def without_confirmation_def)

text \<open>\<open>deleteAndPublish\<close> applies its body once or not at all, and sends nothing itself.\<close>

lemma wp_deleteAndPublish:
  assumes "\<not> ctx_tx c" and "open_tx w = None" and "tx_step (fn (c\<lparr>ctx_tx := True\<rparr>)) (\<lambda>_. R)"
    and "\<And>w'. open_tx w' = None \<Longrightarrow> trace w' = trace w \<Longrightarrow>
      committed w' = committed w \<or> R (committed w) (committed w') \<Longrightarrow> Q () w'"
  shows "wp (deleteAndPublish E c fn) Q w"
  unfolding deleteAndPublish_def wp_bind
  by (rule wp_Within_step [where fn = fn and c = c and w = w, OF assms(1-3)])
    (auto simp: wp_simps assms(2) intro!: assms(4) split: sum.splits)

lemma wp_take_notification:
  assumes "\<not> ctx_tx c" and "open_tx w = None"
    and "\<And>w' n. open_tx w' = None \<Longrightarrow> trace w' = trace w \<Longrightarrow> committed w' = committed w \<or>
      committed w' = with_message n s ev (without_notification rid (committed w)) \<Longrightarrow> Q () w'"
  shows "wp (deleteAndPublish E c (\<lambda>txCtx. bindE (fn_Delete E txCtx rid) (\<lambda>_. enqueue E txCtx s ev))) Q w"
  by (rule wp_deleteAndPublish [where c = c and w = w and R = "\<lambda>d d'. \<exists>n. d' = with_message n s ev (without_notification rid d)"
        and fn = "\<lambda>txCtx. bindE (fn_Delete E txCtx rid) (\<lambda>_. enqueue E txCtx s ev)", OF assms(1,2) tx_step_take_notification])
    (use assms(3) in blast)

lemma wp_take_confirmation:
  assumes "\<not> ctx_tx c" and "open_tx w = None"
    and "\<And>w' n. open_tx w' = None \<Longrightarrow> trace w' = trace w \<Longrightarrow> committed w' = committed w \<or>
      committed w' = with_message n s ev (without_confirmation rid (committed w)) \<Longrightarrow> Q () w'"
  shows "wp (deleteAndPublish E c (\<lambda>txCtx. bindE (fc_Delete E txCtx rid) (\<lambda>_. enqueue E txCtx s ev))) Q w"
  by (rule wp_deleteAndPublish [where c = c and w = w and R = "\<lambda>d d'. \<exists>n. d' = with_message n s ev (without_confirmation rid d)"
        and fn = "\<lambda>txCtx. bindE (fc_Delete E txCtx rid) (\<lambda>_. enqueue E txCtx s ev)", OF assms(1,2) tx_step_take_confirmation])
    (use assms(3) in blast)

section \<open>Sending a confirmation\<close>

definition confirmation_failed :: "event \<Rightarrow> string \<Rightarrow> 'a notif_db_scheme \<Rightarrow> 'a notif_db_scheme \<Rightarrow> bool" where
  "confirmation_failed ev reason d d' \<longleftrightarrow> (\<exists>n fcs. d' = with_message n SubjectNotificationConfirmationFailed
       (NotificationConfirmationFailed (SagaID ev) (Email ev) reason)
       (d\<lparr>failed_confirmations := failed_confirmations d @ fcs\<rparr>)) \<and>
     (\<exists>f \<in> set (failed_confirmations d'). fc_email f = Email ev \<and> fc_repo f = RepoName ev)"

lemma insert_failed_confirmation_row:
  assumes "insert_failed_confirmation saga email repo url reason i d = Inr (u, d')"
  shows "(\<exists>fcs. d' = d\<lparr>failed_confirmations := failed_confirmations d @ fcs\<rparr>) \<and>
    (\<exists>f \<in> set (failed_confirmations d'). fc_email f = email \<and> fc_repo f = repo)"
  using assms
  by (cases "\<exists>f \<in> set (failed_confirmations d). fc_email f = email \<and> fc_repo f = repo")
    (auto simp: insert_failed_confirmation_def intro: exI [where x = "[]"])

lemma tx_step_confirmation_failed:
  "tx_step (bindE (fc_Add E (c\<lparr>ctx_tx := True\<rparr>) (SagaID ev) (Email ev) (RepoName ev) url reason) (\<lambda>_.
       enqueue E (c\<lparr>ctx_tx := True\<rparr>) SubjectNotificationConfirmationFailed
         (NotificationConfirmationFailed (SagaID ev) (Email ev) reason)))
     (\<lambda>_. confirmation_failed ev reason)"
  unfolding fc_Add_def FromContext_tx
  by (rule tx_step_mono [OF tx_step_bindE [OF tx_step_wrap [OF tx_step_sql] tx_step_enqueue]])
    (use insert_failed_confirmation_row in \<open>fastforce simp: confirmation_failed_def with_message_def\<close>)

definition confirmation_outcome :: "mailer \<Rightarrow> event \<Rightarrow> 'a notif_db_scheme world \<Rightarrow> bool \<Rightarrow> 'a notif_db_scheme world \<Rightarrow> bool" where
  "confirmation_outcome M ev w success w' \<longleftrightarrow> open_tx w' = None \<and> (\<exists>mails. trace w' = trace w @ mails \<and>
     (committed w' = committed w \<and> \<not> success \<or>
      (\<exists>reason. confirmation_failed ev reason (committed w) (committed w')) \<or>
      (\<exists>msg n. buildConfirmation M (Email ev) (RepoName ev) (ConfirmURL ev) = Inr msg \<and> mailed msg \<in> set mails \<and>
         committed w' = with_message n SubjectNotificationConfirmationSent
           (NotificationConfirmationSent (SagaID ev) (Email ev)) (committed w))))"

lemma wp_sendconfirmation_Execute:
  fixes w :: "'a notif_db_scheme world"
  assumes c: "\<not> ctx_tx c" and w: "open_tx w = None"
  shows "wp (sendconfirmation_Execute E M c ev) (\<lambda>r. confirmation_outcome M ev w (\<not> isl r)) w"
  unfolding sendconfirmation_Execute_body wp_bind
proof (rule wp_DeliverConfirmation, goal_cases)
  case (1 e mails w1)
  note m = mails_only_fields [OF 1]
  show ?case
    unfolding sum.case wp_bindE wp_wrap
    by (rule wp_Within_step [where R = "\<lambda>_. confirmation_failed ev (Error e)"], rule c, simp add: m w,
        rule tx_step_confirmation_failed)
      (use m w in \<open>auto simp: wp_simps confirmation_outcome_def split: sum.splits\<close>)
next
  case (2 msg mails w1)
  note m = mails_only_fields [OF 2(2)]
  show ?case
    unfolding sum.case wp_bindE wp_wrap
    by (rule wp_Within_step [where R = "\<lambda>_ d d'. \<exists>n. d' = with_message n SubjectNotificationConfirmationSent
          (NotificationConfirmationSent (SagaID ev) (Email ev)) d"], rule c, simp add: m w, rule tx_step_enqueue)
      (use m w 2 in \<open>auto simp: wp_simps confirmation_outcome_def split: sum.splits\<close>)
qed

section \<open>Retrying\<close>

lemma wp_Recipient:
  assumes "\<And>e. \<not> errors_Is e ErrNotFound \<Longrightarrow> Q (Inl e) (w\<lparr>ncalls := Suc (ncalls w)\<rparr>)"
    and "\<nexists>r. r \<in> set (subscriptions_read (committed w)) \<and> rd_email r = email \<and> rd_repo r = repo \<Longrightarrow>
      Q (Inl (Sentinel ErrNotFound)) (w\<lparr>ncalls := Suc (ncalls w)\<rparr>)"
    and "\<And>r. r \<in> set (subscriptions_read (committed w)) \<Longrightarrow> rd_email r = email \<Longrightarrow> rd_repo r = repo \<Longrightarrow>
      Q (Inr r) (w\<lparr>ncalls := Suc (ncalls w)\<rparr>)"
  shows "wp (Recipient E email repo) Q w"
proof -
  let ?rows = "filter (\<lambda>r. rd_email r = email \<and> rd_repo r = repo) (subscriptions_read (committed w))"
  have one: "r \<in> set (subscriptions_read (committed w)) \<and> rd_email r = email \<and> rd_repo r = repo" if "?rows = [r]" for r
    using arg_cong [OF that, of set] by auto
  have none: "\<nexists>r. r \<in> set (subscriptions_read (committed w)) \<and> rd_email r = email \<and> rd_repo r = repo" if "?rows = []"
    using that by (auto simp: filter_empty_conv)
  show ?thesis
    unfolding Recipient_eq wp_bindE wp_wrap
    by (rule wp_sql_pool)
      (auto simp: select_read_def exactly_one_def wp_simps
        intro!: assms(1) assms(2) [OF none] assms(3) dest: one split: list.splits)
qed

text \<open>What a retry of a release may make of its row.\<close>

definition retried_notification :: "nat \<Rightarrow> 'a notif_db_scheme \<Rightarrow> 'a notif_db_scheme" where
  "retried_notification rid d = d\<lparr>failed_notifications :=
     map (\<lambda>f. if fn_id f = rid then f\<lparr>fn_retries := fn_retries f + 1\<rparr> else f) (failed_notifications d)\<rparr>"

definition release_fate :: "mailer \<Rightarrow> string \<Rightarrow> retry_config \<Rightarrow> failed_notification \<Rightarrow>
    'a notif_db_scheme world \<Rightarrow> 'a notif_db_scheme world \<Rightarrow> bool" where
  "release_fate M base cfg fn w w' \<longleftrightarrow> open_tx w' = None \<and> (\<exists>mails. trace w' = trace w @ mails \<and>
     (committed w' = committed w \<or>
      (\<nexists>r. r \<in> set (subscriptions_read (committed w)) \<and> rd_email r = fn_email fn \<and> rd_repo r = fn_repo fn) \<and>
        committed w' = without_notification (fn_id fn) (committed w) \<or>
      (\<exists>r m n. r \<in> set (subscriptions_read (committed w)) \<and> rd_email r = fn_email fn \<and> rd_repo r = fn_repo fn \<and>
        buildReleaseMessage M \<lparr>To = fn_email fn, Repo = fn_repo fn, RelTag = fn_tag fn, RelURL = fn_url fn,
          UnsubscribeURL = URLBuilder_UnsubscribeURL base (rd_token r)\<rparr> = Inr m \<and> mailed m \<in> set mails \<and>
        committed w' = with_message n SubjectNotificationReleaseSent
          (NotificationReleaseSent (fn_saga fn) (fn_repo fn) (fn_tag fn) (fn_email fn)) (without_notification (fn_id fn) (committed w))) \<or>
      (\<exists>n. MaxRetries cfg \<le> fn_retries fn + 1 \<and> committed w' = with_message n SubjectNotificationReleaseDead
          (NotificationReleaseDead (fn_saga fn) (fn_repo fn) (fn_tag fn) (fn_email fn) releaseDeadReason)
          (without_notification (fn_id fn) (committed w))) \<or>
      fn_retries fn + 1 < MaxRetries cfg \<and> committed w' = retried_notification (fn_id fn) (committed w)))"

lemma release_fateI:
  assumes "open_tx w' = None" and "trace w' = trace w @ mails"
  shows "committed w' = committed w \<Longrightarrow> release_fate M base cfg fn w w'"
    and "r \<in> set (subscriptions_read (committed w)) \<Longrightarrow> rd_email r = fn_email fn \<Longrightarrow> rd_repo r = fn_repo fn \<Longrightarrow>
      \<exists>m. buildReleaseMessage M \<lparr>To = fn_email fn, Repo = fn_repo fn, RelTag = fn_tag fn, RelURL = fn_url fn,
        UnsubscribeURL = URLBuilder_UnsubscribeURL base (rd_token r)\<rparr> = Inr m \<and> mailed m \<in> set mails \<Longrightarrow>
      committed w' = with_message n SubjectNotificationReleaseSent
        (NotificationReleaseSent (fn_saga fn) (fn_repo fn) (fn_tag fn) (fn_email fn)) (without_notification (fn_id fn) (committed w)) \<Longrightarrow>
      release_fate M base cfg fn w w'"
    and "MaxRetries cfg \<le> fn_retries fn + 1 \<Longrightarrow> committed w' = with_message n SubjectNotificationReleaseDead
        (NotificationReleaseDead (fn_saga fn) (fn_repo fn) (fn_tag fn) (fn_email fn) releaseDeadReason)
        (without_notification (fn_id fn) (committed w)) \<Longrightarrow> release_fate M base cfg fn w w'"
    and "fn_retries fn + 1 < MaxRetries cfg \<Longrightarrow> committed w' = retried_notification (fn_id fn) (committed w) \<Longrightarrow>
      release_fate M base cfg fn w w'"
  using assms unfolding release_fate_def by blast+

lemma batch_result_single:
  "batch_result M [n] r mails \<Longrightarrow> 0 < Sent r \<Longrightarrow> \<exists>m. buildReleaseMessage M n = Inr m \<and> mailed m \<in> set mails"
  by (cases "Failed r") (auto simp: batch_result_def)

lemma wp_deleteNotification:
  assumes "\<not> ctx_tx c" and "open_tx w = None"
    and "\<And>w'. open_tx w' = None \<Longrightarrow> trace w' = trace w \<Longrightarrow>
      committed w' = committed w \<or> committed w' = without_notification rid (committed w) \<Longrightarrow> Q () w'"
  shows "wp (deleteNotification E c rid) Q w"
  unfolding deleteNotification_def fn_Delete_def FromContext_pool [OF assms(1)] wp_bind wp_wrap wp_return
  by (rule wp_sql_pool)
    (auto simp: delete_notification_def without_notification_def [symmetric] assms(2) intro!: assms(3))

lemma wp_fn_IncrementRetry:
  assumes "open_tx w = None"
    and "\<And>r w'. open_tx w' = None \<Longrightarrow> trace w' = trace w \<Longrightarrow>
      committed w' = committed w \<or> committed w' = retried_notification rid (committed w) \<Longrightarrow> Q r w'"
  shows "wp (fn_IncrementRetry E rid) Q w"
  unfolding fn_IncrementRetry_def wp_wrap
  by (rule wp_sql_pool)
    (auto simp: increment_notification_def retried_notification_def [symmetric] assms(1) intro!: assms(2) split: if_splits)

text \<open>After the mail: what \<open>retryRelease\<close> does with the result of the batch.\<close>

lemma wp_release_outcome:
  assumes c: "\<not> ctx_tx c" and w: "open_tx w = None"
    and r: "r \<in> set (subscriptions_read (committed w))" "rd_email r = fn_email fn" "rd_repo r = fn_repo fn"
    and m: "mails_only mails (w\<lparr>ncalls := n\<rparr>) w2"
    and b: "batch_result M [\<lparr>To = fn_email fn, Repo = fn_repo fn, RelTag = fn_tag fn, RelURL = fn_url fn,
      UnsubscribeURL = URLBuilder_UnsubscribeURL base (rd_token r)\<rparr>] result mails"
  shows "wp (if Sent result > 0 then deleteAndPublish E c (\<lambda>txCtx.
       bindE (fn_Delete E txCtx (fn_id fn)) (\<lambda>_. enqueue E txCtx SubjectNotificationReleaseSent
         (NotificationReleaseSent (fn_saga fn) (fn_repo fn) (fn_tag fn) (fn_email fn))))
     else if fn_retries fn + 1 \<ge> MaxRetries cfg then deleteAndPublish E c (\<lambda>txCtx.
       bindE (fn_Delete E txCtx (fn_id fn)) (\<lambda>_. enqueue E txCtx SubjectNotificationReleaseDead
         (NotificationReleaseDead (fn_saga fn) (fn_repo fn) (fn_tag fn) (fn_email fn) releaseDeadReason)))
     else do { _ \<leftarrow> fn_IncrementRetry E (fn_id fn); State_Monad.return () })
     (\<lambda>_. release_fate M base cfg fn w) w2"
proof (cases "0 < Sent result")
  case True
  with mails_only_fields [OF m] w r batch_result_single [OF b] show ?thesis
    by (auto intro!: wp_take_notification [OF c] intro: release_fateI(1,2))
next
  case False
  with mails_only_fields [OF m] w show ?thesis
    by (auto simp: wp_bind wp_return intro!: wp_take_notification [OF c] wp_fn_IncrementRetry intro: release_fateI(1,3,4))
qed

lemma wp_retryRelease:
  fixes w :: "'a notif_db_scheme world"
  assumes c: "\<not> ctx_tx c" and w: "open_tx w = None"
  shows "wp (retryRelease E M base cfg c fn) (\<lambda>_. release_fate M base cfg fn w) w"
  unfolding retryRelease_body wp_bind
proof (rule wp_Recipient, goal_cases)
  case (1 e)
  then show ?case using w by (simp add: wp_simps release_fate_def)
next
  case 2
  then show ?case
    using w by (auto intro!: wp_deleteNotification [OF c] simp: release_fate_def)
next
  case (3 r)
  show ?case
    unfolding sum.case wp_bind
    by (rule wp_mono [OF wp_SendReleaseNotifications]) (use wp_release_outcome [OF c w 3, unfolded wp_bind] in blast)
qed

text \<open>The fate of a confirmation that is retried.\<close>

definition retried_confirmation :: "nat \<Rightarrow> 'a notif_db_scheme \<Rightarrow> 'a notif_db_scheme" where
  "retried_confirmation rid d = d\<lparr>failed_confirmations :=
     map (\<lambda>f. if fc_id f = rid then f\<lparr>fc_retries := fc_retries f + 1\<rparr> else f) (failed_confirmations d)\<rparr>"

definition confirmation_fate :: "mailer \<Rightarrow> retry_config \<Rightarrow> failed_confirmation \<Rightarrow>
    'a notif_db_scheme world \<Rightarrow> 'a notif_db_scheme world \<Rightarrow> bool" where
  "confirmation_fate M cfg fc w w' \<longleftrightarrow> open_tx w' = None \<and> (\<exists>mails. trace w' = trace w @ mails \<and>
     (committed w' = committed w \<or>
      (\<exists>m n. buildConfirmation M (fc_email fc) (fc_repo fc) (fc_url fc) = Inr m \<and> mailed m \<in> set mails \<and>
        committed w' = with_message n SubjectNotificationConfirmationSent
          (NotificationConfirmationSent (fc_saga fc) (fc_email fc)) (without_confirmation (fc_id fc) (committed w))) \<or>
      (\<exists>n. MaxRetries cfg \<le> fc_retries fc + 1 \<and> committed w' = with_message n SubjectNotificationConfirmationDead
          (NotificationConfirmationDead (fc_saga fc) (fc_email fc) confirmationDeadReason)
          (without_confirmation (fc_id fc) (committed w))) \<or>
      fc_retries fc + 1 < MaxRetries cfg \<and> committed w' = retried_confirmation (fc_id fc) (committed w)))"

lemma wp_fc_IncrementRetry:
  assumes "open_tx w = None"
    and "\<And>r w'. open_tx w' = None \<Longrightarrow> trace w' = trace w \<Longrightarrow>
      committed w' = committed w \<or> committed w' = retried_confirmation rid (committed w) \<Longrightarrow> Q r w'"
  shows "wp (fc_IncrementRetry E rid) Q w"
  unfolding fc_IncrementRetry_def wp_wrap
  by (rule wp_sql_pool)
    (auto simp: increment_confirmation_def retried_confirmation_def [symmetric] assms(1) intro!: assms(2) split: if_splits)

lemma wp_deadLetterConfirmation:
  assumes "\<not> ctx_tx c" and "open_tx w = None"
    and "\<And>w' n. open_tx w' = None \<Longrightarrow> trace w' = trace w \<Longrightarrow>
      committed w' = committed w \<or> committed w' = with_message n SubjectNotificationConfirmationDead
        (NotificationConfirmationDead (fc_saga fc) (fc_email fc) reason) (without_confirmation (fc_id fc) (committed w)) \<Longrightarrow> Q () w'"
  shows "wp (deadLetterConfirmation E c fc reason) Q w"
  unfolding deadLetterConfirmation_body
  by (rule wp_take_confirmation [OF assms(1,2)]) (rule assms(3))

lemma wp_retryConfirmation:
  fixes w :: "'a notif_db_scheme world"
  assumes c: "\<not> ctx_tx c" and w: "open_tx w = None"
  shows "wp (retryConfirmation E M cfg c fc) (\<lambda>_. confirmation_fate M cfg fc w) w"
  unfolding retryConfirmation_body wp_bind
proof (rule wp_DeliverConfirmation, goal_cases)
  case (1 e mails w1)
  from mails_only_fields [OF this] w show ?case
    by (auto simp: wp_bind wp_return confirmation_fate_def intro!: wp_deadLetterConfirmation [OF c] wp_fc_IncrementRetry)
next
  case (2 msg mails w1)
  from mails_only_fields [OF 2(2)] w 2 show ?case
    by (auto simp: confirmation_fate_def intro!: wp_take_confirmation [OF c])
qed

section \<open>The budget of attempts\<close>

lemma wp_for_each:
  assumes "\<And>r rs w. I (r # rs) w \<Longrightarrow> wp (f r) (\<lambda>_. I rs) w" and "I rs w"
  shows "wp (for_each f rs) (\<lambda>_. I []) w"
  using assms(2)
proof (induction rs arbitrary: w)
  case (Cons r rs)
  show ?case
    by (simp add: wp_bind) (rule wp_mono [OF assms(1) [OF Cons.prems]], rule Cons.IH)
qed (simp add: wp_return)

text \<open>
  The loop invariant of \<open>Releases\<close> over the rows \<open>ds\<close> it started from: rows still ahead have kept their
  count, the others have used at most one attempt, and nobody is at the limit.
\<close>

definition attempts :: "retry_config \<Rightarrow> failed_notification list \<Rightarrow> failed_notification list \<Rightarrow> 'a notif_db_scheme world \<Rightarrow> bool" where
  "attempts cfg ds rs w \<longleftrightarrow> open_tx w = None \<and> distinct (map fn_id rs) \<and> set rs \<subseteq> set ds \<and>
     (\<forall>f \<in> set (failed_notifications (committed w)). fn_retries f < MaxRetries cfg \<and>
        (\<exists>g \<in> set ds. fn_id g = fn_id f \<and> fn_retries g \<le> fn_retries f \<and>
           fn_retries f \<le> fn_retries g + (if fn_id g \<in> fn_id ` set rs then 0 else 1)))"

lemma attempts_mono:
  assumes "attempts cfg ds (r # rs) w" and "open_tx w' = None"
    and "set (failed_notifications (committed w')) \<subseteq> set (failed_notifications (committed w))"
  shows "attempts cfg ds rs w'"
  using assms unfolding attempts_def by (fastforce split: if_splits)

lemma attempts_retried:
  assumes "attempts cfg ds (r # rs) w" and "open_tx w' = None" and "distinct (map fn_id ds)"
    and "fn_retries r + 1 < MaxRetries cfg" and "committed w' = retried_notification (fn_id r) (committed w)"
  shows "attempts cfg ds rs w'"
proof -
  have row: "fn_retries f' < MaxRetries cfg \<and> (\<exists>g \<in> set ds. fn_id g = fn_id f' \<and> fn_retries g \<le> fn_retries f' \<and>
      fn_retries f' \<le> fn_retries g + (if fn_id g \<in> fn_id ` set rs then 0 else 1))"
    if "f' \<in> set (failed_notifications (committed w'))" for f'
  proof -
    from that assms(5) obtain f where f: "f \<in> set (failed_notifications (committed w))"
      and f': "f' = (if fn_id f = fn_id r then f\<lparr>fn_retries := fn_retries f + 1\<rparr> else f)"
      by (auto simp: retried_notification_def)
    from assms(1) f obtain g where g: "g \<in> set ds" "fn_id g = fn_id f" "fn_retries g \<le> fn_retries f"
        "fn_retries f \<le> fn_retries g + (if fn_id g \<in> fn_id ` set (r # rs) then 0 else 1)" "fn_retries f < MaxRetries cfg"
      unfolding attempts_def by blast
    show ?thesis
    proof (cases "fn_id f = fn_id r")
      case True
      moreover have "r \<in> set ds" "fn_id r \<notin> fn_id ` set rs" using assms(1) by (auto simp: attempts_def)
      moreover from this True g(1,2) assms(3) have "g = r" by (metis distinct_map inj_onD)
      ultimately show ?thesis using g f' assms(4) by auto
    next
      case False
      with g f' show ?thesis by (intro conjI bexI [OF _ g(1)]) (auto split: if_splits)
    qed
  qed
  then show ?thesis using assms(1,2) by (simp add: attempts_def)
qed

lemma failed_notifications_with_message [simp]: "failed_notifications (with_message n s ev d) = failed_notifications d"
  by (simp add: with_message_def)

lemma failed_notifications_without [simp]:
  "failed_notifications (without_notification rid d) = filter (\<lambda>f. fn_id f \<noteq> rid) (failed_notifications d)"
  by (simp add: without_notification_def)

lemma release_fate_rows:
  assumes "release_fate M base cfg fn w w'"
  shows "open_tx w' = None \<and> (fn_retries fn + 1 < MaxRetries cfg \<and> committed w' = retried_notification (fn_id fn) (committed w) \<or>
    set (failed_notifications (committed w')) \<subseteq> set (failed_notifications (committed w)))"
  using assms unfolding release_fate_def
  by (elim conjE exE disjE) (simp_all add: filter_is_subset)

lemma attempts_step:
  assumes "attempts cfg ds (r # rs) w" and "distinct (map fn_id ds)" and "release_fate M base cfg r w w'"
  shows "attempts cfg ds rs w'"
  using release_fate_rows [OF assms(3)] attempts_retried [OF assms(1) _ assms(2)] attempts_mono [OF assms(1)] by blast

lemma wp_retry_Releases:
  fixes w :: "'a notif_db_scheme world"
  assumes c: "\<not> ctx_tx c" and w: "open_tx w = None" and ids: "distinct (map fn_id (failed_notifications (committed w)))"
    and bound: "\<forall>f \<in> set (failed_notifications (committed w)). fn_retries f < MaxRetries cfg"
  shows "wp (retry_Releases E M base cfg c) (\<lambda>_. attempts cfg (failed_notifications (committed w)) []) w"
proof -
  let ?ds = "failed_notifications (committed w)"
  let ?rows = "sort_key fn_at (filter (\<lambda>f. fn_retries f < MaxRetries cfg) ?ds)"
  have "distinct (map fn_id ?rows)"
    using ids by (simp add: distinct_map inj_on_def)
  then have start: "attempts cfg ?ds ?rows (w\<lparr>ncalls := n\<rparr>)" "attempts cfg ?ds [] (w\<lparr>ncalls := n\<rparr>)" for n
    using w bound by (auto simp: attempts_def)
  have loop: "wp (for_each (retryRelease E M base cfg c) ?rows) (\<lambda>_. attempts cfg ?ds []) (w\<lparr>ncalls := n\<rparr>)" for n
  proof (rule wp_for_each [where I = "attempts cfg ?ds"])
    show "wp (retryRelease E M base cfg c r) (\<lambda>_. attempts cfg ?ds rs) w1" if "attempts cfg ?ds (r # rs) w1" for r rs w1
    proof -
      have "open_tx w1 = None" using that by (simp add: attempts_def)
      from wp_retryRelease [OF c this] show ?thesis by (rule wp_mono) (rule attempts_step [OF that ids])
    qed
  qed (rule start(1))
  show ?thesis
    unfolding retry_Releases_def fn_ListRetryable_eq wp_bindE wp_wrap
    by (rule wp_sql_pool) (auto simp: retryable_notifications_def wp_simps start(2) intro!: wp_mono [OF loop])
qed

section \<open>The properties of confirmations and retries\<close>

definition demo_pending_mail :: payload where
  "demo_pending_mail = Doc (JObj [(''sagaID'', JStr ''u2''), (''email'', JStr ''a@b''), (''repoName'', JStr ''a/b''),
     (''confirmURL'', JStr ''https:new'')])"

definition demo_failed :: failed_notification where
  "demo_failed = \<lparr>fn_id = 0, fn_saga = ''u1'', fn_repo = ''a/b'', fn_tag = ''v2'', fn_url = ''https:u'', fn_email = ''a@b'',
     fn_reason = ''smtp'', fn_retries = 2, fn_at = 0\<rparr>"

definition demo_unconfirmed :: failed_confirmation where
  "demo_unconfirmed = \<lparr>fc_id = 0, fc_saga = ''u1'', fc_email = ''a@b'', fc_repo = ''a/b'', fc_url = ''https:old'',
     fc_reason = ''smtp'', fc_retries = 2, fc_at = 0\<rparr>"

definition demo_retry_db :: notif_db where
  "demo_retry_db = demo_notif_db\<lparr>failed_notifications := [demo_failed], failed_confirmations := [demo_unconfirmed]\<rparr>"

lemma demo_pending_decode:
  "Unmarshal (faulty_env fs) TSubscriptionPending demo_pending_mail = Inr (SubscriptionPending ''u2'' ''a@b'' ''a/b'' ''https:new'')"
  by (simp add: demo_pending_mail_def Unmarshal_def zero_struct_def field_index_def
      eventValidator_Struct_def valid_fields_def repoRegex_MatchString_def repo_char_def char_between_def)

lemmas retry_run_simps =
  notifier_run_simps demo_retry_db_def demo_failed_def demo_unconfirmed_def demo_pending_decode
  notifier_HandlePending_def sendconfirmation_Execute_body DeliverConfirmation_def
  fc_Add_def insert_failed_confirmation_def retryRelease_body retryConfirmation_body Recipient_eq exactly_one_def
  deleteAndPublish_def deadLetterConfirmation_body fn_Delete_def delete_notification_def fc_Delete_def delete_confirmation_def
  releaseDeadReason_def confirmationDeadReason_def


lemma demo_confirmation: "\<exists>m. buildConfirmation demo_mailer ''a@b'' repo url = Inr m"
  by (auto simp: buildConfirmation_def renderTemplate_def buildMessage_def demo_mailer_def)


text \<open>
  \<^bold>\<open>C25.\<close> The fate of a failed release notification (\<open>retryRelease\<close> in \<open>retry/retrier.go\<close>), with any
  failures: its row is left alone; it is deleted because its subscriber is gone; the mail was
  handed over and the row is replaced by \<open>notifications.release.sent\<close>; the last attempt is used
  up and the row is replaced by \<open>notifications.release.dead\<close>; or its count goes up by one while
  attempts remain. Nothing else changes.
\<close>

theorem release_retry_fate:
  fixes w :: "'a notif_db_scheme world"
  assumes "\<not> ctx_tx c" and "open_tx w = None" and "run_state (retryRelease E M base cfg c fn) w = ((), w')"
  shows "open_tx w' = None \<and> (\<exists>mails. trace w' = trace w @ mails \<and>
     (committed w' = committed w \<or>
      (\<nexists>r. r \<in> set (subscriptions_read (committed w)) \<and> rd_email r = fn_email fn \<and> rd_repo r = fn_repo fn) \<and>
        committed w' = without_notification (fn_id fn) (committed w) \<or>
      (\<exists>r m n. r \<in> set (subscriptions_read (committed w)) \<and> rd_email r = fn_email fn \<and> rd_repo r = fn_repo fn \<and>
        buildReleaseMessage M \<lparr>To = fn_email fn, Repo = fn_repo fn, RelTag = fn_tag fn, RelURL = fn_url fn,
          UnsubscribeURL = URLBuilder_UnsubscribeURL base (rd_token r)\<rparr> = Inr m \<and>
        Mailed (msg_To m) (msg_Subject m) (msg_Body m) \<in> set mails \<and>
        committed w' = with_message n SubjectNotificationReleaseSent
          (NotificationReleaseSent (fn_saga fn) (fn_repo fn) (fn_tag fn) (fn_email fn)) (without_notification (fn_id fn) (committed w))) \<or>
      (\<exists>n. MaxRetries cfg \<le> fn_retries fn + 1 \<and> committed w' = with_message n SubjectNotificationReleaseDead
          (NotificationReleaseDead (fn_saga fn) (fn_repo fn) (fn_tag fn) (fn_email fn) releaseDeadReason)
          (without_notification (fn_id fn) (committed w))) \<or>
      fn_retries fn + 1 < MaxRetries cfg \<and> committed w' = retried_notification (fn_id fn) (committed w)))"
  using wpD [OF wp_retryRelease [OF assms(1,2)] assms(3)] unfolding release_fate_def .

theorem release_retry_fate_witness:
  "\<exists>n. committed (snd (run_state (retryRelease (faulty_env [(3, Fails ''dial'')]) demo_mailer ''b''
       \<lparr>MaxRetries = 3, ConfirmationTTL = 0\<rparr> Background demo_failed) (fresh_world demo_retry_db))) =
     with_message n SubjectNotificationReleaseDead
       (NotificationReleaseDead ''u1'' ''a/b'' ''v2'' ''a@b'' releaseDeadReason) (without_notification 0 demo_retry_db)"
proof -
  let ?E = "faulty_env [(3, Fails ''dial'')]"
  let ?w' = "snd (run_state (retryRelease ?E demo_mailer ''b'' \<lparr>MaxRetries = 3, ConfirmationTTL = 0\<rparr> Background demo_failed)
    (fresh_world demo_retry_db))"
  obtain m where "buildReleaseMessage demo_mailer \<lparr>To = ''a@b'', Repo = ''a/b'', RelTag = ''v2'', RelURL = ''https:u'',
      UnsubscribeURL = URLBuilder_UnsubscribeURL ''b'' ''t''\<rparr> = Inr m"
    using demo_message [of "\<lparr>To = ''a@b'', Repo = ''a/b'', RelTag = ''v2'', RelURL = ''https:u'',
      UnsubscribeURL = URLBuilder_UnsubscribeURL ''b'' ''t''\<rparr>"] by auto
  then have run: "trace ?w' = []" "failed_notifications (committed ?w') = []" by (simp_all add: retry_run_simps)
  have "failed_notifications demo_retry_db = [demo_failed]"
    "\<exists>r \<in> set (subscriptions_read demo_retry_db). rd_email r = ''a@b'' \<and> rd_repo r = ''a/b''" "fn_email demo_failed = ''a@b''"
    "fn_repo demo_failed = ''a/b''" "fn_retries demo_failed = 2" "fn_id demo_failed = 0" "fn_saga demo_failed = ''u1''"
    "fn_tag demo_failed = ''v2''"
    by (simp_all add: demo_retry_db_def demo_notif_db_def demo_failed_def)
  then show ?thesis
    using release_retry_fate [of Background "fresh_world demo_retry_db" ?E demo_mailer "''b''"
        "\<lparr>MaxRetries = 3, ConfirmationTTL = 0\<rparr>" demo_failed ?w'] run
    by (auto simp: prod_eq_iff)
qed

text \<open>
  The fate of a failed confirmation (\<open>retryConfirmation\<close>, \<open>deadLetterConfirmation\<close>), with any
  failures: its row is left alone; the mail was handed over and the row is replaced by
  \<open>notifications.confirmation.sent\<close>; the last attempt is used up and it is replaced by
  \<open>notifications.confirmation.dead\<close>, which starts the compensation of its saga; or its count goes up
  by one while attempts remain. An expired one is left alone or replaced by a dead letter.
\<close>

theorem confirmation_retry_fate:
  fixes w :: "'a notif_db_scheme world"
  assumes "\<not> ctx_tx c" and "open_tx w = None"
  shows "(run_state (retryConfirmation E M cfg c fc) w = ((), w') \<longrightarrow> (\<exists>mails. trace w' = trace w @ mails \<and>
     (committed w' = committed w \<or>
      (\<exists>m n. buildConfirmation M (fc_email fc) (fc_repo fc) (fc_url fc) = Inr m \<and>
        Mailed (msg_To m) (msg_Subject m) (msg_Body m) \<in> set mails \<and>
        committed w' = with_message n SubjectNotificationConfirmationSent
          (NotificationConfirmationSent (fc_saga fc) (fc_email fc)) (without_confirmation (fc_id fc) (committed w))) \<or>
      (\<exists>n. MaxRetries cfg \<le> fc_retries fc + 1 \<and> committed w' = with_message n SubjectNotificationConfirmationDead
          (NotificationConfirmationDead (fc_saga fc) (fc_email fc) confirmationDeadReason)
          (without_confirmation (fc_id fc) (committed w))) \<or>
      fc_retries fc + 1 < MaxRetries cfg \<and> committed w' = retried_confirmation (fc_id fc) (committed w)))) \<and>
    (run_state (deadLetterConfirmation E c fc reason) w = ((), w') \<longrightarrow> trace w' = trace w \<and>
     (committed w' = committed w \<or> (\<exists>n. committed w' = with_message n SubjectNotificationConfirmationDead
        (NotificationConfirmationDead (fc_saga fc) (fc_email fc) reason) (without_confirmation (fc_id fc) (committed w)))))"
proof -
  have "wp (deadLetterConfirmation E c fc reason) (\<lambda>_ w'. trace w' = trace w \<and>
     (committed w' = committed w \<or> (\<exists>n. committed w' = with_message n SubjectNotificationConfirmationDead
        (NotificationConfirmationDead (fc_saga fc) (fc_email fc) reason) (without_confirmation (fc_id fc) (committed w))))) w"
    by (rule wp_deadLetterConfirmation [OF assms]) blast
  then show ?thesis
    using wp_retryConfirmation [OF assms, of E M cfg fc] unfolding confirmation_fate_def by (blast dest: wpD)
qed

theorem confirmation_retry_fate_witness:
  "\<exists>n. committed (snd (run_state (deadLetterConfirmation calm_env Background demo_unconfirmed confirmationExpiredReason)
       (fresh_world demo_retry_db))) = with_message n SubjectNotificationConfirmationDead
     (NotificationConfirmationDead ''u1'' ''a@b'' confirmationExpiredReason) (without_confirmation 0 demo_retry_db)"
proof -
  let ?w' = "snd (run_state (deadLetterConfirmation calm_env Background demo_unconfirmed confirmationExpiredReason) (fresh_world demo_retry_db))"
  have run: "failed_confirmations (committed ?w') = []"
    by (simp add: retry_run_simps confirmationExpiredReason_def)
  have "failed_confirmations demo_retry_db = [demo_unconfirmed]" "fc_id demo_unconfirmed = 0" "fc_saga demo_unconfirmed = ''u1''"
    "fc_email demo_unconfirmed = ''a@b''"
    by (simp_all add: demo_retry_db_def demo_unconfirmed_def)
  then show ?thesis
    using confirmation_retry_fate [of Background "fresh_world demo_retry_db" calm_env demo_mailer undefined demo_unconfirmed ?w'
        confirmationExpiredReason] run
    by (auto simp: prod_eq_iff)
qed

text \<open>
  \<^bold>\<open>C27.\<close> The budget of attempts (\<open>Releases\<close> in \<open>retry/retrier.go\<close>): if every row is below the limit, then
  after a retry pass, whatever fails, every row still is, no row is new, and every row has been
  charged at most one attempt; so a notification is attempted at most \<open>MaxRetries\<close> times.
\<close>

theorem retry_budget:
  fixes w :: "'a notif_db_scheme world"
  assumes "\<not> ctx_tx c" and "open_tx w = None" and "notif_wf (ncalls w) (committed w)"
    and "\<forall>f \<in> set (failed_notifications (committed w)). fn_retries f < MaxRetries cfg"
    and "run_state (retry_Releases E M base cfg c) w = (r, w')"
  shows "\<forall>f \<in> set (failed_notifications (committed w')). fn_retries f < MaxRetries cfg \<and>
    (\<exists>g \<in> set (failed_notifications (committed w)). fn_id g = fn_id f \<and>
       (fn_retries f = fn_retries g \<or> fn_retries f = fn_retries g + 1))"
proof
  fix f
  assume "f \<in> set (failed_notifications (committed w'))"
  moreover have "attempts cfg (failed_notifications (committed w)) [] w'"
    using assms(3) by (intro wpD [OF wp_retry_Releases [OF assms(1,2) _ assms(4)] assms(5)]) (simp add: notif_wf_def)
  ultimately show "fn_retries f < MaxRetries cfg \<and>
    (\<exists>g \<in> set (failed_notifications (committed w)). fn_id g = fn_id f \<and>
       (fn_retries f = fn_retries g \<or> fn_retries f = fn_retries g + 1))"
    unfolding attempts_def by force
qed

theorem retry_budget_witness:
  "\<nexists>f. f \<in> set (failed_notifications (committed (snd (run_state (retry_Releases (faulty_env [(4, Fails ''dial'')]) demo_mailer ''b''
     \<lparr>MaxRetries = 4, ConfirmationTTL = 0\<rparr> Background) (fresh_world demo_retry_db))))) \<and> \<not> fn_retries f < 4"
proof -
  let ?cfg = "\<lparr>MaxRetries = 4, ConfirmationTTL = 0\<rparr>"
  have "notif_wf 1 demo_retry_db"
    by (simp add: notif_wf_def outbox_wf_def demo_retry_db_def demo_notif_db_def demo_failed_def demo_unconfirmed_def)
  moreover have "\<forall>f \<in> set (failed_notifications demo_retry_db). fn_retries f < 4"
    by (simp add: demo_retry_db_def demo_failed_def)
  ultimately show ?thesis
    using retry_budget [of Background "fresh_world demo_retry_db" ?cfg "faulty_env [(4, Fails ''dial'')]" demo_mailer "''b''"
        "fst (run_state (retry_Releases (faulty_env [(4, Fails ''dial'')]) demo_mailer ''b'' ?cfg Background) (fresh_world demo_retry_db))"
        "snd (run_state (retry_Releases (faulty_env [(4, Fails ''dial'')]) demo_mailer ''b'' ?cfg Background) (fresh_world demo_retry_db))"]
    by auto
qed

section \<open>Two corner cases\<close>

text \<open>
  A release of which no mail went out is processed all the same: its summary carries a count of zero,
  on which the scanner does not advance its tag, and every later detection of it is skipped.
\<close>

theorem unsent_release_is_processed:
  "let E = faulty_env [(4, Fails ''dial'')];
       (r, w') = run_state (notifier_HandleReleaseDetected E demo_mailer ''b'' Background demo_detected) (fresh_world demo_notif_db)
   in r = Inr () \<and> trace w' = [] \<and> is_processed ''a/b'' ''v2'' (committed w') \<and>
      map (\<lambda>m. (ob_subject m, ob_payload m)) (outbox (committed w')) =
        [(SubjectNotificationReleaseFailed, Doc (encode (NotificationReleaseFailed ''u1'' ''a/b'' ''v2'' ''a@b'' failureReason))),
         (SubjectReleaseNotified, Doc (encode (ReleaseNotified ''u1'' ''a/b'' ''v2'' 0 [''a@b''])))]"
proof -
  obtain m where "buildReleaseMessage demo_mailer \<lparr>To = ''a@b'', Repo = ''a/b'', RelTag = ''v2'', RelURL = ''https:u'',
      UnsubscribeURL = URLBuilder_UnsubscribeURL ''b'' ''t''\<rparr> = Inr m"
    using demo_message [of "\<lparr>To = ''a@b'', Repo = ''a/b'', RelTag = ''v2'', RelURL = ''https:u'',
      UnsubscribeURL = URLBuilder_UnsubscribeURL ''b'' ''t''\<rparr>"] by auto
  then show ?thesis by (simp add: retry_run_simps)
qed

text \<open>
  A confirmation that fails while an older row of its pair waits for a retry is not stored: the
  retrier goes on sending the old link and would report the outcome under the old saga.
\<close>

theorem failed_confirmation_keeps_old_saga:
  "let E = faulty_env [(2, Fails ''dial'')];
       (r, w') = run_state (notifier_HandlePending E demo_mailer Background demo_pending_mail) (fresh_world demo_retry_db)
   in r = Inr () \<and> failed_confirmations (committed w') = [demo_unconfirmed] \<and>
      fc_saga demo_unconfirmed = ''u1'' \<and> fc_url demo_unconfirmed = ''https:old''"
proof -
  obtain m where "buildConfirmation demo_mailer ''a@b'' ''a/b'' ''https:new'' = Inr m" using demo_confirmation by blast
  then show ?thesis by (simp add: retry_run_simps)
qed

end
