(* ===== verification/Wiring.thy ===== *)
theory Wiring
  imports Startup Subscription_Spec Connect Scanner Retry_Spec
begin

text \<open>
  How the four services fit together: their consumers and handlers, and the properties that span several of
  them.
\<close>

section \<open>Consumers and their handlers\<close>

definition scanner_consumers :: "env \<Rightarrow> (string \<times> string \<times> 'a scan_db_scheme handler) list" where
  "scanner_consumers E =
     [(StreamSubscriptions, SubjectSubscriptionConfirmed, scanner_HandleConfirmed E),
      (StreamSubscriptions, SubjectSubscriptionRemoved, scanner_HandleRemoved E),
      (StreamReleases, SubjectReleaseNotified, scanner_HandleReleaseNotified E)]"

definition subscription_consumers :: "env \<Rightarrow> ctx \<Rightarrow> (string \<times> string \<times> 'a sub_db_scheme handler) list" where
  "subscription_consumers E c = [(StreamSagas, SubjectSagaCompensate, HandleCompensate E c)]"

text \<open>
  The services fit together (the \<open>consumers.go\<close> of all services, \<open>EnsureEventStreams\<close>, \<open>events.go\<close>): no
  two consumers share a durable name; every subject that is consumed is stored by the stream its
  consumer reads; no subject is stored by two streams; and every service pairs its consumers with its
  handlers in the same order.
\<close>

theorem wiring_sound:
  "distinct (map spec_Durable (notifier_specs @ saga_specs @ scanner_specs @ subscription_specs)) \<and>
   list_all (\<lambda>s. \<exists>subjects. map_of event_streams (spec_Stream s) = Some subjects \<and> spec_Subject s \<in> set subjects)
     (notifier_specs @ saga_specs @ scanner_specs @ subscription_specs) \<and>
   distinct (map fst event_streams) \<and> distinct (concat (map snd event_streams)) \<and>
   map (\<lambda>(stream, subject, h). (stream, subject)) (notifier_consumers E M base c) =
     map (\<lambda>s. (spec_Stream s, spec_Subject s)) notifier_specs \<and>
   map (\<lambda>(stream, subject, h). (stream, subject)) (saga_consumers T E c) = map (\<lambda>s. (spec_Stream s, spec_Subject s)) saga_specs \<and>
   map (\<lambda>(stream, subject, h). (stream, subject)) (scanner_consumers E) = map (\<lambda>s. (spec_Stream s, spec_Subject s)) scanner_specs \<and>
   map (\<lambda>(stream, subject, h). (stream, subject)) (subscription_consumers E c) =
     map (\<lambda>s. (spec_Stream s, spec_Subject s)) subscription_specs"
proof -
  have "distinct (map spec_Durable (notifier_specs @ saga_specs @ scanner_specs @ subscription_specs))" by code_simp
  moreover have "list_all (\<lambda>s. \<exists>subjects. map_of event_streams (spec_Stream s) = Some subjects \<and> spec_Subject s \<in> set subjects)
     (notifier_specs @ saga_specs @ scanner_specs @ subscription_specs)"
    by (simp add: notifier_specs_def saga_specs_def scanner_specs_def subscription_specs_def event_streams_def
        StreamSubscriptions_def StreamReleases_def StreamNotifications_def StreamSagas_def
        SubjectsSubscriptions_def SubjectsReleases_def SubjectsNotifications_def SubjectsSagas_def)
  moreover have "distinct (map fst event_streams)" "distinct (concat (map snd event_streams))" by code_simp+
  moreover have "map (\<lambda>(stream, subject, h). (stream, subject)) (notifier_consumers E M base c) =
     map (\<lambda>s. (spec_Stream s, spec_Subject s)) notifier_specs"
    "map (\<lambda>(stream, subject, h). (stream, subject)) (saga_consumers T E c) = map (\<lambda>s. (spec_Stream s, spec_Subject s)) saga_specs"
    "map (\<lambda>(stream, subject, h). (stream, subject)) (scanner_consumers E) = map (\<lambda>s. (spec_Stream s, spec_Subject s)) scanner_specs"
    "map (\<lambda>(stream, subject, h). (stream, subject)) (subscription_consumers E c) =
       map (\<lambda>s. (spec_Stream s, spec_Subject s)) subscription_specs"
    by (simp_all add: notifier_consumers_def saga_consumers_def scanner_consumers_def subscription_consumers_def
        notifier_specs_def saga_specs_def scanner_specs_def subscription_specs_def)
  ultimately show ?thesis by blast
qed

section \<open>From one service to the next\<close>

text \<open>What a consumer decodes is what a publisher of another service encoded, or it is refused.\<close>

lemma Unmarshal_encode:
  assumes "in_int64 (SentCount e) \<or> type_of e \<noteq> TReleaseNotified"
  shows "Unmarshal E (type_of e) (Doc (encode e)) =
    (if eventValidator_Struct E e then Inr e
     else Inl (Errorf (''validate event '' @ type_name (type_of e)) (External ''validation failed'')))"
  using Decode_encode [OF assms] by (simp add: Unmarshal_def)

lemma Unmarshal_encode_eq:
  "type_of e = ty \<Longrightarrow> ty \<noteq> TReleaseNotified \<Longrightarrow> Unmarshal E ty (Doc (encode e)) = Inr ev \<Longrightarrow> ev = e"
  using Unmarshal_encode [of e E] by (auto split: if_splits)

lemma notifier_HandlePending_ok:
  assumes "open_tx u = None" and "run_state (notifier_HandlePending E M Background p) u = (Inr (), u')"
  shows "\<exists>ev. Unmarshal E TSubscriptionPending p = Inr ev \<and> confirmation_outcome M ev u True u'"
proof -
  have "wp (notifier_HandlePending E M Background p) (\<lambda>r u'. r = Inr () \<longrightarrow>
      (\<exists>ev. Unmarshal E TSubscriptionPending p = Inr ev \<and> confirmation_outcome M ev u True u')) u"
    unfolding notifier_HandlePending_def
    by (auto simp: wp_simps split: sum.splits
        intro!: wp_mono [OF wp_sendconfirmation_Execute [where c = "WithSagaID Background _", OF _ assms(1)]])
  from wpD [OF this assms(2)] show ?thesis by simp
qed

text \<open>What the orchestrator and the notifier make of a pending subscription another service announced.\<close>

lemma pending_decoded:
  "Unmarshal E TSubscriptionPending (Doc (encode (SubscriptionPending sid email repo url))) = Inr ev \<Longrightarrow>
     ev = SubscriptionPending sid email repo url"
  by (rule Unmarshal_encode_eq [where ty = TSubscriptionPending and E = E]) auto

lemma pending_saga:
  fixes v :: "'b saga_db_scheme world"
  assumes "saga_wf (ncalls v) (committed v) \<and>
    run_state (HandlePending E2 Background (Doc (encode (SubscriptionPending sid email repo url)))) v = (Inr (), v')"
  shows "\<exists>s. filter (\<lambda>s. saga_key s = (''subscribe'', email, repo)) (sagas (committed v')) = [s] \<and>
    sg_state s = StatePending \<and> uuid_Parse E2 sid = Inr (sg_id s)"
proof -
  from HandlePending_starts [OF assms [THEN conjunct1] assms [THEN conjunct2]] obtain ev si s
    where "Unmarshal E2 TSubscriptionPending (Doc (encode (SubscriptionPending sid email repo url))) = Inr ev"
    and s: "uuid_Parse E2 (SagaID ev) = Inr si" "sg_id s = si" "sg_state s = StatePending"
      "filter (\<lambda>s. saga_key s = (''subscribe'', Email ev, RepoName ev)) (sagas (committed v')) = [s]"
    by blast
  then have "ev = SubscriptionPending sid email repo url" by (intro pending_decoded)
  with s show ?thesis by simp
qed

lemma pending_mail:
  fixes u :: "'c notif_db_scheme world"
  assumes "open_tx u = None \<and>
    run_state (notifier_HandlePending E3 M Background (Doc (encode (SubscriptionPending sid email repo url)))) u = (Inr (), u')"
  shows "(\<exists>m. buildConfirmation M email repo url = Inr m \<and>
      Mailed (msg_To m) (msg_Subject m) (msg_Body m) \<in> set (drop (length (trace u)) (trace u'))) \<or>
    (\<exists>f \<in> set (failed_confirmations (committed u')). fc_email f = email \<and> fc_repo f = repo)"
proof -
  from notifier_HandlePending_ok [OF assms [THEN conjunct1] assms [THEN conjunct2]] obtain ev
    where "Unmarshal E3 TSubscriptionPending (Doc (encode (SubscriptionPending sid email repo url))) = Inr ev"
    and out: "confirmation_outcome M ev u True u'" by blast
  then have "ev = SubscriptionPending sid email repo url" by (intro pending_decoded)
  with out show ?thesis unfolding confirmation_outcome_def confirmation_failed_def by auto
qed



lemma notifier_HandleReleaseDetected_ok:
  assumes "open_tx u = None" and "run_state (notifier_HandleReleaseDetected E M base Background p) u = (Inr (), u')"
  shows "\<exists>ev. Unmarshal E TReleaseDetected p = Inr ev \<and> notified M base ev u True u'"
proof -
  have "wp (notifier_HandleReleaseDetected E M base Background p) (\<lambda>r u'. r = Inr () \<longrightarrow>
      (\<exists>ev. Unmarshal E TReleaseDetected p = Inr ev \<and> notified M base ev u True u')) u"
    unfolding notifier_HandleReleaseDetected_def
    by (auto simp: wp_simps split: sum.splits
        intro!: wp_mono [OF wp_notifyrelease_Execute [where c = "WithSagaID Background _", OF _ assms(1)]])
  from wpD [OF this assms(2)] show ?thesis by simp
qed

text \<open>A handled summary: the tag is set when somebody was notified, otherwise nothing happens.\<close>

lemma scanner_HandleReleaseNotified_ok:
  fixes z :: "'a scan_db_scheme world"
  assumes "open_tx z = None" and "run_state (scanner_HandleReleaseNotified E p) z = (Inr (), z')"
  shows "\<exists>ev. Unmarshal E TReleaseNotified p = Inr ev \<and>
    (if 0 < SentCount ev then \<forall>row \<in> set (watched (committed z')). wr_name row = RepoName ev \<longrightarrow> wr_tag row = Some (Tag ev)
     else committed z' = committed z)"
proof -
  have "committed z' = committed z \<or> notified_applied E p (committed z) (committed z')" "notified_settled E p (committed z')"
    using wpD [OF release_notified.run [OF assms(1)] assms(2)] by (auto simp: once_post_def)
  then show ?thesis unfolding notified_applied_def notified_settled_def by auto
qed

text \<open>
  \<^bold>\<open>C10.\<close> From a detected release to the advanced tag, across the services: when the notifier has
  handled a new \<open>releases.detected\<close> message and its relay has flushed without faults, one
  \<open>releases.notified\<close> message is out whose counts add up to the confirmed subscribers of the repository;
  when the scanner has handled that message, every watched row of the repository has the new tag if at
  least one mail went out, and otherwise the watchlist is unchanged, so that the release is detected
  again.
\<close>

theorem release_end_to_end:
  fixes u :: "'a notif_db_scheme world" and z :: "'b scan_db_scheme world"
  assumes "open_tx u = None" and "notif_wf (ncalls u) (committed u)" and "\<not> is_processed repo tag (committed u)"
    and "int (length (subscriptions_read (committed u))) < 2 ^ 63"
    and "run_state (notifier_HandleReleaseDetected E M base Background (Doc (encode (ReleaseDetected sid repo tag url)))) u = (Inr (), u1)"
    and "\<forall>n. env_fault E1 n = NoFault" and "\<forall>n i. \<not> env_locked E1 n i" and "0 < batch"
    and "length (outbox (committed u1)) < fuel" and "run_state (flush fuel E1 batch) u1 = (r, u2)"
  shows "\<exists>sent failed q. q = Doc (encode (ReleaseNotified sid repo tag (int sent) failed)) \<and>
    Published SubjectReleaseNotified q \<in> set (drop (length (trace u1)) (trace u2)) \<and>
    sent + length failed = length (filter (\<lambda>r. rd_repo r = repo) (subscriptions_read (committed u))) \<and>
    (open_tx z = None \<and> run_state (scanner_HandleReleaseNotified E2 q) z = (Inr (), z') \<longrightarrow>
      (if 0 < sent then \<forall>row \<in> set (watched (committed z')). wr_name row = repo \<longrightarrow> wr_tag row = Some tag
       else committed z' = committed z))"
proof -
  let ?p = "Doc (encode (ReleaseDetected sid repo tag url))"
  from notifier_HandleReleaseDetected_ok [OF assms(1,5)] obtain ev where ev: "Unmarshal E TReleaseDetected ?p = Inr ev"
    and out: "notified M base ev u True u1" by blast
  have "ev = ReleaseDetected sid repo tag url"
    using Unmarshal_encode_eq [of "ReleaseDetected sid repo tag url" TReleaseDetected E ev] ev by simp
  with out assms(3) obtain result mails where idle: "open_tx u1 = None"
    and batch: "batch_result M (map (notification_of base ev) (recipients_of ev (committed u))) result mails"
    and rd: "release_done ev result (committed u) (committed u1)" and [simp]: "SagaID ev = sid" "RepoName ev = repo" "Tag ev = tag"
    by (auto simp: notified_def)
  have "(StreamReleases, SubjectReleaseDetected, notifier_HandleReleaseDetected E M base Background :: 'a notif_db_scheme handler)
      \<in> set (notifier_consumers E M base Background)"
    by (simp add: notifier_consumers_def)
  from preserves_committed [OF notif_wf.preserves_consumers [OF this] assms(2,1,5)]
  have wf: "outbox_wf (ncalls u1) (committed u1)" by (simp add: notif_wf_def)
  let ?e = "ReleaseNotified sid repo tag (int (Sent result)) (Failed result)"
  from release_done_explicit [OF rd] obtain n ms where ob: "outbox (committed u1) = outbox (committed u) @ ms @
      [\<lparr>ob_id = n, ob_subject = SubjectReleaseNotified, ob_payload = Doc (encode ?e)\<rparr>]" by auto
  have published: "Published SubjectReleaseNotified (Doc (encode ?e)) \<in> set (drop (length (trace u1)) (trace u2))"
    using wpD [OF flush_drains [OF assms(6-8) idle wf assms(9)] assms(10)] by (simp add: ob pub_def)
  have count: "Sent result + length (Failed result) = length (filter (\<lambda>r. rd_repo r = repo) (subscriptions_read (committed u)))"
    using batch by (simp add: batch_result_def recipients_of_def)
  also have "\<dots> \<le> length (subscriptions_read (committed u))" by (rule length_filter_le)
  finally have "in_int64 (SentCount ?e)" using assms(4) by (simp add: in_int64_def)
  then have decoded: "ev' = ?e" if "Unmarshal E2 TReleaseNotified (Doc (encode ?e)) = Inr ev'" for ev'
    using Unmarshal_encode [of ?e E2] that by (simp split: if_splits)
  have scanner: "open_tx z = None \<and> run_state (scanner_HandleReleaseNotified E2 (Doc (encode ?e))) z = (Inr (), z') \<longrightarrow>
      (if 0 < Sent result then \<forall>row \<in> set (watched (committed z')). wr_name row = repo \<longrightarrow> wr_tag row = Some tag
       else committed z' = committed z)"
    using scanner_HandleReleaseNotified_ok [of z E2 "Doc (encode ?e)" z'] decoded by fastforce
  show ?thesis by (intro exI conjI, rule refl, rule published, rule count, rule scanner)
qed

theorem release_end_to_end_witness:
  "\<exists>sent failed q. q = Doc (encode (ReleaseNotified ''u1'' ''a/b'' ''v2'' (int sent) failed)) \<and> sent + length failed = 1 \<and>
     Published SubjectReleaseNotified q \<in> set (drop 1 (trace (snd (run_state (flush 9 calm_env 100)
       (snd (run_state (notifier_HandleReleaseDetected calm_env demo_mailer ''b'' Background
         (Doc (encode (ReleaseDetected ''u1'' ''a/b'' ''v2'' ''https:u'')))) (fresh_world demo_notif_db)))))))"
proof -
  let ?p = "Doc (encode (ReleaseDetected ''u1'' ''a/b'' ''v2'' ''https:u''))"
  let ?run = "run_state (notifier_HandleReleaseDetected calm_env demo_mailer ''b'' Background ?p) (fresh_world demo_notif_db)"
  let ?flush = "run_state (flush 9 calm_env 100) (snd ?run)"
  have wf: "notif_wf (ncalls (fresh_world demo_notif_db)) (committed (fresh_world demo_notif_db))"
    "\<not> is_processed ''a/b'' ''v2'' (committed (fresh_world demo_notif_db))"
    "int (length (subscriptions_read (committed (fresh_world demo_notif_db)))) < 2 ^ 63"
    by (simp_all add: notif_wf_def outbox_wf_def demo_notif_db_def is_processed_def)
  have "Unmarshal calm_env TReleaseDetected ?p = Inr (ReleaseDetected ''u1'' ''a/b'' ''v2'' ''https:u'')"
    using Unmarshal_encode [of "ReleaseDetected ''u1'' ''a/b'' ''v2'' ''https:u''" calm_env]
    by (simp add: eventValidator_Struct_def valid_fields_def repoRegex_MatchString_def repo_char_def char_between_def)
  moreover obtain m where "buildReleaseMessage demo_mailer \<lparr>To = ''a@b'', Repo = ''a/b'', RelTag = ''v2'', RelURL = ''https:u'',
      UnsubscribeURL = URLBuilder_UnsubscribeURL ''b'' ''t''\<rparr> = Inr m"
    using demo_message [of "\<lparr>To = ''a@b'', Repo = ''a/b'', RelTag = ''v2'', RelURL = ''https:u'',
      UnsubscribeURL = URLBuilder_UnsubscribeURL ''b'' ''t''\<rparr>"] by auto
  ultimately have ok: "fst ?run = Inr ()" "length (outbox (committed (snd ?run))) < 9" "length (trace (snd ?run)) = 1"
    by (simp_all add: notifier_run_simps)
  have calm: "\<forall>n. env_fault calm_env n = NoFault" "\<forall>n i. \<not> env_locked calm_env n i" "0 < (100 :: int)" by simp_all
  have run: "?run = (Inr (), snd ?run)" using ok(1) by (metis prod.collapse)
  have one: "length (filter (\<lambda>r. rd_repo r = ''a/b'') (subscriptions_read (committed (fresh_world demo_notif_db)))) = 1"
    by (simp add: demo_notif_db_def)
  show ?thesis
    using release_end_to_end [OF fresh_world_simps(2) wf run calm ok(2) prod.collapse [symmetric], of undefined undefined undefined]
    unfolding ok(3) one by blast
qed

end
