(* ===== verification/Effects.thy ===== *)
theory Effects
  imports Wiring
begin

text \<open>
  What the handlers of the services leave behind, for every failure: no open transaction, only
  permitted effects in the trace, and only the service's own events in the outbox. The rules here
  are the per-service part of the invariants of the whole system.
\<close>

section \<open>No open transaction\<close>

definition idle :: "'db world \<Rightarrow> bool" where
  "idle w \<longleftrightarrow> open_tx w = None"

lemma idle_sql [preserves_rules]: "preserves idle (sql E c f)"
  by (rule preservesI)
    (auto simp: sql_def run_pool_def run_tx_def wp_simps Let_def idle_def
      split: conn.splits option.splits fault.splits sum.splits prod.splits)

lemma idle_calls [preserves_rules]:
  "preserves idle (Now E)" "preserves idle (NewUUID E)" "preserves idle (RandRead E k)" "preserves idle Notify"
  "preserves idle (Publish E s p)" "preserves idle (Compensate_rpc E i ty email repo)"
  "preserves idle (smtp_Send E m)" "preserves idle (smtp_Dial E)" "preserves idle (select_done E)"
  by (rule preservesI, simp add: Publish_def Compensate_rpc_def smtp_Send_def smtp_Dial_def select_done_def
      wp_simps Let_def idle_def split: fault.splits)+

lemma idle_derived [preserves_rules]:
  "preserves idle (QueryRow E c f)" "preserves idle (NewString E)" "preserves idle (enqueue E ctx s ev)"
  unfolding QueryRow_def enqueue_def Enqueue_def NewString_def by (intro preserves_rules)+

lemma wp_always: "(\<And>a t. Q a t) \<Longrightarrow> wp m Q s"
  by (simp add: wp_def split: prod.splits)

lemma idle_Within [preserves_rules]:
  assumes "\<not> ctx_tx c"
  shows "preserves idle (Within E c fn)"
proof (rule preservesI)
  fix w :: "'a world"
  assume "idle w"
  then show "wp (Within E c fn) (\<lambda>_. idle) w"
    using assms
    by (auto simp: Within_def wp_simps Begin_def Commit_def Rollback_def Let_def idle_def
        intro!: wp_always split: fault.splits sum.splits option.splits)
qed

section \<open>Permitted effects\<close>

definition trace_ok :: "(effect \<Rightarrow> bool) \<Rightarrow> 'db world \<Rightarrow> bool" where
  "trace_ok G w \<longleftrightarrow> (\<forall>x \<in> set (trace w). G x)"

lemma trace_ok_sql [preserves_rules]: "preserves (trace_ok G) (sql E c f)"
  by (rule preservesI)
    (auto simp: sql_def run_pool_def run_tx_def wp_simps Let_def trace_ok_def
      split: conn.splits option.splits fault.splits sum.splits prod.splits)

lemma trace_ok_calls [preserves_rules]:
  "preserves (trace_ok G) (Now E)" "preserves (trace_ok G) (NewUUID E)" "preserves (trace_ok G) (RandRead E k)"
  "preserves (trace_ok G) Notify" "preserves (trace_ok G) (smtp_Dial E)" "preserves (trace_ok G) (select_done E)"
  "preserves (trace_ok G) (Begin E)" "preserves (trace_ok G) (Commit E)" "preserves (trace_ok G) Rollback"
  by (rule preservesI, simp add: smtp_Dial_def select_done_def Begin_def Commit_def Rollback_def
      wp_simps Let_def trace_ok_def split: fault.splits option.splits)+

lemma trace_ok_effects [preserves_rules]:
  "G (Published s p) \<Longrightarrow> preserves (trace_ok G) (Publish E s p)"
  "G (CompensateRPC i ty email repo) \<Longrightarrow> preserves (trace_ok G) (Compensate_rpc E i ty email repo)"
  "G (mailed m) \<Longrightarrow> preserves (trace_ok G) (smtp_Send E m)"
  by (rule preservesI, auto simp: Publish_def Compensate_rpc_def smtp_Send_def
      wp_simps Let_def trace_ok_def split: fault.splits)+

lemma trace_ok_derived [preserves_rules]:
  "preserves (trace_ok G) (QueryRow E c f)" "preserves (trace_ok G) (NewString E)"
  "preserves (trace_ok G) (enqueue E ctx s ev)"
  unfolding QueryRow_def enqueue_def Enqueue_def NewString_def by (intro preserves_rules)+

lemma trace_ok_Within [preserves_rules]:
  "(\<And>c'. preserves (trace_ok G) (fn c')) \<Longrightarrow> preserves (trace_ok G) (Within E c fn)"
  unfolding Within_def by (intro preserves_rules) auto

section \<open>The services\<close>

lemmas sub_defs = subscribe_Execute_def ensureRepoExists_def resolveExisting_def emitPending_body confirm_Execute_body
  unsubscribe_Execute_body cleanup_Run_def compensate_Execute_def HandleCompensate_def
  GetOrCreate_eq Create_def FindByEmailAndRepo_eq Confirm_def Delete_def DeletePendingByEmailAndRepo_def
  DeleteExpiredPending_def NewSubscription_def randomToken_def Issue_def Verify_def Let_def

lemma publish_expired_quiet [preserves_rules]:
  "preserves idle (publish_expired E c ss)" "preserves (trace_ok G) (publish_expired E c ss)"
  by (induction ss) (auto intro!: preserves_rules)

lemma gh_reads_quiet:
  assumes "gh_reads gh"
  shows "preserves idle (gh c owner name)" "preserves (trace_ok G) (gh c owner name)"
proof -
  have "wp (gh c owner name) (\<lambda>_ w'. open_tx w' = open_tx w \<and> trace w' = trace w) w" for w
    using assms unfolding gh_reads_def by (blast intro: wp_mono)
  note frame = this
  show "preserves idle (gh c owner name)" "preserves (trace_ok G) (gh c owner name)"
    by (auto simp: idle_def trace_ok_def intro!: preservesI wp_mono [OF frame])
qed

lemma subscription_idle:
  assumes c: "\<not> ctx_tx c"
  shows "gh_reads gh \<Longrightarrow> preserves idle (subscribe_Execute E gh J ttl base c email repo)"
    "preserves idle (confirm_Execute E J c token)" "preserves idle (unsubscribe_Execute E c token)"
    "preserves idle (cleanup_Run E maxAge c)" "preserves idle (compensate_Execute E c email repo)"
    "preserves idle (HandleCompensate E c p)"
  unfolding sub_defs
  by (intro preserves_rules gh_reads_quiet c; simp add: c)+

lemma subscription_trace:
  "gh_reads gh \<Longrightarrow> preserves (trace_ok G) (subscribe_Execute E gh J ttl base c email repo)"
    "preserves (trace_ok G) (confirm_Execute E J c token)" "preserves (trace_ok G) (unsubscribe_Execute E c token)"
    "preserves (trace_ok G) (cleanup_Run E maxAge c)" "preserves (trace_ok G) (compensate_Execute E c email repo)"
    "preserves (trace_ok G) (HandleCompensate E c p)"
  unfolding sub_defs
  by (intro preserves_rules gh_reads_quiet; simp)+

lemmas saga_defs = HandlePending_def HandleConfirmationSent_def HandleConfirmationDead_def HandleConfirmed_def HandleExpired_def
  OnPending_def OnConfirmationSent_def OnConfirmationDead_def OnConfirmed_def OnExpired_def parse_saga_id_def
  Start_def TransitionByID_def TransitionByEmailRepo_def Get_def

lemma compensator_idle [preserves_rules]: "\<not> ctx_tx c \<Longrightarrow> preserves idle (compensator T E c s)"
  unfolding compensator_def NATSCompensate_def GRPCCompensate_def Compensate_event_enqueue TransitionByID_def
  by (auto intro!: preserves_rules)

lemma compensator_trace [preserves_rules]:
  "(\<And>i ty email repo. G (CompensateRPC i ty email repo)) \<Longrightarrow> preserves (trace_ok G) (compensator T E c s)"
  unfolding compensator_def NATSCompensate_def GRPCCompensate_def Compensate_event_enqueue TransitionByID_def
  by (auto intro!: preserves_rules)

lemma saga_idle:
  assumes "\<not> ctx_tx c" and "(stream, subject, h) \<in> set (saga_consumers T E c)"
  shows "preserves idle (h p)"
  using assms unfolding saga_consumers_def
  by (auto simp: saga_defs intro!: preserves_rules)

lemma saga_trace:
  assumes "\<And>i ty email repo. G (CompensateRPC i ty email repo)" and "(stream, subject, h) \<in> set (saga_consumers T E c)"
  shows "preserves (trace_ok G) (h p)"
  using assms unfolding saga_consumers_def
  by (auto simp: saga_defs intro!: preserves_rules)

lemmas scan_defs = scanner_HandleConfirmed_def scanner_HandleRemoved_def scanner_HandleReleaseNotified_def
  watchlist_Confirmed_def watchlist_Removed_def advancetag_Execute_def
  IncrementSubscriber_def DecrementSubscriber_def AdvanceTag_def ListWatched_eq

lemma scanner_consumes:
  assumes "(stream, subject, h) \<in> set (scanner_consumers E)"
  shows "preserves idle (h p)" "preserves (trace_ok G) (h p)"
  using assms unfolding scanner_consumers_def
  by (auto simp: scan_defs intro!: preserves_rules)

lemma bindE_wrap_liftE: "bindE (wrap t (liftE r)) f = (case r of Inl e \<Rightarrow> err (Errorf t e) | Inr x \<Rightarrow> f x)"
  by (cases r) (simp_all add: bindE_def wrap_def liftE_def)

lemma publish_unfold:
  "publish E s ev =
     (if eventValidator_Struct E ev then wrap (''publish '' @ s) (Publish E s (Doc (encode ev)))
      else err (Errorf (''marshal '' @ s) (Errorf (''validate event '' @ type_name (type_of ev)) (External ''validation failed''))))"
  by (simp add: publish_def Marshal_def bindE_wrap_liftE)

lemma process_all_idle: "preserves idle (process_all E rows os)"
  by (induction os) (auto simp: process_body publish_def AdvanceTag_def intro!: preserves_rules split: option.splits)

lemma process_all_trace:
  assumes "\<And>sid repo tag url. eventValidator_Struct E (ReleaseDetected sid repo tag url) \<Longrightarrow>
    G (Published SubjectReleaseDetected (Doc (encode (ReleaseDetected sid repo tag url))))"
  shows "preserves (trace_ok G) (process_all E rows os)"
  using assms
  by (induction os) (auto simp: process_body publish_unfold AdvanceTag_def intro!: preserves_rules split: option.splits)

lemma watch_quiet:
  "preserves idle (watch_Run E (\<lambda>_. liftE os))"
  "(\<And>sid repo tag url. eventValidator_Struct E (ReleaseDetected sid repo tag url) \<Longrightarrow>
     G (Published SubjectReleaseDetected (Doc (encode (ReleaseDetected sid repo tag url))))) \<Longrightarrow>
   preserves (trace_ok G) (watch_Run E (\<lambda>_. liftE os))"
  unfolding watch_Run_def scan_defs
  by (intro preserves_rules process_all_idle process_all_trace; assumption)+

lemma preserves_scheduler_run:
  "preserves I (NewString E) \<Longrightarrow> (\<And>c. preserves I (runner c)) \<Longrightarrow> preserves I (scheduler_run E runner c)"
  unfolding scheduler_run_def by (intro preserves_bind preserves_return)

lemmas notif_defs = notifier_HandlePending_def notifier_HandleConfirmed_def notifier_HandleRemoved_def
  notifier_HandleReleaseDetected_def sendconfirmation_Execute_body notifyrelease_Execute_body notifyrelease_deliver_def
  readmodel_Confirmed_def readmodel_Removed_def
  read_Upsert_def read_Delete_def RecipientsByRepo_eq Recipient_eq fn_Add_def fn_ListRetryable_eq
  fn_IncrementRetry_def fn_Delete_def fc_Add_def fc_ListRetryable_eq fc_ListExpired_eq fc_IncrementRetry_def
  fc_Delete_def pr_Exists_def pr_Mark_def DeleteProcessedBefore_def

lemma send_each_idle [preserves_rules]: "preserves idle (send_each E ms)"
  by (induction ms) (auto intro!: preserves_rules)

lemma mailer_idle [preserves_rules]:
  "preserves idle (DeliverConfirmation E M to repo url)" "preserves idle (SendReleaseNotifications E M ns)"
  unfolding DeliverConfirmation_def SendReleaseNotifications_def sendBatch_def
  by (auto intro!: preserves_rules split: prod.splits list.splits option.splits)

lemma notif_repositories_trace [preserves_rules]:
  "preserves (trace_ok G) (read_Upsert E email repo token)" "preserves (trace_ok G) (read_Delete E email repo)"
  "preserves (trace_ok G) (fn_Add E c saga repo tag url email reason)" "preserves (trace_ok G) (fn_ListRetryable E k)"
  "preserves (trace_ok G) (fn_IncrementRetry E rid)" "preserves (trace_ok G) (fn_Delete E c rid)"
  "preserves (trace_ok G) (fc_Add E c saga email repo url reason)" "preserves (trace_ok G) (fc_ListExpired E t)"
  "preserves (trace_ok G) (fc_IncrementRetry E rid)" "preserves (trace_ok G) (fc_Delete E c rid)"
  "preserves (trace_ok G) (pr_Exists E repo tag)" "preserves (trace_ok G) (pr_Mark E c repo tag)"
  "preserves (trace_ok G) (DeleteProcessedBefore E t)"
  unfolding notif_defs by (intro preserves_rules)+

lemma recordOutcomes_trace [preserves_rules]: "preserves (trace_ok G) (recordOutcomes E c ev failed rs)"
  by (induction rs) (auto intro!: preserves_rules)

lemma notifier_idle:
  assumes "\<not> ctx_tx c" and "(stream, subject, h) \<in> set (notifier_consumers E M base c)"
  shows "preserves idle (h p)"
  using assms unfolding notifier_consumers_def
  by (auto simp: notif_defs intro!: preserves_rules)

lemma maintenance_idle:
  assumes "\<not> ctx_tx c"
  shows "preserves idle (maintenanceTick E M base cfg ttl c)"
  using assms
  unfolding maintenanceTick_def retry_Releases_def retry_Confirmations_def retryRelease_body retryConfirmation_body
    deadLetterConfirmation_body deleteAndPublish_def deleteNotification_def notif_defs Let_def
  by (intro preserves_rules)

section \<open>Where the mails come from\<close>

text \<open>An invariant of the tables together with one of the trace, and what a query gives under an invariant.\<close>

definition db_trace :: "(nat \<Rightarrow> 'db \<Rightarrow> bool) \<Rightarrow> (effect \<Rightarrow> bool) \<Rightarrow> 'db world \<Rightarrow> bool" where
  "db_trace P G w \<longleftrightarrow> db_inv P w \<and> trace_ok G w"

lemma preserves_db_trace:
  "preserves (db_inv P) m \<Longrightarrow> preserves (trace_ok G) m \<Longrightarrow> preserves (db_trace P G) m"
  by (auto simp: db_trace_def [abs_def] preserves_def wp_conj)

definition gives :: "('s \<Rightarrow> bool) \<Rightarrow> ('s, error + 'a) state \<Rightarrow> ('a \<Rightarrow> bool) \<Rightarrow> bool" where
  "gives I m Q \<longleftrightarrow> (\<forall>s. I s \<longrightarrow> wp m (\<lambda>r t. I t \<and> (\<forall>x. r = Inr x \<longrightarrow> Q x)) s)"

lemma preserves_bind_gives:
  assumes "gives I m Q" and "\<And>e. preserves I (f (Inl e))" and "\<And>x. Q x \<Longrightarrow> preserves I (f (Inr x))"
  shows "preserves I (State_Monad.bind m f)"
proof (rule preservesI)
  fix s
  assume "I s"
  have "preserves I (f r)" if "\<forall>x. r = Inr x \<longrightarrow> Q x" for r
    using that assms(2,3) by (cases r) auto
  then have "wp (f r) (\<lambda>_. I) t" if "I t \<and> (\<forall>x. r = Inr x \<longrightarrow> Q x)" for r t
    using that by (blast intro: preserves_wp)
  moreover have "wp m (\<lambda>r t. I t \<and> (\<forall>x. r = Inr x \<longrightarrow> Q x)) s"
    using assms(1) \<open>I s\<close> by (simp add: gives_def)
  ultimately show "wp (State_Monad.bind m f) (\<lambda>_. I) s"
    unfolding wp_bind by (rule wp_mono [rotated])
qed

lemma preserves_bindE_gives:
  assumes "gives I m Q" and "\<And>x. Q x \<Longrightarrow> preserves I (f x)"
  shows "preserves I (bindE m f)"
  unfolding bindE_def by (rule preserves_bind_gives [OF assms(1)]) (auto intro: preserves_return assms(2))

lemma gives_bindE:
  assumes m: "gives I m Q" and f: "\<And>x. Q x \<Longrightarrow> gives I (f x) R"
  shows "gives I (bindE m f) R"
  unfolding gives_def bindE_def wp_bind
proof (intro allI impI)
  fix s
  assume "I s"
  have "wp (case r of Inl e \<Rightarrow> err e | Inr x \<Rightarrow> f x) (\<lambda>r t. I t \<and> (\<forall>x. r = Inr x \<longrightarrow> R x)) t"
    if "I t \<and> (\<forall>x. r = Inr x \<longrightarrow> Q x)" for r t
    using that f by (cases r) (auto simp: wp_simps gives_def)
  moreover have "wp m (\<lambda>r t. I t \<and> (\<forall>x. r = Inr x \<longrightarrow> Q x)) s"
    using m \<open>I s\<close> by (simp add: gives_def)
  ultimately show "wp m (\<lambda>r. wp (case r of Inl e \<Rightarrow> err e | Inr x \<Rightarrow> f x) (\<lambda>r t. I t \<and> (\<forall>x. r = Inr x \<longrightarrow> R x))) s"
    by (rule wp_mono [rotated])
qed

lemma gives_result: "gives I (err e) Q" "Q x \<Longrightarrow> gives I (ok x) Q"
  by (simp_all add: gives_def wp_simps)

lemma gives_wrap: "gives I m Q \<Longrightarrow> gives I (wrap t m) Q"
  unfolding gives_def wrap_def by (auto simp: wp_simps elim!: wp_mono split: sum.splits)

lemma gives_select:
  assumes "preserves (db_inv P) (sql E Pool f)" and "\<And>i d r d' n. f i d = Inr (r, d') \<Longrightarrow> P n d \<Longrightarrow> Q r"
  shows "gives (db_trace P G) (sql E Pool f) Q"
  unfolding gives_def
proof (intro allI impI)
  fix w
  assume w: "db_trace P G w"
  have "wp (sql E Pool f) (\<lambda>r t. \<forall>x. r = Inr x \<longrightarrow> Q x) w"
    using w by (intro wp_sql_pool) (auto simp: db_trace_def db_inv_def intro: assms(2))
  moreover have "wp (sql E Pool f) (\<lambda>_. db_trace P G) w"
    by (rule preserves_wp [OF preserves_db_trace w]) (intro preserves_rules assms(1))+
  ultimately show "wp (sql E Pool f) (\<lambda>r t. db_trace P G t \<and> (\<forall>x. r = Inr x \<longrightarrow> Q x)) w"
    by (simp add: wp_conj)
qed

lemma build_all_built: "m \<in> set (fst (build_all M ns)) \<Longrightarrow> \<exists>n \<in> set ns. buildReleaseMessage M n = Inr m"
  by (induction ns) (auto split: sum.splits prod.splits)

lemma send_each_trace: "(\<And>m. m \<in> set ms \<Longrightarrow> G (mailed m)) \<Longrightarrow> preserves (trace_ok G) (send_each E ms)"
  by (induction ms) (auto intro!: preserves_rules)

lemma DeliverConfirmation_trace:
  "(\<And>m. buildConfirmation M to repo url = Inr m \<Longrightarrow> G (mailed m)) \<Longrightarrow>
   preserves (trace_ok G) (DeliverConfirmation E M to repo url)"
  unfolding DeliverConfirmation_def sendBatch_def
  by (rule preserves_bindE_result)
    (auto intro!: preserves_rules send_each_trace simp: liftE_def split: list.splits option.splits)

lemma SendReleaseNotifications_trace:
  "(\<And>n m. n \<in> set ns \<Longrightarrow> buildReleaseMessage M n = Inr m \<Longrightarrow> G (mailed m)) \<Longrightarrow>
   preserves (trace_ok G) (SendReleaseNotifications E M ns)"
  unfolding SendReleaseNotifications_def sendBatch_def
  by (auto intro!: preserves_rules send_each_trace split: prod.splits) (metis build_all_built fst_conv)

text \<open>
  The contract of the notifier's mails: if the read model holds only pairs that consented and the failed
  confirmations only links that were asked for, then only such mails go out.
\<close>

locale notif_sourced = notif_rows P E emits
  for P :: "nat \<Rightarrow> 'a notif_db_scheme \<Rightarrow> bool" and E emits +
  fixes G :: "effect \<Rightarrow> bool" and M :: mailer
    and consents :: "string \<Rightarrow> string \<Rightarrow> bool" and asks :: "string \<Rightarrow> string \<Rightarrow> string \<Rightarrow> bool"
  assumes reads_consent: "P n d \<Longrightarrow> r \<in> set (subscriptions_read d) \<Longrightarrow> consents (rd_email r) (rd_repo r)"
    and failed_asked: "P n d \<Longrightarrow> f \<in> set (failed_confirmations d) \<Longrightarrow> asks (fc_email f) (fc_repo f) (fc_url f)"
    and release_mail: "consents (To x) (Repo x) \<Longrightarrow> buildReleaseMessage M x = Inr m \<Longrightarrow> G (mailed m)"
    and confirmation_mail: "asks email repo url \<Longrightarrow> buildConfirmation M email repo url = Inr m \<Longrightarrow> G (mailed m)"
begin

lemma gives_recipients:
  "gives (db_trace P G) (RecipientsByRepo E repo) (\<lambda>rows. \<forall>r \<in> set rows. consents (rd_email r) repo)"
  unfolding RecipientsByRepo_eq
  by (intro gives_wrap gives_select preserves_rules keeps_queries)
    (auto simp: select_read_def dest: reads_consent)

lemma gives_Recipient: "gives (db_trace P G) (Recipient E email repo) (\<lambda>_. consents email repo)"
  unfolding Recipient_eq
proof (rule gives_bindE [OF gives_wrap])
  show "gives (db_trace P G) (sql E Pool (select_read (\<lambda>r. rd_email r = email \<and> rd_repo r = repo)))
      (\<lambda>rows. rows \<noteq> [] \<longrightarrow> consents email repo)"
    by (intro gives_select preserves_rules keeps_queries)
      (auto simp: select_read_def filter_empty_conv dest: reads_consent)
qed (auto simp: exactly_one_def intro!: gives_result split: list.splits)

lemma gives_failed:
  "gives (db_trace P G) (fc_ListRetryable E k t) (\<lambda>rows. \<forall>f \<in> set rows. asks (fc_email f) (fc_repo f) (fc_url f))"
  unfolding fc_ListRetryable_eq
  by (intro gives_wrap gives_select preserves_rules keeps_queries)
    (auto simp: retryable_confirmations_def dest: failed_asked)

lemma sourced_releases:
  "(\<And>n. n \<in> set ns \<Longrightarrow> consents (To n) (Repo n)) \<Longrightarrow> preserves (db_trace P G) (SendReleaseNotifications E M ns)"
  by (intro preserves_db_trace preserves_rules SendReleaseNotifications_trace) (blast intro: release_mail)

lemma sourced_confirmation:
  "asks to repo url \<Longrightarrow> preserves (db_trace P G) (DeliverConfirmation E M to repo url)"
  by (intro preserves_db_trace preserves_rules DeliverConfirmation_trace) (blast intro: confirmation_mail)

lemma sourced_deliver:
  assumes "\<forall>r \<in> set rows. consents (rd_email r) (RepoName ev)"
  shows "preserves (db_trace P G) (notifyrelease_deliver E M base ev rows)"
  using assms unfolding notifyrelease_deliver_def by (auto intro!: preserves_return sourced_releases)

lemma sourced_Execute: "preserves (db_trace P G) (notifyrelease_Execute E M base c ev)"
proof -
  have exists: "preserves (db_trace P G) (wrap t (pr_Exists E repo tag))" for t repo tag
    by (rule preserves_db_trace; intro preserves_rules)
  have commit: "preserves (db_trace P G) (bindE (wrap t (Within E c (\<lambda>txCtx.
      bindE (recordOutcomes E txCtx ev failed rows) (\<lambda>_.
      bindE (enqueue E txCtx SubjectReleaseNotified (ReleaseNotified sid repo tag n failed)) (\<lambda>_.
        pr_Mark E txCtx repo tag))))) (\<lambda>_. do { _ \<leftarrow> Notify; ok x }))"
    for t failed rows sid repo tag n and x :: "nat \<times> string list"
    by (rule preserves_db_trace; intro preserves_rules)
  show ?thesis
    unfolding notifyrelease_Execute_body
    by (intro preserves_bindE [OF exists] preserves_if preserves_return
        preserves_bindE_gives [OF gives_wrap [OF gives_recipients]] preserves_bind sourced_deliver commit)
qed

lemma sourced_HandleReleaseDetected: "preserves (db_trace P G) (notifier_HandleReleaseDetected E M base c p)"
  unfolding notifier_HandleReleaseDetected_def by (intro preserves_rules sourced_Execute)

lemma sourced_tables:
  assumes "emits s ev"
  shows "preserves (db_trace P G) (deleteAndPublish E c (\<lambda>txCtx. bindE (fn_Delete E txCtx i) (\<lambda>_. enqueue E txCtx s ev)))"
    "preserves (db_trace P G) (deleteAndPublish E c (\<lambda>txCtx. bindE (fc_Delete E txCtx i) (\<lambda>_. enqueue E txCtx s ev)))"
    "preserves (db_trace P G) (fn_IncrementRetry E i)" "preserves (db_trace P G) (fc_IncrementRetry E i)"
    "preserves (db_trace P G) (deleteNotification E c i)"
  unfolding deleteAndPublish_def deleteNotification_def
  by (rule preserves_db_trace; intro preserves_rules assms)+

lemma sourced_retryRelease: "preserves (db_trace P G) (retryRelease E M base cfg c fn)"
  unfolding retryRelease_body
  by (rule preserves_bind_gives [OF gives_Recipient])
    (auto intro!: preserves_rules sourced_releases intro: sourced_tables emits_outcomes)

lemma sourced_dead: "preserves (db_trace P G) (deadLetterConfirmation E c fc reason)"
  unfolding deadLetterConfirmation_body by (intro sourced_tables emits_outcomes)

lemma sourced_retryConfirmation:
  "asks (fc_email fc) (fc_repo fc) (fc_url fc) \<Longrightarrow> preserves (db_trace P G) (retryConfirmation E M cfg c fc)"
  unfolding retryConfirmation_body
  by (auto intro!: preserves_rules sourced_confirmation sourced_dead intro: sourced_tables emits_outcomes)

lemma sourced_maintenance: "preserves (db_trace P G) (maintenanceTick E M base cfg ttl c)"
proof -
  have leaf: "preserves (db_trace P G) (fn_ListRetryable E k)" "preserves (db_trace P G) (fc_ListExpired E t)"
    "preserves (db_trace P G) (DeleteProcessedBefore E t)" "preserves (db_trace P G) (Now E)" for k t
    by (rule preserves_db_trace; intro preserves_rules)+
  have releases: "preserves (db_trace P G) (retry_Releases E M base cfg c)"
    unfolding retry_Releases_def by (intro preserves_rules leaf sourced_retryRelease)
  have confirmations: "preserves (db_trace P G) (retry_Confirmations E M cfg c)"
    unfolding retry_Confirmations_def Let_def
    by (intro preserves_bind [OF leaf(4)] preserves_bindE [OF preserves_wrap [OF leaf(2)]]
        preserves_bind preserves_for_each sourced_dead preserves_return
        preserves_bindE_gives [OF gives_wrap [OF gives_failed]] sourced_retryConfirmation) blast
  show ?thesis
    unfolding maintenanceTick_def by (intro preserves_rules releases confirmations leaf)
qed

lemma sourced_HandlePending:
  assumes "\<And>ev. Unmarshal E TSubscriptionPending p = Inr ev \<Longrightarrow> asks (Email ev) (RepoName ev) (ConfirmURL ev) \<and>
    (\<forall>reason. stmt_keeps P (insert_failed_confirmation (SagaID ev) (Email ev) (RepoName ev) (ConfirmURL ev) reason))"
  shows "preserves (db_trace P G) (notifier_HandlePending E M c p)"
proof (rule preserves_db_trace)
  show "preserves (db_inv P) (notifier_HandlePending E M c p)"
    using assms by (intro preserves_HandlePending) blast
  have "preserves (trace_ok G) (sendconfirmation_Execute E M c' ev)"
    if "asks (Email ev) (RepoName ev) (ConfirmURL ev)" for c' ev
    unfolding sendconfirmation_Execute_body
    by (intro preserves_rules DeliverConfirmation_trace confirmation_mail [OF that])
  with assms show "preserves (trace_ok G) (notifier_HandlePending E M c p)"
    unfolding notifier_HandlePending_def decode_event_def
    by (cases "Unmarshal E TSubscriptionPending p") (auto simp: bindE_def intro: preserves_return)
qed

lemma sourced_HandleConfirmed:
  assumes "\<And>ev. Unmarshal E TSubscriptionConfirmed p = Inr ev \<Longrightarrow>
    stmt_keeps P (upsert_read (Email ev) (RepoName ev) (UnsubToken ev))"
  shows "preserves (db_trace P G) (notifier_HandleConfirmed E p)"
  using assms
  by (intro preserves_db_trace preserves_HandleConfirmed)
    (auto simp: notifier_HandleConfirmed_def readmodel_Confirmed_def intro!: preserves_rules)

lemma sourced_HandleRemoved: "preserves (db_trace P G) (notifier_HandleRemoved E p)"
  by (intro preserves_db_trace preserves_rules)
    (auto simp: notifier_HandleRemoved_def readmodel_Removed_def intro!: preserves_rules)

end

end
