(* ===== verification/System.thy ===== *)
theory System
  imports Effects
begin

text \<open>
  The whole system: the four services with their databases and relays, the messages between them and
  the mails they send, as one step relation. A published message may be delivered to its consumers
  at any time, in any order, any number of times; every run of a handler may meet any failures.
\<close>

section \<open>Messages and their justification\<close>

text \<open>A token that the service accepts, at some time, for a pair; a confirmation link signed for a pair.\<close>

definition stands_for :: "jwt \<Rightarrow> string \<Rightarrow> string \<Rightarrow> string \<Rightarrow> bool" where
  "stands_for J token email repo \<longleftrightarrow>
     (\<exists>now claims. jwt_parse J now token = Inr claims \<and> jc_sub claims = email \<and> jc_repo claims = repo)"

definition link_for :: "jwt \<Rightarrow> string \<Rightarrow> string \<Rightarrow> string \<Rightarrow> string \<Rightarrow> bool" where
  "link_for J base email repo url \<longleftrightarrow>
     (\<exists>claims token. jwt_sign J claims = Inr token \<and> jc_sub claims = email \<and> jc_repo claims = repo \<and>
       url = URLBuilder_ConfirmURL base token)"

text \<open>
  An event is justified by what was done through the API: \<open>R\<close> are the pairs somebody asked to subscribe,
  \<open>T\<close> the tokens that were presented for confirmation.
\<close>

definition justified :: "jwt \<Rightarrow> string \<Rightarrow> (string \<times> string) set \<Rightarrow> string set \<Rightarrow> event \<Rightarrow> bool" where
  "justified J base R T e \<longleftrightarrow> (case e of
      SubscriptionPending sid email repo url \<Rightarrow> (email, repo) \<in> R \<and> link_for J base email repo url
    | SubscriptionConfirmed sid email repo t \<Rightarrow> (\<exists>token \<in> T. stands_for J token email repo)
    | _ \<Rightarrow> True)"

text \<open>A message carries a valid event with a given property, under the subject of its type.\<close>

definition says :: "env \<Rightarrow> (event \<Rightarrow> bool) \<Rightarrow> string \<Rightarrow> payload \<Rightarrow> bool" where
  "says V A s p \<longleftrightarrow> (\<exists>e. s = subject_of e \<and> p = Doc (encode e) \<and> eventValidator_Struct V e \<and> A e)"

definition outbox_says :: "env \<Rightarrow> (event \<Rightarrow> bool) \<Rightarrow> nat \<Rightarrow> 'a outbox_db_scheme \<Rightarrow> bool" where
  "outbox_says V A n d \<longleftrightarrow> (\<forall>m \<in> set (outbox d). says V A (ob_subject m) (ob_payload m))"

lemma outbox_says_same: "outbox d' = outbox d \<Longrightarrow> outbox_says V A n d \<Longrightarrow> outbox_says V A k d'"
  by (simp add: outbox_says_def)

lemma stmt_keeps_same_outbox:
  "(\<And>i d r d'. f i d = Inr (r, d') \<Longrightarrow> outbox d' = outbox d) \<Longrightarrow> stmt_keeps (outbox_says V A) f"
  unfolding stmt_keeps_def using outbox_says_same by metis

lemma keeps_said:
  "eventValidator_Struct V e \<Longrightarrow> s = subject_of e \<and> A e \<Longrightarrow> stmt_keeps (outbox_says V A) (insert_outbox s (Doc (encode e)))"
  by (auto simp: stmt_keeps_def insert_outbox_def outbox_says_def says_def)

interpretation saga_says: saga_tables "outbox_says E (justified J base R T)" E
  "\<lambda>s e. s = subject_of e \<and> justified J base R T e" for E J base R T
proof
  show "stmt_keeps (outbox_says E (justified J base R T)) (insert_outbox s (Doc (encode ev)))"
    if "eventValidator_Struct E ev" "s = subject_of ev \<and> justified J base R T ev" for ev s
    using that by (rule keeps_said)
  show "stmt_keeps (outbox_says E (justified J base R T)) (transition to p)" for to p
    by (rule stmt_keeps_same_outbox) (auto simp: transition_def)
  show "stmt_keeps (outbox_says E (justified J base R T)) (start_saga sid ty email repo)" for sid ty email repo
    by (rule stmt_keeps_same_outbox) (auto simp: start_saga_def Let_def split: if_splits)
qed (auto simp: outbox_says_def justified_def)

interpretation sub_says: sub_tables "outbox_says E (justified J base R T)" E
  "\<lambda>s e. s = subject_of e \<and> justified J base R T e" for E J base R T
proof
  show "stmt_keeps (outbox_says E (justified J base R T)) (insert_outbox s (Doc (encode ev)))"
    if "eventValidator_Struct E ev" "s = subject_of ev \<and> justified J base R T ev" for ev s
    using that by (rule keeps_said)
qed (auto intro!: stmt_keeps_same_outbox
    simp: get_or_create_def insert_subscription_def confirm_rows_def delete_token_def delete_pending_def
      delete_expired_def Let_def outbox_says_def justified_def split: list.splits if_splits)

interpretation notif_says: notif_tables "outbox_says E (justified J base R T)" E
  "\<lambda>s e. s = subject_of e \<and> justified J base R T e" for E J base R T
proof
  show "stmt_keeps (outbox_says E (justified J base R T)) (insert_outbox s (Doc (encode ev)))"
    if "eventValidator_Struct E ev" "s = subject_of ev \<and> justified J base R T ev" for ev s
    using that by (rule keeps_said)
qed (auto intro!: stmt_keeps_same_outbox
    simp: upsert_read_def delete_read_def insert_failed_notification_def increment_notification_def
      delete_notification_def insert_failed_confirmation_def increment_confirmation_def delete_confirmation_def
      insert_processed_def delete_processed_def outbox_says_def justified_def split: if_splits)

section \<open>Mails and their source\<close>

definition sourced :: "(string \<Rightarrow> string \<Rightarrow> bool) \<Rightarrow> (string \<Rightarrow> string \<Rightarrow> string \<Rightarrow> bool) \<Rightarrow> nat \<Rightarrow> 'a notif_db_scheme \<Rightarrow> bool" where
  "sourced consents asks n d \<longleftrightarrow>
     (\<forall>r \<in> set (subscriptions_read d). consents (rd_email r) (rd_repo r)) \<and>
     (\<forall>f \<in> set (failed_confirmations d). asks (fc_email f) (fc_repo f) (fc_url f))"

text \<open>The effects of the services: justified messages, and mails to people who asked or consented.\<close>

definition permitted :: "mailer \<Rightarrow> (string \<Rightarrow> string \<Rightarrow> bool) \<Rightarrow> (string \<Rightarrow> string \<Rightarrow> string \<Rightarrow> bool) \<Rightarrow>
    (string \<Rightarrow> payload \<Rightarrow> bool) \<Rightarrow> effect \<Rightarrow> bool" where
  "permitted M consents asks message x \<longleftrightarrow> (case x of
      Published s p \<Rightarrow> message s p
    | CompensateRPC i ty email repo \<Rightarrow> True
    | Mailed to subject body \<Rightarrow>
        (\<exists>n m. consents (To n) (Repo n) \<and> buildReleaseMessage M n = Inr m \<and> mailed m = x) \<or>
        (\<exists>email repo url m. asks email repo url \<and> buildConfirmation M email repo url = Inr m \<and> mailed m = x))"

lemma sourced_keeps:
  "consents email repo \<Longrightarrow> stmt_keeps (sourced consents asks) (upsert_read email repo token)"
  "asks email repo url \<Longrightarrow> stmt_keeps (sourced consents asks) (insert_failed_confirmation saga email repo url reason)"
  by (auto simp: stmt_keeps_def sourced_def upsert_read_def insert_failed_confirmation_def split: if_splits)

lemma permitted_mail:
  "consents (To n) (Repo n) \<Longrightarrow> buildReleaseMessage M n = Inr m \<Longrightarrow> permitted M consents asks message (mailed m)"
  "asks email repo url \<Longrightarrow> buildConfirmation M email repo url = Inr m \<Longrightarrow> permitted M consents asks message (mailed m)"
  by (simp add: permitted_def, blast)+

interpretation mails: notif_sourced "sourced consents asks" E "\<lambda>_ _. True" "permitted M consents asks message" M
  consents asks for E M consents asks message
  by unfold_locales
    (auto intro: permitted_mail simp: stmt_keeps_def sourced_def insert_outbox_def delete_read_def insert_failed_notification_def
      increment_notification_def delete_notification_def increment_confirmation_def delete_confirmation_def
      insert_processed_def delete_processed_def split: if_splits)

section \<open>One service\<close>

text \<open>
  A service between two handlers: its schema \<open>W\<close> holds, its outbox carries justified events, its
  effects are permitted. The relay keeps this for every schema that lets the outbox shrink.
\<close>

definition service_ok :: "(nat \<Rightarrow> 'a outbox_db_scheme \<Rightarrow> bool) \<Rightarrow> env \<Rightarrow> (event \<Rightarrow> bool) \<Rightarrow> (effect \<Rightarrow> bool) \<Rightarrow>
    'a outbox_db_scheme world \<Rightarrow> bool" where
  "service_ok W V A G w \<longleftrightarrow> idle w \<and> W (ncalls w) (committed w) \<and> outbox_says V A (ncalls w) (committed w) \<and> trace_ok G w"

lemma service_ok_run:
  assumes "service_ok W V A G w" and "run_state m w = (r, w')"
    and "preserves idle m" and "preserves (db_inv W) m" and "preserves (db_inv (outbox_says V A)) m"
    and "preserves (trace_ok G) m"
  shows "service_ok W V A G w'"
  using assms preserves_committed [OF assms(4) _ _ assms(2)] preserves_committed [OF assms(5) _ _ assms(2)]
    preservesD [OF assms(3) _ assms(2)] preservesD [OF assms(6) _ assms(2)]
  by (auto simp: service_ok_def idle_def)

lemma service_ok_mono:
  assumes "service_ok W V A G w" and "\<And>e. A e \<Longrightarrow> A' e" and "\<And>x. G x \<Longrightarrow> G' x"
  shows "service_ok W V A' G' w"
  using assms unfolding service_ok_def outbox_says_def says_def trace_ok_def by blast

locale relayed_schema =
  fixes W :: "nat \<Rightarrow> 'a outbox_db_scheme \<Rightarrow> bool"
  assumes schema_outbox: "W n d \<Longrightarrow> outbox_wf n d"
    and schema_shrinks: "W n d \<Longrightarrow> n \<le> k \<Longrightarrow> W k (d\<lparr>outbox := filter q (outbox d)\<rparr>)"
begin

lemma relay_keeps:
  assumes ok: "service_ok W V A G w" and run: "run_state (Run fuel E batch evs) w = (r, w')"
    and published: "\<And>s p. says V A s p \<Longrightarrow> G (Published s p)"
  shows "service_ok W V A G w' \<and> (\<exists>q. committed w' = (committed w)\<lparr>outbox := filter q (outbox (committed w))\<rparr>)"
proof -
  from ok have "open_tx w = None" "outbox_wf (ncalls w) (committed w)"
    by (auto simp: service_ok_def idle_def schema_outbox)
  from wpD [OF Run_relayed [OF this] run] obtain sent gone where
    "open_tx w' = None" "ncalls w \<le> ncalls w'" and tr: "trace w' = trace w @ map pub sent"
    and sub: "set sent \<subseteq> set (outbox (committed w))"
    and d: "committed w' = (committed w)\<lparr>outbox := filter (\<lambda>m. m \<notin> set gone) (outbox (committed w))\<rparr>"
    by (auto simp: relayed_def)
  moreover have "trace_ok G w'"
    using ok sub published by (auto simp: trace_ok_def tr service_ok_def outbox_says_def pub_def)
  ultimately show ?thesis
    using ok d by (auto simp: service_ok_def idle_def d outbox_says_def intro: schema_shrinks)
qed

end

interpretation sub_relay: relayed_schema sub_wf
  by unfold_locales (auto simp: sub_wf_def outbox_wf_def distinct_map_filter)

interpretation saga_relay: relayed_schema saga_wf
  by unfold_locales (auto simp: saga_wf_def outbox_wf_def distinct_map_filter)

interpretation notif_relay: relayed_schema notif_wf
  by unfold_locales (auto simp: notif_wf_def outbox_wf_def distinct_map_filter)

section \<open>The system\<close>

record system =
  sub_w :: "sub_db world"
  saga_w :: "saga_db world"
  notif_w :: "notif_db world"
  scan_w :: "scan_db world"
  requested :: "(string \<times> string) set"
  presented :: "string set"

text \<open>What JetStream holds: every message any service has published.\<close>

definition in_stream :: "system \<Rightarrow> string \<Rightarrow> payload \<Rightarrow> bool" where
  "in_stream S s p \<longleftrightarrow> Published s p \<in> set (trace (sub_w S)) \<union> set (trace (saga_w S)) \<union>
     set (trace (notif_w S)) \<union> set (trace (scan_w S))"

text \<open>All services validate events with the same library.\<close>

definition same_rules :: "env \<Rightarrow> env \<Rightarrow> bool" where
  "same_rules V E \<longleftrightarrow> valid_uuid E = valid_uuid V \<and> valid_email E = valid_email V \<and> valid_url E = valid_url V"

text \<open>
  The steps: the API calls of the subscription service (with the compensation call of the orchestrator's
  gRPC transport), its clean-up, the consumers of every service on any published message, the
  maintenance of the notifier, the scans, and the relays. Each comes with an environment of its own:
  clock, generators and failures.
\<close>

inductive system_step :: "env \<Rightarrow> jwt \<Rightarrow> mailer \<Rightarrow> string \<Rightarrow> system \<Rightarrow> system \<Rightarrow> bool" for V J M base where
  subscribe: "same_rules V E \<Longrightarrow> gh_reads gh \<Longrightarrow>
    run_state (subscribe_Execute E gh J ttl base Background email repo) (sub_w S) = (r, w) \<Longrightarrow>
    system_step V J M base S (S\<lparr>sub_w := w, requested := insert (email, repo) (requested S)\<rparr>)"
| confirm: "same_rules V E \<Longrightarrow> run_state (confirm_Execute E J Background token) (sub_w S) = (r, w) \<Longrightarrow>
    system_step V J M base S (S\<lparr>sub_w := w, presented := insert token (presented S)\<rparr>)"
| unsubscribe: "same_rules V E \<Longrightarrow> run_state (unsubscribe_Execute E Background token) (sub_w S) = (r, w) \<Longrightarrow>
    system_step V J M base S (S\<lparr>sub_w := w\<rparr>)"
| cleanup: "same_rules V E \<Longrightarrow> run_state (cleanup_Run E maxAge Background) (sub_w S) = (r, w) \<Longrightarrow>
    system_step V J M base S (S\<lparr>sub_w := w\<rparr>)"
| compensate: "same_rules V E \<Longrightarrow> run_state (compensate_Execute E Background email repo) (sub_w S) = (b, w) \<Longrightarrow>
    system_step V J M base S (S\<lparr>sub_w := w\<rparr>)"
| sub_relay: "run_state (Run fuel E batch evs) (sub_w S) = (u, w) \<Longrightarrow> system_step V J M base S (S\<lparr>sub_w := w\<rparr>)"
| sub_consume: "same_rules V E \<Longrightarrow> in_stream S subject p \<Longrightarrow>
    (stream, subject, h) \<in> set (subscription_consumers E Background) \<Longrightarrow> run_state (h p) (sub_w S) = (r, w) \<Longrightarrow>
    system_step V J M base S (S\<lparr>sub_w := w\<rparr>)"
| saga_relay: "run_state (Run fuel E batch evs) (saga_w S) = (u, sw) \<Longrightarrow> system_step V J M base S (S\<lparr>saga_w := sw\<rparr>)"
| saga_consume: "same_rules V E \<Longrightarrow> in_stream S subject p \<Longrightarrow>
    (stream, subject, sh) \<in> set (saga_consumers transport E Background) \<Longrightarrow> run_state (sh p) (saga_w S) = (r, sw) \<Longrightarrow>
    system_step V J M base S (S\<lparr>saga_w := sw\<rparr>)"
| notif_relay: "run_state (Run fuel E batch evs) (notif_w S) = (u, nw) \<Longrightarrow> system_step V J M base S (S\<lparr>notif_w := nw\<rparr>)"
| notif_consume: "same_rules V E \<Longrightarrow> in_stream S subject p \<Longrightarrow>
    (stream, subject, nh) \<in> set (notifier_consumers E M base Background) \<Longrightarrow> run_state (nh p) (notif_w S) = (r, nw) \<Longrightarrow>
    system_step V J M base S (S\<lparr>notif_w := nw\<rparr>)"
| maintenance: "same_rules V E \<Longrightarrow>
    run_state (maintenanceTick E M base cfg processedTTL Background) (notif_w S) = (v, nw) \<Longrightarrow>
    system_step V J M base S (S\<lparr>notif_w := nw\<rparr>)"
| scan_consume: "same_rules V E \<Longrightarrow> in_stream S subject p \<Longrightarrow>
    (stream, subject, ch) \<in> set (scanner_consumers E) \<Longrightarrow> run_state (ch p) (scan_w S) = (r, cw) \<Longrightarrow>
    system_step V J M base S (S\<lparr>scan_w := cw\<rparr>)"
| scan: "same_rules V E \<Longrightarrow>
    run_state (scheduler_run E (\<lambda>_. watch_Run E (\<lambda>_. liftE results)) Background) (scan_w S) = (v, cw) \<Longrightarrow>
    system_step V J M base S (S\<lparr>scan_w := cw\<rparr>)"

text \<open>The system starts with empty databases.\<close>

definition initial :: system where
  "initial = \<lparr>sub_w = fresh_world \<lparr>outbox = [], repositories = [], subscriptions = []\<rparr>,
     saga_w = fresh_world \<lparr>outbox = [], sagas = []\<rparr>,
     notif_w = fresh_world \<lparr>outbox = [], subscriptions_read = [], failed_notifications = [],
       failed_confirmations = [], processed_releases = []\<rparr>,
     scan_w = fresh_world \<lparr>watched = []\<rparr>, requested = {}, presented = {}\<rparr>"

inductive reachable :: "env \<Rightarrow> jwt \<Rightarrow> mailer \<Rightarrow> string \<Rightarrow> system \<Rightarrow> bool" for V J M base where
  start: "reachable V J M base initial"
| step: "reachable V J M base S \<Longrightarrow> system_step V J M base S S' \<Longrightarrow> reachable V J M base S'"

section \<open>The invariant of the system\<close>

definition asked :: "jwt \<Rightarrow> string \<Rightarrow> system \<Rightarrow> string \<Rightarrow> string \<Rightarrow> string \<Rightarrow> bool" where
  "asked J base S email repo url \<longleftrightarrow> (email, repo) \<in> requested S \<and> link_for J base email repo url"

definition consented :: "jwt \<Rightarrow> system \<Rightarrow> string \<Rightarrow> string \<Rightarrow> bool" where
  "consented J S email repo \<longleftrightarrow> (\<exists>token \<in> presented S. stands_for J token email repo)"

definition event_ok :: "jwt \<Rightarrow> string \<Rightarrow> system \<Rightarrow> event \<Rightarrow> bool" where
  "event_ok J base S = justified J base (requested S) (presented S)"

definition effect_ok :: "env \<Rightarrow> jwt \<Rightarrow> mailer \<Rightarrow> string \<Rightarrow> system \<Rightarrow> effect \<Rightarrow> bool" where
  "effect_ok V J M base S = permitted M (consented J S) (asked J base S) (says V (event_ok J base S))"

definition system_ok :: "env \<Rightarrow> jwt \<Rightarrow> mailer \<Rightarrow> string \<Rightarrow> system \<Rightarrow> bool" where
  "system_ok V J M base S \<longleftrightarrow>
     service_ok sub_wf V (event_ok J base S) (effect_ok V J M base S) (sub_w S) \<and>
     service_ok saga_wf V (event_ok J base S) (effect_ok V J M base S) (saga_w S) \<and>
     service_ok notif_wf V (event_ok J base S) (effect_ok V J M base S) (notif_w S) \<and>
     sourced (consented J S) (asked J base S) (ncalls (notif_w S)) (committed (notif_w S)) \<and>
     idle (scan_w S) \<and> scan_wf (committed (scan_w S)) \<and> trace_ok (effect_ok V J M base S) (scan_w S)"

lemma system_ok_initial: "system_ok V J M base initial"
  by (auto simp: system_ok_def initial_def service_ok_def idle_def trace_ok_def outbox_says_def sourced_def
      sub_wf_def saga_wf_def notif_wf_def scan_wf_def outbox_wf_def)

text \<open>More requests and more presented tokens justify more.\<close>

lemma justified_mono: "justified J base R T e \<Longrightarrow> R \<subseteq> R' \<Longrightarrow> T \<subseteq> T' \<Longrightarrow> justified J base R' T' e"
  by (auto simp: justified_def split: event.splits)

lemma permitted_mono:
  assumes "permitted M c a m x" and "\<And>e r. c e r \<Longrightarrow> c' e r" and "\<And>e r u. a e r u \<Longrightarrow> a' e r u"
    and "\<And>s p. m s p \<Longrightarrow> m' s p"
  shows "permitted M c' a' m' x"
  using assms unfolding permitted_def by (cases x) (simp_all, blast)

lemma system_ok_grows:
  assumes "system_ok V J M base S" and "requested S \<subseteq> R" and "presented S \<subseteq> T"
  shows "system_ok V J M base (S\<lparr>requested := R, presented := T\<rparr>)"
proof -
  let ?S = "S\<lparr>requested := R, presented := T\<rparr>"
  have e: "event_ok J base S e \<Longrightarrow> event_ok J base ?S e" for e
    using assms(2,3) by (auto simp: event_ok_def intro: justified_mono)
  have c: "consented J S email repo \<Longrightarrow> consented J ?S email repo"
    and a: "asked J base S email repo url \<Longrightarrow> asked J base ?S email repo url" for email repo url
    using assms(2,3) by (auto simp: consented_def asked_def)
  have "effect_ok V J M base S x \<Longrightarrow> effect_ok V J M base ?S x" for x
    unfolding effect_ok_def by (erule permitted_mono) (use c a e in \<open>auto simp: says_def\<close>)
  with assms(1) c a e show ?thesis
    unfolding system_ok_def by (auto simp: sourced_def trace_ok_def intro: service_ok_mono)
qed

lemma same_rules_valid: "same_rules V E \<Longrightarrow> eventValidator_Struct E = eventValidator_Struct V"
proof -
  assume "same_rules V E"
  then have "check_rule E r v = check_rule V r v" for r v
    by (cases r; cases v) (simp_all add: same_rules_def)
  then show ?thesis by (simp add: eventValidator_Struct_def [abs_def] valid_fields_def [abs_def])
qed

lemma same_rules_outbox: "same_rules V E \<Longrightarrow> outbox_says E A = outbox_says V A"
  by (simp add: outbox_says_def [abs_def] says_def same_rules_valid)

text \<open>Tokens: what \<open>Issue\<close> returns is a signed link, what \<open>Verify\<close> accepts stands for its pair.\<close>

lemma Issue_link:
  "run_state (Issue E J ttl email repo) w = (Inr token, w') \<Longrightarrow> link_for J base email repo (URLBuilder_ConfirmURL base token)"
  unfolding Issue_def link_for_def
  by (auto simp: Now_def wrap_def liftE_def split: sum.splits) force

lemma Verify_stands_for: "run_state (Verify E J token) w = (Inr (email, repo), w') \<Longrightarrow> stands_for J token email repo"
  unfolding Verify_def stands_for_def by (auto simp: Now_def split: sum.splits if_splits)

section \<open>Every step keeps the invariant\<close>

text \<open>The subscription service; \<open>R\<close> and \<open>T\<close> are the requests and tokens once the call is made.\<close>

lemma sub_ok_subscribe:
  assumes "service_ok sub_wf V (justified J base R T) G w" and "same_rules V E" and "gh_reads gh" and "(email, repo) \<in> R"
    and "run_state (subscribe_Execute E gh J ttl base Background email repo) w = (r, w')"
  shows "service_ok sub_wf V (justified J base R T) G w'"
proof (rule service_ok_run [OF assms(1,5)])
  show "preserves idle (subscribe_Execute E gh J ttl base Background email repo)"
    by (rule subscription_idle(1) [OF Background_tx assms(3)])
  show "preserves (db_inv sub_wf) (subscribe_Execute E gh J ttl base Background email repo)"
    by (rule sub_wf.preserves_subscribe [OF sub_wf.preserves_reader [OF assms(3)] TrueI])
  have "preserves (db_inv (outbox_says E (justified J base R T))) (subscribe_Execute E gh J ttl base Background email repo)"
  proof (rule sub_says.preserves_subscribe)
    show "preserves (db_inv (outbox_says E (justified J base R T))) (gh c owner name)" for c owner name
      using assms(3) by (rule sub_says.preserves_reader)
    show "SubjectSubscriptionPending = subject_of (SubscriptionPending sid email repo (URLBuilder_ConfirmURL base token)) \<and>
        justified J base R T (SubscriptionPending sid email repo (URLBuilder_ConfirmURL base token))"
      if "run_state (Issue E J ttl email repo) w1 = (Inr token, w2)" for token sid and w1 w2 :: "'a sub_db_scheme world"
      using Issue_link [OF that] assms(4) by (simp add: justified_def)
  qed
  then show "preserves (db_inv (outbox_says V (justified J base R T))) (subscribe_Execute E gh J ttl base Background email repo)"
    by (simp add: same_rules_outbox [OF assms(2)])
  show "preserves (trace_ok G) (subscribe_Execute E gh J ttl base Background email repo)"
    by (rule subscription_trace(1) [OF assms(3)])
qed

lemma sub_ok_confirm:
  assumes "service_ok sub_wf V (justified J base R T) G w" and "same_rules V E" and "token \<in> T"
    and "run_state (confirm_Execute E J Background token) w = (r, w')"
  shows "service_ok sub_wf V (justified J base R T) G w'"
proof (rule service_ok_run [OF assms(1,4)])
  have "preserves (db_inv (outbox_says E (justified J base R T))) (confirm_Execute E J Background token)"
    using assms(3) by (intro sub_says.preserves_confirm) (auto simp: justified_def dest: Verify_stands_for)
  then show "preserves (db_inv (outbox_says V (justified J base R T))) (confirm_Execute E J Background token)"
    by (simp add: same_rules_outbox [OF assms(2)])
qed (rule subscription_idle [OF Background_tx] sub_wf.preserves_confirm TrueI subscription_trace)+

lemma sub_ok_others:
  assumes "service_ok sub_wf V (justified J base R T) G w" and "same_rules V E" and "run_state m w = (r, w')"
    and "m \<in> {unsubscribe_Execute E Background token, cleanup_Run E maxAge Background, HandleCompensate E Background p}"
  shows "service_ok sub_wf V (justified J base R T) G w'"
  using assms(4)
  by (intro service_ok_run [OF assms(1,3)])
    (auto simp flip: same_rules_outbox [OF assms(2)] intro: subscription_idle [OF Background_tx] subscription_trace
      sub_wf.preserves_use_cases sub_says.preserves_use_cases)

lemma sub_ok_compensate:
  assumes "service_ok sub_wf V (justified J base R T) G w" and "same_rules V E"
    and "run_state (compensate_Execute E Background email repo) w = (b, w')"
  shows "service_ok sub_wf V (justified J base R T) G w'"
  by (intro service_ok_run [OF assms(1,3)])
    (auto simp flip: same_rules_outbox [OF assms(2)] intro: subscription_idle [OF Background_tx] subscription_trace
      sub_wf.preserves_use_cases sub_says.preserves_use_cases)

text \<open>The orchestrator, the notifier and the scanner.\<close>

lemma saga_ok_consume:
  assumes "service_ok saga_wf V (justified J base R T) G w" and "same_rules V E"
    and "(stream, subject, h) \<in> set (saga_consumers transport E Background)" and "run_state (h p) w = (r, w')"
    and "\<And>i ty email repo. G (CompensateRPC i ty email repo)"
  shows "service_ok saga_wf V (justified J base R T) G w'"
proof (rule service_ok_run [OF assms(1,4)])
  show "preserves (db_inv (outbox_says V (justified J base R T))) (h p)"
    unfolding same_rules_outbox [OF assms(2), symmetric] by (rule saga_says.preserves_consumers [OF assms(3)])
qed (rule saga_idle [OF Background_tx assms(3)] saga_wf.preserves_consumers [OF assms(3)]
    saga_trace [where G = G, OF _ assms(3)] assms(5))+

lemma notif_ok_consume:
  assumes ok: "service_ok notif_wf V (justified J base R T) G w" "sourced consents asks (ncalls w) (committed w)"
    and rules: "same_rules V E" and G: "G = permitted M consents asks message"
    and h: "(stream, subject, h) \<in> set (notifier_consumers E M base Background)" and run: "run_state (h p) w = (r, w')"
    and confirmed: "\<And>ev. subject = SubjectSubscriptionConfirmed \<Longrightarrow> Unmarshal E TSubscriptionConfirmed p = Inr ev \<Longrightarrow>
      consents (Email ev) (RepoName ev)"
    and pending: "\<And>ev. subject = SubjectSubscriptionPending \<Longrightarrow> Unmarshal E TSubscriptionPending p = Inr ev \<Longrightarrow>
      asks (Email ev) (RepoName ev) (ConfirmURL ev)"
  shows "service_ok notif_wf V (justified J base R T) G w' \<and> sourced consents asks (ncalls w') (committed w')"
proof -
  have "preserves (db_trace (sourced consents asks) G) (h p)"
    using h confirmed pending unfolding notifier_consumers_def G
    by (auto simp: subject_defs intro!: mails.sourced_HandleReleaseDetected mails.sourced_HandleRemoved
        mails.sourced_HandlePending mails.sourced_HandleConfirmed sourced_keeps)
  note source = preservesD [OF this _ run]
  have "preserves (db_inv (outbox_says V (justified J base R T))) (h p)"
    unfolding same_rules_outbox [OF rules, symmetric] by (rule notif_says.preserves_consumers [OF h])
  note says = preserves_committed [OF this _ _ run]
  note wf = preserves_committed [OF notif_wf.preserves_consumers [OF h] _ _ run]
  note idle = preservesD [OF notifier_idle [OF Background_tx h] _ run]
  show ?thesis
    using ok source says wf idle by (auto simp: service_ok_def db_trace_def db_inv_def idle_def)
qed

lemma notif_ok_maintenance:
  assumes ok: "service_ok notif_wf V (justified J base R T) G w" "sourced consents asks (ncalls w) (committed w)"
    and rules: "same_rules V E" and G: "G = permitted M consents asks message"
    and run: "run_state (maintenanceTick E M b cfg ttl Background) w = (r, w')"
  shows "service_ok notif_wf V (justified J base R T) G w' \<and> sourced consents asks (ncalls w') (committed w')"
proof -
  note source = preservesD [OF mails.sourced_maintenance _ run]
  have "preserves (db_inv (outbox_says V (justified J base R T))) (maintenanceTick E M b cfg ttl Background)"
    unfolding same_rules_outbox [OF rules, symmetric] by (rule notif_says.preserves_maintenance)
  note says = preserves_committed [OF this _ _ run]
  note wf = preserves_committed [OF notif_wf.preserves_maintenance _ _ run]
  note idle = preservesD [OF maintenance_idle [OF Background_tx] _ run]
  show ?thesis
    using ok source says wf idle by (auto simp: G service_ok_def db_trace_def db_inv_def idle_def)
qed

lemma scan_ok_run:
  assumes "idle w" and "scan_wf (committed w)" and "trace_ok G w" and "run_state m w = (r, w')"
    and "preserves idle m" and "preserves (db_inv (\<lambda>_. scan_wf)) m" and "preserves (trace_ok G) m"
  shows "idle w' \<and> scan_wf (committed w') \<and> trace_ok G w'"
  using assms(1-3) preservesD [OF assms(5) _ assms(4)] preserves_committed [OF assms(6) _ _ assms(4)]
    preservesD [OF assms(7) _ assms(4)]
  by (auto simp: idle_def)

text \<open>Replacing the world of one service, with the requests and tokens unchanged.\<close>

lemmas ghost_defs = event_ok_def effect_ok_def consented_def [abs_def] asked_def [abs_def]

lemma system_ok_worlds:
  "system_ok V J M base S \<Longrightarrow> service_ok sub_wf V (event_ok J base S) (effect_ok V J M base S) w \<Longrightarrow>
    system_ok V J M base (S\<lparr>sub_w := w\<rparr>)"
  "system_ok V J M base S \<Longrightarrow> service_ok saga_wf V (event_ok J base S) (effect_ok V J M base S) sw \<Longrightarrow>
    system_ok V J M base (S\<lparr>saga_w := sw\<rparr>)"
  "system_ok V J M base S \<Longrightarrow> service_ok notif_wf V (event_ok J base S) (effect_ok V J M base S) nw \<and>
    sourced (consented J S) (asked J base S) (ncalls nw) (committed nw) \<Longrightarrow> system_ok V J M base (S\<lparr>notif_w := nw\<rparr>)"
  "system_ok V J M base S \<Longrightarrow> idle cw \<and> scan_wf (committed cw) \<and> trace_ok (effect_ok V J M base S) cw \<Longrightarrow>
    system_ok V J M base (S\<lparr>scan_w := cw\<rparr>)"
  by (simp_all add: system_ok_def ghost_defs)

lemma in_stream_says: "system_ok V J M base S \<Longrightarrow> in_stream S s p \<Longrightarrow> says V (event_ok J base S) s p"
  by (auto simp: system_ok_def service_ok_def trace_ok_def in_stream_def effect_ok_def permitted_def)

lemma says_decoded:
  assumes "says V A (subject_for ty) p" and "Unmarshal E ty p = Inr ev" and "ty \<noteq> TReleaseNotified"
  shows "type_of ev = ty \<and> A ev"
proof -
  from assms(1) obtain e where "subject_for ty = subject_for (type_of e)" and e: "p = Doc (encode e)" "A e"
    by (auto simp: says_def subject_of_def)
  then have "type_of e = ty" by simp
  with e assms(2,3) Unmarshal_encode_eq [of e ty E ev] show ?thesis by simp
qed

lemma decoded_pending:
  assumes "system_ok V J M base S" and "in_stream S SubjectSubscriptionPending p" and "Unmarshal E TSubscriptionPending p = Inr ev"
  shows "asked J base S (Email ev) (RepoName ev) (ConfirmURL ev)"
  using says_decoded [of V "event_ok J base S" TSubscriptionPending p E ev] in_stream_says [OF assms(1,2)] assms(3)
  by (cases ev) (auto simp: event_ok_def justified_def asked_def)

lemma decoded_confirmed:
  assumes "system_ok V J M base S" and "in_stream S SubjectSubscriptionConfirmed p" and "Unmarshal E TSubscriptionConfirmed p = Inr ev"
  shows "consented J S (Email ev) (RepoName ev)"
  using says_decoded [of V "event_ok J base S" TSubscriptionConfirmed p E ev] in_stream_says [OF assms(1,2)] assms(3)
  by (cases ev) (auto simp: event_ok_def justified_def consented_def)

lemma effect_ok_published: "says V (event_ok J base S) s p \<Longrightarrow> effect_ok V J M base S (Published s p)"
  by (simp add: effect_ok_def permitted_def)

lemma effect_ok_rpc: "effect_ok V J M base S (CompensateRPC i ty email repo)"
  by (simp add: effect_ok_def permitted_def)

lemma detected_ok:
  assumes "same_rules V E" and "eventValidator_Struct E (ReleaseDetected sid repo tag url)"
  shows "effect_ok V J M base S (Published SubjectReleaseDetected (Doc (encode (ReleaseDetected sid repo tag url))))"
  using assms same_rules_valid [OF assms(1)]
  by (intro effect_ok_published) (force simp: says_def event_ok_def justified_def)

text \<open>An API call that brings new requests or tokens with it.\<close>

lemma api_call_ok:
  assumes ok: "system_ok V J M base S" and grows: "requested S \<subseteq> R" "presented S \<subseteq> T"
    and call: "\<And>G. service_ok sub_wf V (justified J base R T) G (sub_w S) \<Longrightarrow> service_ok sub_wf V (justified J base R T) G w"
  shows "system_ok V J M base (S\<lparr>sub_w := w, requested := R, presented := T\<rparr>)"
proof -
  let ?S = "S\<lparr>requested := R, presented := T\<rparr>"
  from system_ok_grows [OF ok grows] have S: "system_ok V J M base ?S" .
  then have "service_ok sub_wf V (event_ok J base ?S) (effect_ok V J M base ?S) (sub_w S)" by (simp add: system_ok_def)
  from call [OF this [unfolded event_ok_def, simplified]]
  have "system_ok V J M base (?S\<lparr>sub_w := w\<rparr>)" by (intro system_ok_worlds(1) [OF S]) (simp add: event_ok_def)
  also have "?S\<lparr>sub_w := w\<rparr> = S\<lparr>sub_w := w, requested := R, presented := T\<rparr>" by (cases S) simp
  finally show ?thesis .
qed

lemma ghosts_same: "S\<lparr>sub_w := w, requested := R, presented := presented S\<rparr> = S\<lparr>sub_w := w, requested := R\<rparr>"
  "S\<lparr>sub_w := w, requested := requested S, presented := T\<rparr> = S\<lparr>sub_w := w, presented := T\<rparr>"
  by (cases S; simp)+

lemma notif_relay_ok:
  assumes "system_ok V J M base S" and "run_state (Run fuel E batch evs) (notif_w S) = (u, nw)"
  shows "system_ok V J M base (S\<lparr>notif_w := nw\<rparr>)"
proof -
  from assms(1) have notif: "service_ok notif_wf V (event_ok J base S) (effect_ok V J M base S) (notif_w S)"
    "sourced (consented J S) (asked J base S) (ncalls (notif_w S)) (committed (notif_w S))"
    by (simp_all add: system_ok_def)
  from notif_relay.relay_keeps [OF notif(1) assms(2) effect_ok_published] notif(2) show ?thesis
    by (intro system_ok_worlds(3) [OF assms(1)]) (auto simp: sourced_def)
qed

lemma scan_step_ok:
  assumes ok: "system_ok V J M base S" and run: "run_state m (scan_w S) = (r, cw)" and "preserves idle m"
    and "preserves (db_inv (\<lambda>_. scan_wf)) m" and "preserves (trace_ok (effect_ok V J M base S)) m"
  shows "system_ok V J M base (S\<lparr>scan_w := cw\<rparr>)"
  using ok by (intro system_ok_worlds(4) [OF ok] scan_ok_run [OF _ _ _ run assms(3-5)]) (simp_all add: system_ok_def)

lemma scan_consume_ok:
  assumes "system_ok V J M base S" "(stream, subject, h) \<in> set (scanner_consumers E)" "run_state (h p) (scan_w S) = (r, cw)"
  shows "system_ok V J M base (S\<lparr>scan_w := cw\<rparr>)"
proof -
  have "preserves (db_inv (\<lambda>_. scan_wf)) (h p)" using preserves_scan_wf assms(2) by (auto simp: scanner_consumers_def)
  then show ?thesis by (intro scan_step_ok [OF assms(1,3)] scanner_consumes [OF assms(2)])
qed

lemma scan_pass_ok:
  assumes "system_ok V J M base S" "same_rules V E"
    and "run_state (scheduler_run E (\<lambda>_. watch_Run E (\<lambda>_. liftE results)) Background) (scan_w S) = (v, cw)"
  shows "system_ok V J M base (S\<lparr>scan_w := cw\<rparr>)"
  by (rule scan_step_ok [OF assms(1,3)])
    (intro preserves_scheduler_run preserves_rules watch_quiet preserves_watch_Run detected_ok [OF assms(2)])+

lemma notif_step_ok:
  assumes ok: "system_ok V J M base S"
    and "service_ok notif_wf V (event_ok J base S) (effect_ok V J M base S) (notif_w S) \<Longrightarrow>
      sourced (consented J S) (asked J base S) (ncalls (notif_w S)) (committed (notif_w S)) \<Longrightarrow>
      service_ok notif_wf V (event_ok J base S) (effect_ok V J M base S) nw \<and>
      sourced (consented J S) (asked J base S) (ncalls nw) (committed nw)"
  shows "system_ok V J M base (S\<lparr>notif_w := nw\<rparr>)"
  using assms(2) ok by (intro system_ok_worlds(3) [OF ok]) (simp add: system_ok_def)

lemma notif_consume_ok:
  assumes ok: "system_ok V J M base S" and "same_rules V E" "in_stream S subject p"
    and "(stream, subject, h) \<in> set (notifier_consumers E M base Background)" "run_state (h p) (notif_w S) = (r, nw)"
  shows "system_ok V J M base (S\<lparr>notif_w := nw\<rparr>)"
proof (rule notif_step_ok [OF ok])
  assume notif: "service_ok notif_wf V (event_ok J base S) (effect_ok V J M base S) (notif_w S)"
    "sourced (consented J S) (asked J base S) (ncalls (notif_w S)) (committed (notif_w S))"
  show "service_ok notif_wf V (event_ok J base S) (effect_ok V J M base S) nw \<and>
      sourced (consented J S) (asked J base S) (ncalls nw) (committed nw)"
    unfolding event_ok_def
    by (rule notif_ok_consume [OF notif [unfolded event_ok_def] assms(2) effect_ok_def assms(4,5)])
      (use assms(3) in \<open>auto intro: decoded_pending [OF ok] decoded_confirmed [OF ok]\<close>)
qed

lemma notif_maintenance_ok:
  assumes ok: "system_ok V J M base S" and "same_rules V E"
    and "run_state (maintenanceTick E M base cfg processedTTL Background) (notif_w S) = (v, nw)"
  shows "system_ok V J M base (S\<lparr>notif_w := nw\<rparr>)"
  using notif_ok_maintenance [OF _ _ assms(2) effect_ok_def assms(3)]
  by (intro notif_step_ok [OF ok]) (simp add: event_ok_def)

lemma system_step_ok:
  assumes "system_step V J M base S S'" and ok: "system_ok V J M base S"
  shows "system_ok V J M base S'"
proof -
  have sub: "service_ok sub_wf V (event_ok J base S) (effect_ok V J M base S) (sub_w S)"
    and saga: "service_ok saga_wf V (event_ok J base S) (effect_ok V J M base S) (saga_w S)"
    using ok by (simp_all add: system_ok_def)
  note worlds = system_ok_worlds [OF ok]
  note sub_ok = sub [unfolded event_ok_def]
  from assms(1) show ?thesis
  proof cases
    case (subscribe E gh ttl email repo r w)
    have "system_ok V J M base (S\<lparr>sub_w := w, requested := insert (email, repo) (requested S), presented := presented S\<rparr>)"
      by (rule api_call_ok [OF ok]) (auto intro: sub_ok_subscribe [OF _ subscribe(2,3) _ subscribe(4)])
    then show ?thesis unfolding subscribe(1) ghosts_same .
  next
    case (confirm E token r w)
    have "system_ok V J M base (S\<lparr>sub_w := w, requested := requested S, presented := insert token (presented S)\<rparr>)"
      by (rule api_call_ok [OF ok]) (auto intro: sub_ok_confirm [OF _ confirm(2) _ confirm(3)])
    then show ?thesis unfolding confirm(1) ghosts_same .
  next
    case (unsubscribe E token r w)
    then show ?thesis by (auto intro!: worlds(1) sub_ok_others [OF sub_ok unsubscribe(2,3), folded event_ok_def])
  next
    case (cleanup E maxAge r w)
    then show ?thesis by (auto intro!: worlds(1) sub_ok_others [OF sub_ok cleanup(2,3), folded event_ok_def])
  next
    case (compensate E email repo b w)
    then show ?thesis by (auto intro!: worlds(1) sub_ok_compensate [OF sub_ok compensate(2,3), folded event_ok_def])
  next
    case (sub_consume E subject p stream h r w)
    then have "h p = HandleCompensate E Background p" by (simp add: subscription_consumers_def)
    with sub_consume show ?thesis
      by (auto intro!: worlds(1) sub_ok_others [OF sub_ok sub_consume(2,5), folded event_ok_def])
  next
    case (saga_consume E subject p stream h transport r sw)
    then show ?thesis
      by (auto intro!: worlds(2) effect_ok_rpc
          saga_ok_consume [OF saga [unfolded event_ok_def] saga_consume(2,4,5), folded event_ok_def])
  next
    case (notif_consume E subject p stream h r nw)
    then show ?thesis using notif_consume_ok [OF ok] by blast
  next
    case (maintenance E cfg processedTTL v nw)
    then show ?thesis using notif_maintenance_ok [OF ok] by blast
  next
    case (scan_consume E subject p stream h r cw)
    then show ?thesis using scan_consume_ok [OF ok] by blast
  next
    case (scan E results v cw)
    then show ?thesis using scan_pass_ok [OF ok] by blast
  qed (auto intro!: worlds(1,2) notif_relay_ok [OF ok] effect_ok_published sub_relay.relay_keeps [OF sub, THEN conjunct1] saga_relay.relay_keeps [OF saga, THEN conjunct1])
qed

lemma reachable_ok: "reachable V J M base S \<Longrightarrow> system_ok V J M base S"
  by (induction rule: reachable.induct) (blast intro: system_ok_initial system_step_ok)+


section \<open>A run of the system\<close>

text \<open>
  The premises of the theorems below are met by real runs: somebody subscribes, gets the confirmation mail,
  confirms, the scanner learns the repository, sees a release, then a newer one, and the notifier mails it.
\<close>

definition demo_tokens :: jwt where
  "demo_tokens = \<lparr>
     jwt_sign = (\<lambda>cl. if jc_sub cl = ''a@b'' \<and> jc_repo cl = ''go/go'' then Inr ''tok'' else Inl (External ''key'')),
     jwt_parse = (\<lambda>now token. if token = ''tok''
       then Inr \<lparr>jc_repo = ''go/go'', jc_sub = ''a@b'', jc_iat = 0, jc_exp = now + 1\<rparr> else Inl (External ''malformed''))\<rparr>"

definition payload_at :: "nat \<Rightarrow> 'db world \<Rightarrow> payload" where
  "payload_at k w = (if k < length (trace w) then (case trace w ! k of Published s p \<Rightarrow> p | _ \<Rightarrow> Garbage) else Garbage)"

definition demo_subscribe :: "system \<Rightarrow> system" where
  "demo_subscribe S = S\<lparr>sub_w := snd (run_state (subscribe_Execute calm_env demo_gh demo_tokens 9 ''x'' Background ''a@b'' ''go/go'')
     (sub_w S)), requested := insert (''a@b'', ''go/go'') (requested S)\<rparr>"

definition demo_relay :: "system \<Rightarrow> system" where
  "demo_relay S = S\<lparr>sub_w := snd (run_state (Run 5 calm_env 100 [Tick]) (sub_w S))\<rparr>"

definition demo_mail :: "system \<Rightarrow> system" where
  "demo_mail S = S\<lparr>notif_w := snd (run_state (notifier_HandlePending calm_env demo_mailer Background (payload_at 0 (sub_w S)))
     (notif_w S))\<rparr>"

definition demo_confirm :: "system \<Rightarrow> system" where
  "demo_confirm S = S\<lparr>sub_w := snd (run_state (confirm_Execute calm_env demo_tokens Background ''tok'') (sub_w S)),
     presented := insert ''tok'' (presented S)\<rparr>"

definition demo_read :: "system \<Rightarrow> system" where
  "demo_read S = S\<lparr>notif_w := snd (run_state (notifier_HandleConfirmed calm_env (payload_at 1 (sub_w S))) (notif_w S))\<rparr>"

definition demo_watch :: "system \<Rightarrow> system" where
  "demo_watch S = S\<lparr>scan_w := snd (run_state (scanner_HandleConfirmed calm_env (payload_at 1 (sub_w S))) (scan_w S))\<rparr>"

definition demo_scan :: "string \<Rightarrow> system \<Rightarrow> system" where
  "demo_scan tag S = S\<lparr>scan_w := snd (run_state (scheduler_run calm_env (\<lambda>_. watch_Run calm_env (\<lambda>_. liftE (Inr [(''go/go'', \<lparr>TagName = tag, HTMLURL = ''https:u''\<rparr>)]))) Background)
     (scan_w S))\<rparr>"

definition demo_release :: "system \<Rightarrow> system" where
  "demo_release S = S\<lparr>notif_w := snd (run_state (notifier_HandleReleaseDetected calm_env demo_mailer ''x'' Background
     (payload_at 0 (scan_w S))) (notif_w S))\<rparr>"

definition published_at :: "nat \<Rightarrow> string \<Rightarrow> 'db world \<Rightarrow> bool" where
  "published_at k s w \<longleftrightarrow> k < length (trace w) \<and> trace w ! k = Published s (payload_at k w)"

lemma published_in_stream:
  "published_at k s (sub_w S) \<Longrightarrow> in_stream S s (payload_at k (sub_w S))"
  "published_at k s (scan_w S) \<Longrightarrow> in_stream S s (payload_at k (scan_w S))"
  unfolding in_stream_def published_at_def by (metis UnI1 UnI2 nth_mem)+

lemma same_rules_refl: "same_rules V V"
  by (simp add: same_rules_def)

lemma demo_calls:
  "system_step calm_env demo_tokens demo_mailer ''x'' S (demo_subscribe S)"
  "system_step calm_env demo_tokens demo_mailer ''x'' S (demo_relay S)"
  "system_step calm_env demo_tokens demo_mailer ''x'' S (demo_confirm S)"
  "system_step calm_env demo_tokens demo_mailer ''x'' S (demo_scan tag S)"
  unfolding demo_subscribe_def demo_relay_def demo_confirm_def demo_scan_def
  by (rule system_step.subscribe [OF same_rules_refl demo_gh_reads prod.collapse [symmetric]]
      system_step.sub_relay [OF prod.collapse [symmetric]]
      system_step.confirm [OF same_rules_refl prod.collapse [symmetric]]
      system_step.scan [OF same_rules_refl prod.collapse [symmetric]])+

lemma demo_consumers:
  "(StreamSubscriptions, SubjectSubscriptionPending, notifier_HandlePending E M c) \<in> set (notifier_consumers E M base c)"
  "(StreamSubscriptions, SubjectSubscriptionConfirmed, notifier_HandleConfirmed E) \<in> set (notifier_consumers E M base c)"
  "(StreamReleases, SubjectReleaseDetected, notifier_HandleReleaseDetected E M base c) \<in> set (notifier_consumers E M base c)"
  "(StreamSubscriptions, SubjectSubscriptionConfirmed, scanner_HandleConfirmed E) \<in> set (scanner_consumers E)"
  by (simp_all add: notifier_consumers_def scanner_consumers_def)

lemma demo_deliveries:
  "published_at 0 SubjectSubscriptionPending (sub_w S) \<Longrightarrow> system_step calm_env demo_tokens demo_mailer ''x'' S (demo_mail S)"
  "published_at 1 SubjectSubscriptionConfirmed (sub_w S) \<Longrightarrow> system_step calm_env demo_tokens demo_mailer ''x'' S (demo_read S)"
  "published_at 1 SubjectSubscriptionConfirmed (sub_w S) \<Longrightarrow> system_step calm_env demo_tokens demo_mailer ''x'' S (demo_watch S)"
  "published_at 0 SubjectReleaseDetected (scan_w S) \<Longrightarrow> system_step calm_env demo_tokens demo_mailer ''x'' S (demo_release S)"
  unfolding demo_mail_def demo_read_def demo_watch_def demo_release_def
  by (rule system_step.notif_consume [OF same_rules_refl published_in_stream(1) demo_consumers(1) prod.collapse [symmetric]]
      system_step.notif_consume [OF same_rules_refl published_in_stream(1) demo_consumers(2) prod.collapse [symmetric]]
      system_step.notif_consume [OF same_rules_refl published_in_stream(2) demo_consumers(3) prod.collapse [symmetric]]
      system_step.scan_consume [OF same_rules_refl published_in_stream(1) demo_consumers(4) prod.collapse [symmetric]],
      assumption)+

text \<open>The confirmation is out; both confirmed; the release is mailed.\<close>

definition demo_asked :: system where
  "demo_asked = demo_mail (demo_relay (demo_subscribe initial))"

definition demo_joined :: system where
  "demo_joined = demo_relay (demo_confirm demo_asked)"

definition demo_seen :: system where
  "demo_seen = demo_scan ''v2'' (demo_scan ''v1'' (demo_watch (demo_read demo_joined)))"

definition demo_final :: system where
  "demo_final = demo_release demo_seen"

lemma sub_w_kept: "sub_w (demo_read S) = sub_w S" "sub_w (demo_mail S) = sub_w S"
  by (simp_all add: demo_read_def demo_mail_def)

lemma demo_published:
  "published_at 0 SubjectSubscriptionPending (sub_w (demo_relay (demo_subscribe initial)))"
  "published_at 1 SubjectSubscriptionConfirmed (sub_w demo_joined)"
  "published_at 0 SubjectReleaseDetected (scan_w demo_seen)"
  by code_simp+

lemma demo_reachable: "reachable calm_env demo_tokens demo_mailer ''x'' demo_final"
proof -
  note go = reachable.step [OF _ demo_calls(1)] reachable.step [OF _ demo_calls(2)] reachable.step [OF _ demo_calls(3)]
    reachable.step [OF _ demo_calls(4)]
  have "reachable calm_env demo_tokens demo_mailer ''x'' demo_asked"
    unfolding demo_asked_def by (rule reachable.step [OF _ demo_deliveries(1) [OF demo_published(1)]]) (intro go reachable.start)
  then have "reachable calm_env demo_tokens demo_mailer ''x'' demo_joined"
    unfolding demo_joined_def by (intro go)
  then have "reachable calm_env demo_tokens demo_mailer ''x'' (demo_watch (demo_read demo_joined))"
    by (rule reachable.step [OF reachable.step [OF _ demo_deliveries(2)] demo_deliveries(3)])
      (simp_all only: sub_w_kept demo_published)
  then have "reachable calm_env demo_tokens demo_mailer ''x'' demo_seen"
    unfolding demo_seen_def by (intro go)
  then show ?thesis
    unfolding demo_final_def by (rule reachable.step [OF _ demo_deliveries(4) [OF demo_published(3)]])
qed

primrec mailed_to :: "effect \<Rightarrow> string option" where
  "mailed_to (Published s p) = None"
| "mailed_to (Mailed to subject body) = Some to"
| "mailed_to (CompensateRPC i ty email repo) = None"

lemma demo_mails: "map mailed_to (trace (notif_w demo_final)) = [Some ''a@b'', Some ''a@b'']"
  by code_simp

lemma mailed_to_Some: "mailed_to x = Some to \<Longrightarrow> \<exists>subject body. x = Mailed to subject body"
  by (cases x) auto

lemma demo_mail_sent: "\<exists>subject body. trace (notif_w demo_final) ! 1 = Mailed ''a@b'' subject body \<and> 1 < length (trace (notif_w demo_final))"
proof -
  from demo_mails have "length (trace (notif_w demo_final)) = 2" by (metis length_map length_Cons list.size(3) numeral_2_eq_2)
  moreover from this demo_mails have "mailed_to (trace (notif_w demo_final) ! 1) = Some ''a@b''"
    by (metis nth_map nth_Cons_Suc nth_Cons_0 One_nat_def one_less_numeral_iff semiring_norm(76))
  ultimately show ?thesis using mailed_to_Some by fastforce
qed

section \<open>What holds in every reachable state\<close>

lemma buildConfirmation_To: "buildConfirmation M to repo url = Inr m \<Longrightarrow> msg_To m = to"
  by (auto simp: buildConfirmation_def renderTemplate_def buildMessage_def split: option.splits sum.splits)

text \<open>
  \<^bold>\<open>C1.\<close> Nobody gets a mail they did not ask for, over all services, all interleavings of their steps,
  every order and number of deliveries and every failure: a mail that was ever sent is either a
  release notification to an address for which a token was presented that the service accepts for exactly this
  address and repository, or a confirmation mail to an address that was asked to be subscribed to the
  repository, with a link whose token is signed for exactly this pair.
\<close>

theorem no_unsolicited_mail:
  assumes "reachable V J M base S" and "Mailed to subject body \<in> set (trace (notif_w S))"
  shows "(\<exists>token \<in> presented S. \<exists>now claims n m. jwt_parse J now token = Inr claims \<and> jc_sub claims = to \<and>
      jc_repo claims = Repo n \<and> buildReleaseMessage M n = Inr m \<and> To n = to \<and> msg_Subject m = subject \<and> msg_Body m = body) \<or>
    (\<exists>repo claims token m. (to, repo) \<in> requested S \<and> jwt_sign J claims = Inr token \<and> jc_sub claims = to \<and>
      jc_repo claims = repo \<and> buildConfirmation M to repo (URLBuilder_ConfirmURL base token) = Inr m \<and>
      msg_Subject m = subject \<and> msg_Body m = body)"
proof -
  from reachable_ok [OF assms(1)] assms(2) have "effect_ok V J M base S (Mailed to subject body)"
    by (auto simp: system_ok_def service_ok_def trace_ok_def)
  then consider
      (release) n m where "consented J S (To n) (Repo n)" "buildReleaseMessage M n = Inr m" "mailed m = Mailed to subject body"
    | (confirmation) email repo url m where "asked J base S email repo url" "buildConfirmation M email repo url = Inr m"
        "mailed m = Mailed to subject body"
    unfolding effect_ok_def permitted_def by auto
  then show ?thesis
  proof cases
    case release
    then have "To n = to" using buildReleaseMessage_To by auto
    with release show ?thesis unfolding consented_def stands_for_def by (auto, blast)
  next
    case confirmation
    then have "email = to" using buildConfirmation_To by auto
    with confirmation show ?thesis unfolding asked_def link_for_def by (auto, blast)
  qed
qed

theorem no_unsolicited_mail_witness:
  "\<exists>subject body. Mailed ''a@b'' subject body \<in> set (trace (notif_w demo_final)) \<and>
     ((\<exists>token \<in> presented demo_final. \<exists>repo. stands_for demo_tokens token ''a@b'' repo) \<or>
      (\<exists>repo. (''a@b'', repo) \<in> requested demo_final))"
proof -
  obtain subject body where "Mailed ''a@b'' subject body \<in> set (trace (notif_w demo_final))"
    using demo_mail_sent nth_mem by metis
  from no_unsolicited_mail [OF demo_reachable this] this show ?thesis unfolding stands_for_def by blast
qed

text \<open>
  \<^bold>\<open>C6.\<close> No service ever publishes a message that a consumer has to discard: every message in the
  streams of a reachable system is the encoding of a valid event under the subject of its type, and every
  consumer decodes it to exactly that event (for a count of sent mails that fits Go's \<open>int\<close>).
\<close>

theorem no_poison_messages:
  assumes "reachable V J M base S" and "in_stream S s p" and "same_rules V E"
  shows "\<exists>e. s = subject_for (type_of e) \<and> p = Doc (encode e) \<and>
    (in_int64 (SentCount e) \<or> type_of e \<noteq> TReleaseNotified \<longrightarrow> Unmarshal E (type_of e) p = Inr e)"
proof -
  from in_stream_says [OF reachable_ok [OF assms(1)] assms(2)] obtain e
    where "s = subject_of e" "p = Doc (encode e)" "eventValidator_Struct V e" by (auto simp: says_def)
  then show ?thesis
    using Unmarshal_encode [of e E] same_rules_valid [OF assms(3)] by (intro exI [of _ e]) (simp add: subject_of_def)
qed

theorem no_poison_messages_witness:
  "\<exists>e. SubjectReleaseDetected = subject_for (type_of e) \<and> payload_at 0 (scan_w demo_seen) = Doc (encode e) \<and>
     (in_int64 (SentCount e) \<or> type_of e \<noteq> TReleaseNotified \<longrightarrow>
       Unmarshal calm_env (type_of e) (payload_at 0 (scan_w demo_seen)) = Inr e)"
proof -
  have "in_stream demo_final SubjectReleaseDetected (payload_at 0 (scan_w demo_seen))"
    using published_in_stream(2) [OF demo_published(3)] by (simp add: in_stream_def demo_final_def demo_release_def)
      (metis demo_published(3) nth_mem published_at_def)
  from no_poison_messages [OF demo_reachable this same_rules_refl] show ?thesis .
qed

text \<open>
  \<^bold>\<open>C7.\<close> The schemas of the four databases hold in every reachable state of the system, and between two
  steps no transaction is open: keys and unique constraints, foreign keys, identity columns below their
  sequences, watched repositories with a positive count.
\<close>

theorem system_schemas:
  assumes "reachable V J M base S"
  shows "sub_wf (ncalls (sub_w S)) (committed (sub_w S)) \<and> open_tx (sub_w S) = None \<and>
    saga_wf (ncalls (saga_w S)) (committed (saga_w S)) \<and> open_tx (saga_w S) = None \<and>
    notif_wf (ncalls (notif_w S)) (committed (notif_w S)) \<and> open_tx (notif_w S) = None \<and>
    scan_wf (committed (scan_w S)) \<and> open_tx (scan_w S) = None"
  using reachable_ok [OF assms] by (simp add: system_ok_def service_ok_def idle_def)

theorem system_schemas_witness:
  "notif_wf (ncalls (notif_w demo_final)) (committed (notif_w demo_final)) \<and> scan_wf (committed (scan_w demo_final)) \<and>
   map mailed_to (trace (notif_w demo_final)) = [Some ''a@b'', Some ''a@b'']"
  using system_schemas [OF demo_reachable] demo_mails by blast

end
