(* ===== verification/Schedule.thy ===== *)
theory Schedule
  imports System
begin

text \<open>
  The periodic work of the services: the scheduler of the scanner (\<open>infrastructure/scheduler\<close>, \<open>bootstrap/scanner/scheduler.go\<close>), the
  clean-up of the subscription service (\<open>bootstrap/subscription/background.go\<close>) and the maintenance of the notifier
  (\<open>bootstrap/notifier/maintenance.go\<close>). A loop is a function of what its \<open>select\<close> receives: ticks, and the end of the context.
\<close>

section \<open>Loops over a ticker\<close>

text \<open>
  A received value: a tick, together with what the outside answers in that pass, or \<open>ctx.Done()\<close>. A list that ends before that stands
  for a loop that is still waiting.
\<close>

datatype 'x tick = Ticked 'x | Cancel

fun ticker_loop :: "('x \<Rightarrow> ('s, 'b) state) \<Rightarrow> 'x tick list \<Rightarrow> ('s, unit) state" where
  "ticker_loop body [] = State_Monad.return ()"
| "ticker_loop body (Cancel # evs) = State_Monad.return ()"
| "ticker_loop body (Ticked x # evs) = do { _ \<leftarrow> body x; ticker_loop body evs }"

text \<open>The passes a loop makes: one for every tick before the end of the context.\<close>

fun ticks :: "'x tick list \<Rightarrow> 'x list" where
  "ticks (Ticked x # evs) = x # ticks evs"
| "ticks evs = []"

primrec passes :: "('x \<Rightarrow> ('s, 'b) state) \<Rightarrow> 'x list \<Rightarrow> ('s, unit) state" where
  "passes body [] = State_Monad.return ()"
| "passes body (x # xs) = do { _ \<leftarrow> body x; passes body xs }"

lemma ticker_loop_passes: "ticker_loop body evs = passes body (ticks evs)"
  by (induction body evs rule: ticker_loop.induct) simp_all

section \<open>The three loops\<close>

text \<open>\<open>time.NewTicker\<close> panics unless the interval is positive; \<open>None\<close> is the panic, which ends the process.\<close>

definition with_ticker :: "duration \<Rightarrow> ('s, unit) state \<Rightarrow> ('s, unit option) state" where
  "with_ticker interval loop =
     (if interval \<le> 0 then State_Monad.return None else do { _ \<leftarrow> loop; State_Monad.return (Some ()) })"

text \<open>\<open>Scheduler.Start\<close>: a pass at once, then one per tick.\<close>

definition Scheduler_Start :: "env \<Rightarrow> ('x \<Rightarrow> ctx \<Rightarrow> ('db world, error + 'r) state) \<Rightarrow> duration \<Rightarrow> ctx \<Rightarrow> 'x \<Rightarrow> 'x tick list \<Rightarrow>
    ('db world, unit option) state" where
  "Scheduler_Start E runner interval c first evs = do {
     _ \<leftarrow> scheduler_run E (runner first) c;
     with_ticker interval (ticker_loop (\<lambda>x. scheduler_run E (runner x) c) evs)
   }"

text \<open>The scheduler of the scanner runs the watch use case; each pass has its observations.\<close>

definition run_scheduler :: "env \<Rightarrow> duration \<Rightarrow> error + (string \<times> release) list \<Rightarrow> (error + (string \<times> release) list) tick list \<Rightarrow>
    ('a scan_db_scheme world, unit option) state" where
  "run_scheduler E interval first evs =
     Scheduler_Start E (\<lambda>results _. watch_Run E (\<lambda>_. liftE results)) interval Background first evs"

text \<open>\<open>runCleanup\<close>: a pass at once, then one per tick; an error is logged.\<close>

definition runCleanup :: "env \<Rightarrow> duration \<Rightarrow> duration \<Rightarrow> unit tick list \<Rightarrow> ('a sub_db_scheme world, unit option) state" where
  "runCleanup E maxAge interval evs = do {
     _ \<leftarrow> cleanup_Run E maxAge Background;
     with_ticker interval (ticker_loop (\<lambda>_. cleanup_Run E maxAge Background) evs)
   }"

text \<open>\<open>runMaintenance\<close>: the first pass comes with the first tick.\<close>

definition runMaintenance :: "env \<Rightarrow> mailer \<Rightarrow> string \<Rightarrow> retry_config \<Rightarrow> duration \<Rightarrow> duration \<Rightarrow> unit tick list \<Rightarrow>
    ('a notif_db_scheme world, unit option) state" where
  "runMaintenance E M base cfg processedTTL interval evs =
     with_ticker interval (ticker_loop (\<lambda>_. maintenanceTick E M base cfg processedTTL Background) evs)"

lemma loops_are_passes:
  assumes "0 < interval"
  shows "run_state (run_scheduler E interval first evs) s = (case run_state
      (passes (\<lambda>x. scheduler_run E (\<lambda>_. watch_Run E (\<lambda>_. liftE x)) Background) (first # ticks evs)) s of (u, s') \<Rightarrow> (Some (), s'))"
    and "run_state (runCleanup E maxAge interval cevs) w =
      (case run_state (passes (\<lambda>_. cleanup_Run E maxAge Background) (() # ticks cevs)) w of (u, w') \<Rightarrow> (Some (), w'))"
    and "run_state (runMaintenance E M base cfg ttl interval mevs) v =
      (case run_state (passes (\<lambda>_. maintenanceTick E M base cfg ttl Background) (ticks mevs)) v of (u, v') \<Rightarrow> (Some (), v'))"
  using assms
  by (simp_all add: run_scheduler_def Scheduler_Start_def runCleanup_def runMaintenance_def with_ticker_def ticker_loop_passes
      split: prod.splits)

text \<open>An interval that is not positive, which the configuration accepts, ends the process: the clean-up's and the scheduler's after their first pass.\<close>

lemma zero_interval_panics:
  assumes "interval \<le> 0"
  shows "fst (run_state (run_scheduler E interval first evs) s) = None"
    and "fst (run_state (runCleanup E maxAge interval cevs) w) = None"
    and "run_state (runMaintenance E M base cfg ttl interval mevs) v = (None, v)"
  using assms
  by (simp_all add: run_scheduler_def Scheduler_Start_def runCleanup_def runMaintenance_def with_ticker_def split: prod.splits)

section \<open>Loops as steps of the system\<close>

text \<open>If every pass leads from reachable states to reachable states, so does any number of them.\<close>

lemma passes_reach:
  assumes "\<And>x w r w'. I w \<Longrightarrow> run_state (body x) w = (r, w') \<Longrightarrow> I w'"
  shows "I w \<Longrightarrow> I (snd (run_state (passes body xs) w))"
proof (induction xs arbitrary: w)
  case (Cons x xs)
  obtain r w1 where "run_state (body x) w = (r, w1)" by (cases "run_state (body x) w")
  with Cons.IH [OF assms [OF Cons.prems(1)]] show ?case by simp
qed simp

text \<open>
  \<^bold>\<open>C23.\<close> The periodic work of the services (\<open>Scheduler.Start\<close>, \<open>runCleanup\<close>, \<open>runMaintenance\<close>), with positive intervals: one pass per tick
  until the context is done, the scanner and the clean-up also one at the start; no error of a pass ends the loop or skips a later
  pass; and however long the loops run in a reachable state of the system, with whatever failures, they lead to reachable
  states, so that everything shown of the system holds with them running.
\<close>

theorem loops_run_every_tick:
  assumes "reachable V J M base S" and "same_rules V E" and "0 < interval"
  shows "run_state (run_scheduler E interval first sevs) (scan_w S) = (Some (), snd (run_state
      (passes (\<lambda>x. scheduler_run E (\<lambda>_. watch_Run E (\<lambda>_. liftE x)) Background) (first # ticks sevs)) (scan_w S))) \<and>
    run_state (runCleanup E maxAge interval cevs) (sub_w S) =
      (Some (), snd (run_state (passes (\<lambda>_. cleanup_Run E maxAge Background) (() # ticks cevs)) (sub_w S))) \<and>
    run_state (runMaintenance E M base cfg ttl interval mevs) (notif_w S) =
      (Some (), snd (run_state (passes (\<lambda>_. maintenanceTick E M base cfg ttl Background) (ticks mevs)) (notif_w S))) \<and>
    reachable V J M base (S\<lparr>scan_w := snd (run_state (run_scheduler E interval first sevs) (scan_w S))\<rparr>) \<and>
    reachable V J M base (S\<lparr>sub_w := snd (run_state (runCleanup E maxAge interval cevs) (sub_w S))\<rparr>) \<and>
    reachable V J M base (S\<lparr>notif_w := snd (run_state (runMaintenance E M base cfg ttl interval mevs) (notif_w S))\<rparr>)"
proof -
  have "reachable V J M base (S\<lparr>scan_w := snd (run_state
      (passes (\<lambda>x. scheduler_run E (\<lambda>_. watch_Run E (\<lambda>_. liftE x)) Background) xs) (scan_w S))\<rparr>)" for xs
    by (rule passes_reach [where I = "\<lambda>w. reachable V J M base (S\<lparr>scan_w := w\<rparr>)"])
      (use assms(1) reachable.step [OF _ system_step.scan [OF assms(2)], where S = "S\<lparr>scan_w := w\<rparr>" for w] in auto)
  moreover have "reachable V J M base (S\<lparr>sub_w := snd (run_state (passes (\<lambda>_. cleanup_Run E maxAge Background) xs) (sub_w S))\<rparr>)"
    for xs :: "unit list"
    by (rule passes_reach [where I = "\<lambda>w. reachable V J M base (S\<lparr>sub_w := w\<rparr>)"])
      (use assms(1) reachable.step [OF _ system_step.cleanup [OF assms(2)], where S = "S\<lparr>sub_w := w\<rparr>" for w] in auto)
  moreover have "reachable V J M base
      (S\<lparr>notif_w := snd (run_state (passes (\<lambda>_. maintenanceTick E M base cfg ttl Background) xs) (notif_w S))\<rparr>)" for xs :: "unit list"
    by (rule passes_reach [where I = "\<lambda>w. reachable V J M base (S\<lparr>notif_w := w\<rparr>)"])
      (use assms(1) reachable.step [OF _ system_step.maintenance [OF assms(2)], where S = "S\<lparr>notif_w := w\<rparr>" for w] in auto)
  ultimately show ?thesis
    unfolding loops_are_passes [OF assms(3)] by (simp add: case_prod_unfold del: passes.simps)
qed

theorem loops_run_every_tick_witness:
  "reachable calm_env demo_tokens demo_mailer ''x'' (demo_final\<lparr>sub_w :=
     snd (run_state (runCleanup calm_env 0 1 [Ticked (), Cancel, Ticked ()]) (sub_w demo_final))\<rparr>)"
proof -
  have "(0 :: duration) < 1" by simp
  from loops_run_every_tick [OF demo_reachable same_rules_refl this] show ?thesis by blast
qed

end
