(* ===== verification/Startup_Spec.thy ===== *)
theory Startup_Spec
  imports Startup
begin

text \<open>
  What holds of starting and stopping a service, whatever fails: a discipline of who needs what, a small calculus of what programs open and
  close, the locale \<open>boot_discipline\<close> with the start-up steps every service shares, and the four services.
\<close>

section \<open>Resource discipline\<close>

datatype fact = HasStream string | HasSchema schema

type_synonym discipline = "resource \<Rightarrow> resource list \<times> fact list"

text \<open>
  A log obeys a discipline when nothing is opened twice or before what it needs is open and in place, nothing is closed
  that is not open or that something open still needs, and nothing is cancelled that does not run.
\<close>

fun obey :: "discipline \<Rightarrow> fact list \<times> resource list \<Rightarrow> action list \<Rightarrow> (fact list \<times> resource list) option" where
  "obey N s [] = Some s"
| "obey N (fs, os) (CreatedStream n subjects # as) = obey N (HasStream n # fs, os) as"
| "obey N (fs, os) (Migrated m # as) = obey N (HasSchema m # fs, os) as"
| "obey N (fs, os) (Opened r # as) =
     (if r \<notin> set os \<and> set (fst (N r)) \<subseteq> set os \<and> set (snd (N r)) \<subseteq> set fs then obey N (fs, r # os) as else None)"
| "obey N (fs, os) (Closed r # as) =
     (if r \<in> set os \<and> (\<forall>x \<in> set os. r \<notin> set (fst (N x))) then obey N (fs, removeAll r os) as else None)"
| "obey N (fs, os) (Cancelled g # as) = (if Goroutine g \<in> set os then obey N (fs, os) as else None)"
| "obey N (fs, os) (Detached g # as) =
     (if set (fst (N (Goroutine g))) \<subseteq> set os \<and> set (snd (N (Goroutine g))) \<subseteq> set fs then obey N (fs, os) as else None)"

lemma obey_append: "obey N s (as @ bs) = Option.bind (obey N s as) (\<lambda>s'. obey N s' bs)"
  by (induction N s as rule: obey.induct) auto

text \<open>The state of a process: exactly \<open>os\<close> is open, and at least \<open>fs\<close> is in place.\<close>

definition holds :: "discipline \<Rightarrow> fact set \<Rightarrow> resource list \<Rightarrow> boot \<Rightarrow> bool" where
  "holds N F os s \<longleftrightarrow> (\<exists>fs. obey N ([], []) (snd s) = Some (fs, os) \<and> F \<subseteq> set fs)"

lemma holds_mono: "holds N F os s \<Longrightarrow> F' \<subseteq> F \<Longrightarrow> holds N F' os s"
  by (auto simp: holds_def)

lemma holds_Un: "holds N (F' \<union> F) os s \<Longrightarrow> holds N F os s"
  by (rule holds_mono) auto

lemma holds_Opened:
  "holds N F os (n, as) \<Longrightarrow> r \<notin> set os \<Longrightarrow> set (fst (N r)) \<subseteq> set os \<Longrightarrow> set (snd (N r)) \<subseteq> F \<Longrightarrow>
     holds N F (r # os) (n', as @ [Opened r])"
  by (auto simp: holds_def obey_append)

lemma holds_Closed:
  "holds N F os (n, as) \<Longrightarrow> r \<in> set os \<Longrightarrow> (\<forall>x \<in> set os. r \<notin> set (fst (N x))) \<Longrightarrow>
     holds N F (removeAll r os) (n', as @ [Closed r])"
  by (auto simp: holds_def obey_append)

lemma holds_facts:
  "holds N F os (n, as) \<Longrightarrow> holds N (insert (HasStream m) F) os (n', as @ [CreatedStream m subjects])"
  "holds N F os (n, as) \<Longrightarrow> holds N (insert (HasSchema c) F) os (n', as @ [Migrated c])"
  by (auto simp: holds_def obey_append)

lemma holds_stream: "holds N F os (n, as) \<Longrightarrow> holds N F os (n', as @ [CreatedStream m subjects])"
  by (auto simp: holds_def obey_append)

lemma holds_calls [simp]: "holds N F os (Suc n, as) = holds N F os (n, as)"
  by (simp add: holds_def)

text \<open>What a program does to the open resources: in every case, and depending on whether it succeeds.\<close>

definition moves :: "discipline \<Rightarrow> fact set \<Rightarrow> resource list \<Rightarrow> resource list \<Rightarrow> (boot, 'a) state \<Rightarrow> bool" where
  "moves N F os os' p \<longleftrightarrow> (\<forall>s. holds N F os s \<longrightarrow> wp p (\<lambda>_. holds N F os') s)"

definition opens :: "discipline \<Rightarrow> fact set \<Rightarrow> resource list \<Rightarrow> fact set \<Rightarrow> resource list \<Rightarrow> (boot, error + 'a) state \<Rightarrow> bool" where
  "opens N F os F' new p \<longleftrightarrow> (\<forall>s. holds N F os s \<longrightarrow>
     wp p (\<lambda>r. case r of Inl e \<Rightarrow> holds N F os | Inr x \<Rightarrow> holds N (F' \<union> F) (new @ os)) s)"

lemma movesI: "(\<And>s. holds N F os s \<Longrightarrow> wp p (\<lambda>_. holds N F os') s) \<Longrightarrow> moves N F os os' p"
  by (simp add: moves_def)

lemma movesD:
  "moves N F os os' p \<Longrightarrow> holds N F os s \<Longrightarrow> (\<And>r t. holds N F os' t \<Longrightarrow> Q r t) \<Longrightarrow> wp p Q s"
  unfolding moves_def by (blast intro: wp_mono)

lemma opensI:
  "(\<And>s. holds N F os s \<Longrightarrow> wp p (\<lambda>r. case r of Inl e \<Rightarrow> holds N F os | Inr x \<Rightarrow> holds N (F' \<union> F) (new @ os)) s) \<Longrightarrow>
     opens N F os F' new p"
  by (simp add: opens_def)

lemma opensD:
  assumes "opens N F os F' new p" "holds N F os s" "\<And>e t. holds N F os t \<Longrightarrow> Q (Inl e) t"
    and "\<And>x t. holds N (F' \<union> F) (new @ os) t \<Longrightarrow> Q (Inr x) t"
  shows "wp p Q s"
proof -
  have "wp p (\<lambda>r. case r of Inl e \<Rightarrow> holds N F os | Inr x \<Rightarrow> holds N (F' \<union> F) (new @ os)) s"
    using assms(1,2) unfolding opens_def by blast
  then show ?thesis by (rule wp_mono) (auto intro: assms(3,4) split: sum.splits)
qed

text \<open>A program that goes from one state to another one, or fails with everything but \<open>os\<close> closed; \<open>V\<close> is about its result.\<close>

definition builds :: "discipline \<Rightarrow> fact set \<Rightarrow> resource list \<Rightarrow> fact set \<Rightarrow> resource list \<Rightarrow> fact set \<Rightarrow> resource list \<Rightarrow>
    ('a \<Rightarrow> bool) \<Rightarrow> (boot, error + 'a) state \<Rightarrow> bool" where
  "builds N F os F1 os1 F2 os2 V p \<longleftrightarrow> (\<forall>s. holds N F1 os1 s \<longrightarrow>
     wp p (\<lambda>r t. case r of Inl e \<Rightarrow> holds N F os t | Inr x \<Rightarrow> V x \<and> holds N F2 os2 t) s)"

lemma buildsI:
  "(\<And>s. holds N F1 os1 s \<Longrightarrow> wp p (\<lambda>r t. case r of Inl e \<Rightarrow> holds N F os t | Inr x \<Rightarrow> V x \<and> holds N F2 os2 t) s) \<Longrightarrow>
     builds N F os F1 os1 F2 os2 V p"
  by (simp add: builds_def)

lemma buildsD:
  assumes "builds N F os F1 os1 F2 os2 V p" "holds N F1 os1 s" "\<And>e t. holds N F os t \<Longrightarrow> Q (Inl e) t"
    and "\<And>x t. V x \<Longrightarrow> holds N F2 os2 t \<Longrightarrow> Q (Inr x) t"
  shows "wp p Q s"
proof -
  have "wp p (\<lambda>r t. case r of Inl e \<Rightarrow> holds N F os t | Inr x \<Rightarrow> V x \<and> holds N F2 os2 t) s"
    using assms(1,2) unfolding builds_def by blast
  then show ?thesis by (rule wp_mono) (auto intro: assms(3,4) split: sum.splits)
qed

lemma builds_bindE:
  assumes "builds N F os F1 os1 F2 os2 V p" "\<And>x. builds N F os F2 os2 F3 os3 W (q x)"
  shows "builds N F os F1 os1 F3 os3 W (bindE p q)"
  unfolding builds_def wp_bindE by (auto intro!: buildsD [OF assms(1)] buildsD [OF assms(2)])

lemma builds_ok: "V x \<Longrightarrow> builds N F os F1 os1 F1 os1 V (ok x)"
  by (simp add: builds_def wp_simps)

lemma builds_defer:
  assumes "builds N F os F os F' os' V p" "\<And>x. V x \<Longrightarrow> moves N F' os' os' (q x)" "\<And>x. V x \<Longrightarrow> moves N F' os' os (c x)" "F \<subseteq> F'"
  shows "moves N F os os (bindE p (\<lambda>x. deferring (c x) (q x)))"
  by (rule movesI) (auto simp: wp_simps deferring_def
      intro!: buildsD [OF assms(1)] movesD [OF assms(2)] movesD [OF assms(3)] holds_mono [OF _ assms(4)])

named_theorems boot_rules \<open>what programs open and close\<close>

lemma moves_return [boot_rules]: "moves N F os os (State_Monad.return x)"
  by (simp add: moves_def wp_simps)

lemma moves_bind [boot_rules]:
  assumes "moves N F os os1 p" "\<And>x. moves N F os1 os2 (q x)"
  shows "moves N F os os2 (State_Monad.bind p q)"
  by (rule movesI) (auto simp: wp_simps intro: movesD [OF assms(1)] movesD [OF assms(2)])

lemma moves_wrap [boot_rules]: "moves N F os os' p \<Longrightarrow> moves N F os os' (wrap m p)"
  by (rule movesI) (auto simp: wp_simps elim!: movesD split: sum.splits)

lemma moves_attempt [boot_rules]: "moves N F os os (attempt E)"
  by (auto simp: moves_def attempt_def wp_simps holds_def split: fault.splits)

lemma moves_open [boot_rules]:
  "r \<notin> set os \<Longrightarrow> set (fst (N r)) \<subseteq> set os \<Longrightarrow> set (snd (N r)) \<subseteq> F \<Longrightarrow> moves N F os (r # os) (act (Opened r))"
  by (auto simp: moves_def act_def wp_simps intro: holds_Opened)

lemma moves_close [boot_rules]:
  "r \<in> set os \<Longrightarrow> (\<forall>x \<in> set os. r \<notin> set (fst (N x))) \<Longrightarrow> moves N F os (removeAll r os) (act (Closed r))"
  by (auto simp: moves_def act_def wp_simps intro: holds_Closed)

lemma moves_cancel [boot_rules]: "Goroutine g \<in> set os \<Longrightarrow> moves N F os os (act (Cancelled g))"
  by (auto simp: moves_def act_def wp_simps holds_def obey_append)

lemma moves_detach [boot_rules]:
  "set (fst (N (Goroutine g))) \<subseteq> set os \<Longrightarrow> set (snd (N (Goroutine g))) \<subseteq> F \<Longrightarrow> moves N F os os (act (Detached g))"
  by (auto simp: moves_def act_def wp_simps holds_def obey_append)

lemma moves_detached:
  "moves N F os os' q \<Longrightarrow> set (fst (N (Goroutine g))) \<subseteq> set os \<Longrightarrow> set (snd (N (Goroutine g))) \<subseteq> F \<Longrightarrow>
     moves N F os os' (do { _ \<leftarrow> act (Detached g); q })"
  by (blast intro: moves_bind moves_detach)

lemma moves_eq: "moves N F os os' p \<Longrightarrow> os' = os'' \<Longrightarrow> moves N F os os'' p"
  by simp

lemma moves_bindE:
  assumes "opens N F os F' [] p" "\<And>x. moves N (F' \<union> F) os os (q x)"
  shows "moves N F os os (bindE p q)"
  by (rule movesI) (auto simp: wp_simps intro!: opensD [OF assms(1)] movesD [OF assms(2)] dest: holds_Un)

lemma moves_deferring:
  "moves N F os os1 p \<Longrightarrow> moves N F os1 os2 c \<Longrightarrow> moves N F os os2 (deferring c p)"
  unfolding deferring_def by (blast intro: moves_bind moves_return)

lemma moves_defer:
  assumes "opens N F os F' new p" "\<And>x. moves N (F' \<union> F) (new @ os) (new @ os) (q x)"
    and "\<And>x. moves N (F' \<union> F) (new @ os) os (c x)"
  shows "moves N F os os (bindE p (\<lambda>x. deferring (c x) (q x)))"
  by (rule movesI) (auto simp: wp_simps intro!: opensD [OF assms(1)] movesD [OF moves_deferring [OF assms(2,3)]] dest: holds_Un)

lemma opens_wrap [boot_rules]: "opens N F os F' new p \<Longrightarrow> opens N F os F' new (wrap m p)"
  by (rule opensI) (auto simp: wp_simps elim!: opensD)

lemma opens_bindE:
  assumes "opens N F os F1 [] p" "\<And>x. opens N (F1 \<union> F) os F2 new (q x)"
  shows "opens N F os (F2 \<union> F1) new (bindE p q)"
proof (rule opensI)
  fix s
  assume s: "holds N F os s"
  show "wp (bindE p q) (\<lambda>r. case r of Inl e \<Rightarrow> holds N F os | Inr x \<Rightarrow> holds N (F2 \<union> F1 \<union> F) (new @ os)) s"
    unfolding wp_bindE
    by (rule opensD [OF assms(1) s]) (auto simp: Un_assoc intro!: opensD [OF assms(2)] intro: holds_mono)
qed

lemmas opens_first = opens_bindE [where ?F1.0 = "{}" and ?F2.0 = F2 for F2, simplified]

lemma opens_attempt [boot_rules]: "opens N F os {} [] (attempt E)"
  by (auto simp: opens_def attempt_def wp_simps split: fault.splits)

section \<open>What every service shares\<close>

text \<open>
  A discipline in which connections need nothing and only connections are needed: what the start-up code relies on when it closes
  a connection after a failure.
\<close>

definition connections :: "resource set" where
  "connections = {PgPool, Redis, Nats, Mail, CompensationClient, Signals}"

locale boot_discipline =
  fixes N :: discipline
  assumes connection_needs: "r \<in> connections \<or> r = Migrator c \<Longrightarrow> N r = ([], [])"
    and needs_connection: "set (fst (N r)) \<subseteq> connections"
begin

lemma close_other: "r \<notin> connections \<Longrightarrow> r \<notin> set (fst (N x))"
  using needs_connection by blast

lemma close_connection: "set os \<subseteq> connections \<Longrightarrow> \<forall>x \<in> set os. r \<notin> set (fst (N x))"
  using connection_needs by fastforce

lemma opens_acquire:
  assumes "r \<in> connections \<or> r = Migrator c" "r \<notin> set os"
  shows "opens N F os {} [r] (acquire E r)"
proof -
  have "moves N F os (r # os) (act (Opened r))"
    by (rule moves_open) (simp_all add: assms(2) connection_needs [OF assms(1)])
  then show ?thesis
    by (auto simp: acquire_def wp_simps intro!: opensI opensD [OF opens_attempt] elim!: movesD)
qed

text \<open>A connection that is tried and closed again when the trial fails.\<close>

lemma opens_tried:
  assumes "opens N F os {} [r] p" "opens N F (r # os) F' [] q" "set os \<subseteq> connections" "r \<in> connections" "r \<notin> set os"
  shows "opens N F os F' [r] (bindE p (\<lambda>_. do {
    x \<leftarrow> q;
    case x of Inl e \<Rightarrow> do { _ \<leftarrow> act (Closed r); err (f e) } | Inr _ \<Rightarrow> ok ()
  }))"
proof -
  have "moves N F (r # os) os (act (Closed r))"
    by (rule moves_eq [OF moves_close]) (use assms(3-5) close_connection [of "r # os" r] in auto)
  then show ?thesis
    by (intro opensI) (auto simp: wp_simps elim!: movesD intro!: opensD [OF assms(1)] opensD [OF assms(2)])
qed

lemma opens_NewPool:
  "set os \<subseteq> connections \<Longrightarrow> PgPool \<notin> set os \<Longrightarrow> opens N F os {} [PgPool] (NewPool E)"
  unfolding NewPool_def
  by (rule opens_first [OF opens_wrap [OF opens_attempt]])
    (auto simp: connections_def intro!: opens_tried opens_wrap opens_acquire opens_attempt)

lemma opens_NewRedisCache:
  assumes "set os \<subseteq> connections" "Redis \<notin> set os"
  shows "opens N F os {} [Redis] (NewRedisCache E)"
proof -
  have "moves N F os (Redis # os) (act (Opened Redis))"
    by (rule moves_open) (use assms(2) connection_needs [of Redis] in \<open>simp_all add: connections_def\<close>)
  moreover have "moves N F (Redis # os) os (act (Closed Redis))"
    by (rule moves_eq [OF moves_close]) (use assms close_connection [of "Redis # os" Redis] in \<open>auto simp: connections_def\<close>)
  ultimately show ?thesis
    unfolding NewRedisCache_def
    by (intro opens_first [OF opens_wrap [OF opens_attempt]] opensI)
      (auto simp: wp_simps elim!: movesD intro!: opensD [OF opens_attempt])
qed

lemma opens_EnsureStream: "opens N F os {HasStream name} [] (EnsureStream E name subjects)"
  unfolding EnsureStream_def
  by (rule opensI, auto simp: wp_simps split: fault.splits) (erule holds_facts holds_stream)+

lemma opens_broker_Connect:
  "set os \<subseteq> connections \<Longrightarrow> Nats \<notin> set os \<Longrightarrow> opens N F os {} [Nats] (broker_Connect E)"
  unfolding broker_Connect_def
  by (auto simp: connections_def intro!: opens_tried opens_wrap opens_acquire opens_attempt)

lemma opens_ConnectBroker:
  "set os \<subseteq> connections \<Longrightarrow> Nats \<notin> set os \<Longrightarrow> opens N F os {HasStream stream} [Nats] (ConnectBroker E stream subjects)"
  unfolding ConnectBroker_def
  by (auto simp: connections_def intro!: opens_tried opens_wrap opens_broker_Connect opens_EnsureStream)

lemma opens_EnsureEventStreams: "opens N F os (HasStream ` fst ` set event_streams) [] (EnsureEventStreams E)"
proof -
  have "opens N F os (HasStream ` fst ` set ss) [] (ensure_streams E ss)" for ss
  proof (induction ss arbitrary: F)
    case (Cons s ss)
    from opens_bindE [OF opens_wrap [OF opens_EnsureStream] Cons.IH] show ?case by (simp add: Un_commute)
  qed (simp add: opens_def wp_simps)
  then show ?thesis by (simp add: EnsureEventStreams_def)
qed

lemma opens_migrations: "Migrator c \<notin> set os \<Longrightarrow> opens N F os {HasSchema c} [] (RunMigrationsFS E c)"
proof -
  assume new: "Migrator c \<notin> set os"
  have up: "opens N F (Migrator c # os) {HasSchema c} [] (migrate_Up E c)" for F
    by (rule opensI) (auto simp: migrate_Up_def act_def wp_simps intro!: opensD [OF opens_attempt] holds_facts)
  have close: "moves N F (Migrator c # os) os (act (Closed (Migrator c)))" for F
    by (rule moves_eq [OF moves_close]) (use new close_other [of "Migrator c"] in \<open>auto simp: connections_def\<close>)
  have "opens N F os {HasSchema c} [] (bindE (wrap m (acquire E (Migrator c))) (\<lambda>_.
      deferring (act (Closed (Migrator c))) (wrap m' (migrate_Up E c))))" for F m m'
    by (rule opensI) (auto simp: wp_simps deferring_def new
        intro!: opensD [OF opens_acquire [of _ c]] opensD [OF up] movesD [OF close] dest: holds_Un)
  then show ?thesis
    unfolding RunMigrationsFS_def by (rule opens_first [OF opens_wrap [OF opens_attempt]])
qed

text \<open>Consumers: all of them started, or none left; and stopped in the end.\<close>

lemma holds_started:
  assumes "holds N F os (n, as)" "distinct ss" "set (map Consumer ss) \<inter> set os = {}"
    and "\<And>s. s \<in> set ss \<Longrightarrow> set (fst (N (Consumer s))) \<subseteq> set os \<and> set (snd (N (Consumer s))) \<subseteq> F"
  shows "holds N F (rev (map Consumer ss) @ os) (n', as @ map Started ss)"
  using assms
proof (induction ss arbitrary: n' rule: rev_induct)
  case (snoc s ss)
  from snoc have "holds N F (rev (map Consumer ss) @ os) (n', as @ map Started ss)" by simp
  from holds_Opened [OF this, of "Consumer s" n'] snoc.prems show ?case by auto
qed (simp add: holds_def)

text \<open>A list of resources closed in reverse: connections with nothing but connections open, or other things.\<close>

lemma holds_closed_all:
  assumes "holds N F (rev rs @ os) (n, as)" "distinct rs" "set rs \<inter> set os = {}"
    and "set rs \<inter> connections = {} \<or> set (rs @ os) \<subseteq> connections"
  shows "holds N F os (n', as @ map Closed (rev rs))"
  using assms
proof (induction rs arbitrary: as n n' rule: rev_induct)
  case (snoc r rs)
  have "\<forall>x \<in> set (rev (rs @ [r]) @ os). r \<notin> set (fst (N x))"
    using snoc.prems(4) close_connection [of "rev (rs @ [r]) @ os" r] close_other [of r] by auto
  from holds_Closed [OF snoc.prems(1) _ this, of n] snoc.prems(2,3)
  have "holds N F (rev rs @ os) (n, as @ [Closed r])" by (auto simp: removeAll_id)
  from snoc.IH [OF this] snoc.prems(2-4) show ?case by auto
qed (simp add: holds_def)

lemma holds_stopped:
  assumes "holds N F (rev (map Consumer ss) @ os) (n, as)" "distinct ss" "set (map Consumer ss) \<inter> set os = {}"
  shows "holds N F os (n', as @ map Stopped (rev ss))"
proof -
  have "distinct (map Consumer ss)" using assms(2) by (auto simp: distinct_map inj_on_def)
  moreover have "set (map Consumer ss) \<inter> connections = {}" by (auto simp: connections_def)
  ultimately show ?thesis using holds_closed_all [OF assms(1) _ assms(3)] by (simp add: rev_map comp_def)
qed

lemma moves_cleanup:
  "set (rs @ os) \<subseteq> connections \<Longrightarrow> distinct (rs @ os) \<Longrightarrow> moves N F (rev rs @ os) os (cleanupClosers rs)"
  by (rule movesI) (use holds_closed_all [of F rs os] in \<open>auto simp: cleanupClosers_def wp_simps\<close>)

text \<open>A step of \<open>newInfrastructure\<close>: it adds to what is open, or everything is closed again.\<close>

lemma builds_or_cleanup:
  assumes "opens N F (rev rs @ os) F' new p" "set (rs @ os) \<subseteq> connections" "distinct (rs @ os)" "F0 \<subseteq> F"
  shows "builds N F0 os F (rev rs @ os) (F' \<union> F) (new @ rev rs @ os) (\<lambda>_. True) (or_cleanup rs p)"
  unfolding builds_def or_cleanup_def
  by (auto simp: wp_simps intro!: opensD [OF assms(1)] movesD [OF moves_cleanup [OF assms(2,3)]]
      elim: holds_mono [OF _ assms(4)])

lemma moves_consumers:
  assumes "moves N F (rev (map Consumer specs) @ os) (rev (map Consumer specs) @ os) q"
    and "distinct specs" "set (map Consumer specs) \<inter> set os = {}"
    and needs: "\<And>s. s \<in> set specs \<Longrightarrow> set (fst (N (Consumer s))) \<subseteq> set os \<and> set (snd (N (Consumer s))) \<subseteq> F"
  shows "moves N F os os (bindE (wrap m (StartConsumers E specs)) (\<lambda>stops. deferring (stopAll stops) q))"
proof (rule movesI)
  fix s :: boot
  assume s: "holds N F os s"
  obtain n as where "s = (n, as)" by (cases s)
  have stop: "wp (stopAll specs) (\<lambda>_. holds N F os) t" if "holds N F (rev (map Consumer specs) @ os) t" for t
    using that holds_stopped [OF _ assms(2,3)] by (cases t) (auto simp: stopAll_def wp_simps)
  have "holds N F os (n', as')" if "started_post [] specs as (Inl e) as'" for e n' as'
  proof -
    from that obtain k where as': "as' = (as @ map Started (take k specs)) @ map Stopped (rev (take k specs))"
      by (auto simp: started_post_def)
    have sub: "distinct (take k specs)" "set (map Consumer (take k specs)) \<inter> set os = {}"
      using assms(2,3) set_take_subset [of k specs] by auto
    from holds_started [OF s [unfolded \<open>s = (n, as)\<close>] sub] needs set_take_subset [of k specs]
    have "holds N F (rev (map Consumer (take k specs)) @ os) (n', as @ map Started (take k specs))" by blast
    from holds_stopped [OF this sub] show ?thesis unfolding as' .
  qed
  moreover have "holds N F (rev (map Consumer specs) @ os) (n', as @ map Started specs)" for n'
    using holds_started [OF s [unfolded \<open>s = (n, as)\<close>] assms(2,3) needs] .
  ultimately have "wp (StartConsumers E specs) (\<lambda>r t. case r of Inl e \<Rightarrow> holds N F os t
      | Inr stops \<Rightarrow> stops = specs \<and> holds N F (rev (map Consumer specs) @ os) t) s"
    unfolding StartConsumers_def \<open>s = (n, as)\<close>
    by (intro wp_mono [OF start_all_outcome]) (auto simp: started_post_def split: sum.splits)
  then show "wp (bindE (wrap m (StartConsumers E specs)) (\<lambda>stops. deferring (stopAll stops) q)) (\<lambda>_. holds N F os) s"
    unfolding wp_bindE wp_wrap
    by (rule wp_mono) (auto simp: deferring_def wp_simps split: sum.splits intro: movesD [OF assms(1)] stop)
qed

lemma newInfrastructure_builds:
  "builds N {} [Signals] {} [Signals]
     (HasStream ` fst ` set event_streams \<union> {HasStream StreamSubscriptions, HasSchema OutboxSchema, HasSchema ServiceSchema})
     [Nats, Redis, PgPool, Signals] (\<lambda>closers. closers = [PgPool, Redis, Nats]) (newInfrastructure E)"
proof -
  let ?F2 = "{HasSchema OutboxSchema, HasSchema ServiceSchema}" and ?os = "[Signals]"
  note step = builds_or_cleanup [where os = ?os and ?F0.0 = "{}"]
  have 1: "builds N {} ?os {} ?os {HasSchema ServiceSchema} ?os (\<lambda>_. True)
      (or_cleanup [] (wrap m (RunMigrationsFS E ServiceSchema)))" for m
    using step [where rs = "[]", OF opens_wrap [OF opens_migrations]] by (simp add: connections_def)
  have 2: "builds N {} ?os {HasSchema ServiceSchema} ?os ?F2 ?os (\<lambda>_. True)
      (or_cleanup [] (wrap m (RunMigrationsFS E OutboxSchema)))" for m
    using step [where rs = "[]", OF opens_wrap [OF opens_migrations]] by (simp add: connections_def)
  have 3: "builds N {} ?os ?F2 ?os ?F2 [PgPool, Signals] (\<lambda>_. True) (or_cleanup [] (wrap m (NewPool E)))" for m
    using step [where rs = "[]", OF opens_wrap [OF opens_NewPool]] by (simp add: connections_def)
  have 4: "builds N {} ?os ?F2 [PgPool, Signals] ?F2 [Redis, PgPool, Signals] (\<lambda>_. True) (or_cleanup [PgPool] (ConnectRedis E))"
    using step [where rs = "[PgPool]", OF opens_wrap [OF opens_NewRedisCache]] by (simp add: connections_def ConnectRedis_def)
  have 5: "builds N {} ?os ?F2 [Redis, PgPool, Signals] (insert (HasStream stream) ?F2) [Nats, Redis, PgPool, Signals] (\<lambda>_. True)
      (or_cleanup [PgPool, Redis] (ConnectBroker E stream subjects))" for stream subjects
    using step [where rs = "[PgPool, Redis]", OF opens_ConnectBroker] by (simp add: connections_def)
  have 6: "builds N {} ?os F [Nats, Redis, PgPool, Signals] (HasStream ` fst ` set event_streams \<union> F) [Nats, Redis, PgPool, Signals]
      (\<lambda>_. True) (or_cleanup [PgPool, Redis, Nats] (EnsureEventStreams E))" for F
    using step [where rs = "[PgPool, Redis, Nats]" and F = F, OF opens_EnsureEventStreams] by (simp add: connections_def)
  show ?thesis
    unfolding newInfrastructure_def
    by (rule builds_bindE [OF 1 builds_bindE [OF 2 builds_bindE [OF 3 builds_bindE [OF 4 builds_bindE [OF 5 builds_bindE [OF 6 builds_ok]]]]]])
      simp
qed

text \<open>The steps of the start-up, each with the rest of the function it is in.\<close>

lemma moves_pop: "set os \<subseteq> connections \<Longrightarrow> r \<in> connections \<Longrightarrow> r \<notin> set os \<Longrightarrow> moves N F (r # os) os (act (Closed r))"
  by (rule moves_eq [OF moves_close]) (use close_connection [of "r # os" r] in auto)

lemma run_opened:
  assumes "opens N F os F' [r] p" "moves N (F' \<union> F) (r # os) (r # os) q"
    and "set os \<subseteq> connections" "r \<in> connections" "r \<notin> set os"
  shows "moves N F os os (bindE p (\<lambda>_. deferring (act (Closed r)) q))"
  using moves_defer [OF assms(1), where c = "\<lambda>_. act (Closed r)"] assms(2) moves_pop [OF assms(3-5)] by simp

lemma run_migrations:
  "moves N (insert (HasSchema c) F) os os q \<Longrightarrow> Migrator c \<notin> set os \<Longrightarrow>
     moves N F os os (bindE (wrap m (RunMigrationsFS E c)) (\<lambda>_. q))"
  using moves_bindE [OF opens_wrap [OF opens_migrations]] by simp

lemma run_pool:
  "moves N F (PgPool # os) (PgPool # os) q \<Longrightarrow> set os \<subseteq> connections \<Longrightarrow> PgPool \<notin> set os \<Longrightarrow>
     moves N F os os (bindE (wrap m (NewPool E)) (\<lambda>_. deferring (act (Closed PgPool)) q))"
  using run_opened [OF opens_wrap [OF opens_NewPool]] by (simp add: connections_def)

lemma run_redis:
  "moves N F (Redis # os) (Redis # os) q \<Longrightarrow> set os \<subseteq> connections \<Longrightarrow> Redis \<notin> set os \<Longrightarrow>
     moves N F os os (bindE (ConnectRedis E) (\<lambda>_. deferring (act (Closed Redis)) q))"
  using run_opened [OF opens_wrap [OF opens_NewRedisCache]] by (simp add: ConnectRedis_def connections_def)

lemma run_broker:
  "moves N (insert (HasStream stream) F) (Nats # os) (Nats # os) q \<Longrightarrow> set os \<subseteq> connections \<Longrightarrow> Nats \<notin> set os \<Longrightarrow>
     moves N F os os (bindE (ConnectBroker E stream subjects) (\<lambda>_. deferring (act (Closed Nats)) q))"
  using run_opened [OF opens_ConnectBroker] by (simp add: connections_def)

lemma run_mailer:
  "moves N F (Mail # os) (Mail # os) q \<Longrightarrow> set os \<subseteq> connections \<Longrightarrow> Mail \<notin> set os \<Longrightarrow>
     moves N F os os (bindE (wrap m (NewMailer E)) (\<lambda>_. deferring (act (Closed Mail)) q))"
  unfolding NewMailer_def
  by (rule run_opened [OF opens_wrap [OF opens_wrap [OF opens_acquire]]]) (simp_all add: connections_def)

lemma run_streams:
  "moves N (HasStream ` fst ` set event_streams \<union> F) os os q \<Longrightarrow> moves N F os os (bindE (EnsureEventStreams E) (\<lambda>_. q))"
  using moves_bindE [OF opens_EnsureEventStreams, where q = "\<lambda>_. q"] by blast

text \<open>The graceful shutdown: goroutines and servers, in whatever order.\<close>

lemma moves_closed:
  assumes "r \<notin> connections" "r \<notin> set (as @ bs)"
  shows "moves N F (as @ r # bs) (as @ bs) (act (Closed r))"
  by (rule moves_eq [OF moves_close]) (use assms close_other [OF assms(1)] in \<open>auto simp: removeAll_id\<close>)

lemma moves_ended: "Goroutine g \<notin> set (as @ bs) \<Longrightarrow> moves N F (as @ Goroutine g # bs) (as @ bs) (cancel_and_wait g)"
  unfolding cancel_and_wait_def
  by (rule moves_bind [OF moves_cancel moves_closed]) (auto simp: connections_def)

lemma moves_shut: "Server s \<notin> set (as @ bs) \<Longrightarrow> moves N F (as @ Server s # bs) (as @ bs) (server_Shutdown E s)"
  unfolding server_Shutdown_def
  by (rule moves_bind [OF moves_attempt moves_closed]) (auto simp: connections_def)

lemma moves_await: "moves N F os os (await_end E)"
  unfolding await_end_def by (intro moves_wrap moves_attempt)

end

section \<open>The four services\<close>

datatype service = Subscription_service | Notifier_service | Scanner_service | Saga_service

text \<open>
  What the parts of each service use: handlers of consumers the pool (and the mailer, or the client of the compensation service),
  the public API the pool and the cache, the clean-up and the relay the pool and the broker, the maintenance the pool
  and the mailer, the scan pass the pool, the cache and the broker. A consumer also needs its stream and an up-to-date schema.
\<close>

definition schemas :: "service \<Rightarrow> fact list" where
  "schemas svc = (if svc = Scanner_service then [HasSchema ServiceSchema] else [HasSchema ServiceSchema, HasSchema OutboxSchema])"

fun consumer_uses :: "service \<Rightarrow> string \<Rightarrow> resource list" where
  "consumer_uses Notifier_service transport = [PgPool, Mail]"
| "consumer_uses Saga_service transport = (if transport = transportGRPC then [PgPool, CompensationClient] else [PgPool])"
| "consumer_uses svc transport = [PgPool]"

fun goroutine_uses :: "service \<Rightarrow> string \<Rightarrow> resource list" where
  "goroutine_uses Scanner_service g = [PgPool, Redis, Nats]"
| "goroutine_uses svc g = (if g = ''maintenance'' then [PgPool, Mail] else [PgPool, Nats])"

fun needs :: "service \<Rightarrow> string \<Rightarrow> discipline" where
  "needs svc transport (Consumer s) = (Nats # consumer_uses svc transport, HasStream (spec_Stream s) # schemas svc)"
| "needs svc transport (Goroutine g) = (goroutine_uses svc g, schemas svc)"
| "needs svc transport (Server s) =
     ((if s = ''public'' then [PgPool, Redis] else if s = ''internal-grpc'' then [PgPool] else []), schemas svc)"
| "needs svc transport r = ([], [])"

lemma consumer_uses_connections: "set (consumer_uses svc transport) \<subseteq> connections"
  by (induction svc transport rule: consumer_uses.induct) (auto simp: connections_def)

lemma goroutine_uses_connections: "set (goroutine_uses svc g) \<subseteq> connections"
  by (induction svc g rule: goroutine_uses.induct) (auto simp: connections_def)

interpretation service: boot_discipline "needs svc transport" for svc transport
proof
  show "needs svc transport r = ([], [])" if "r \<in> connections \<or> r = Migrator c" for r c
    using that by (auto simp: connections_def)
  show "set (fst (needs svc transport r)) \<subseteq> connections" for r
    using consumer_uses_connections [of svc transport] goroutine_uses_connections [of svc]
    by (cases r) (auto simp: connections_def)
qed

lemmas run_rules = service.run_mailer service.run_redis service.run_migrations service.run_pool service.run_broker service.run_streams
  service.moves_consumers

lemmas needs_simps = connections_def schemas_def image_iff event_streams_def

lemma specs_distinct: "distinct subscription_specs" "distinct notifier_specs" "distinct scanner_specs" "distinct saga_specs"
  by code_simp+

text \<open>A service with one goroutine and a metrics server, and one with two servers, below any consumers.\<close>

lemma serve_metrics:
  assumes "set (goroutine_uses svc g) \<subseteq> set os" "set (schemas svc) \<subseteq> F" "Goroutine g \<notin> set os" "Server ''metrics'' \<notin> set os"
  shows "moves (needs svc t) F os os (do {
    _ \<leftarrow> act (Opened (Goroutine g));
    _ \<leftarrow> act (Opened (Server ''metrics''));
    r \<leftarrow> await_end E;
    _ \<leftarrow> (do { _ \<leftarrow> cancel_and_wait g; server_Shutdown E ''metrics'' });
    State_Monad.return r })"
proof -
  let ?G = "Goroutine g" and ?S = "Server ''metrics''"
  have 1: "moves (needs svc t) F os (?G # os) (act (Opened ?G))" by (rule moves_open) (use assms in auto)
  have 2: "moves (needs svc t) F (?G # os) (?S # ?G # os) (act (Opened ?S))" by (rule moves_open) (use assms in auto)
  have 3: "moves (needs svc t) F (?S # ?G # os) (?S # os) (cancel_and_wait g)"
    using service.moves_ended [of g "[?S]" os] assms(3) by simp
  have 4: "moves (needs svc t) F (?S # os) os (server_Shutdown E ''metrics'')"
    using service.moves_shut [of "''metrics''" "[]" os] assms(4) by simp
  show ?thesis
    by (rule moves_bind [OF 1 moves_bind [OF 2 moves_bind [OF service.moves_await moves_bind [OF moves_bind [OF 3 4] moves_return]]]])
qed

lemma scanner_Run_balanced: "moves (needs Scanner_service t) {} [Signals] [Signals] (scanner_Run E)"
  unfolding scanner_Run_def startScheduler_def scanner_serve_def scanner_gracefulShutdown_def
  by (rule service.run_redis, rule service.run_migrations, rule service.run_pool, rule service.run_broker, rule service.run_streams,
      rule service.moves_consumers, rule serve_metrics)
    (auto simp: needs_simps specs_distinct scanner_specs_def)

lemma notifier_Run_balanced: "moves (needs Notifier_service t) {} [Signals] [Signals] (notifier_Run E)"
  unfolding notifier_Run_def startMaintenance_def notifier_serve_def notifier_gracefulShutdown_def
  by (rule service.run_mailer, rule service.run_migrations, rule service.run_migrations, rule service.run_pool, rule service.run_broker,
      rule service.run_streams, rule service.moves_consumers, rule moves_detached, rule serve_metrics)
    (auto simp: needs_simps specs_distinct notifier_specs_def)

text \<open>The orchestrator has no goroutine to wait for, and the subscription service has two servers.\<close>

lemma saga_serves:
  assumes "set (schemas Saga_service) \<subseteq> F" "Server ''metrics'' \<notin> set os"
  shows "moves (needs Saga_service t) F os os (saga_serve E)"
proof -
  let ?S = "Server ''metrics''"
  have 1: "moves (needs Saga_service t) F os (?S # os) (act (Opened ?S))" by (rule moves_open) (use assms in auto)
  have 2: "moves (needs Saga_service t) F (?S # os) os (server_Shutdown E ''metrics'')"
    using service.moves_shut [of "''metrics''" "[]" os] assms(2) by simp
  show ?thesis
    unfolding saga_serve_def saga_gracefulShutdown_def
    by (rule moves_bind [OF 1 moves_bind [OF service.moves_await moves_bind [OF 2 moves_return]]])
qed

lemma newCoordinator_builds:
  assumes "set os \<subseteq> connections" "CompensationClient \<notin> set os"
  shows "builds (needs Saga_service t) F os F os F
    ((if transport = transportGRPC then [CompensationClient] else []) @ os)
    (\<lambda>closers. closers = (if transport = transportGRPC then [CompensationClient] else [])) (newCoordinator transport)"
proof -
  have "moves (needs Saga_service t) F os (CompensationClient # os) (act (Opened CompensationClient))"
    by (rule moves_open) (use assms in auto)
  then show ?thesis
    by (intro buildsI) (auto simp: newCoordinator_def Dial_def wp_simps elim!: movesD)
qed

lemma saga_coordinated:
  assumes "HasStream ` fst ` set event_streams \<subseteq> F" "set (schemas Saga_service) \<subseteq> F"
  shows "moves (needs Saga_service t) F [Nats, PgPool, Signals] [Nats, PgPool, Signals]
    (bindE (newCoordinator t) (\<lambda>closers. deferring (cleanupClosers closers) (
     bindE (wrap m (StartConsumers E saga_specs)) (\<lambda>stops. deferring (stopAll stops) (do {
       _ \<leftarrow> act (Detached ''relay'');
       saga_serve E
     })))))"
proof (rule builds_defer [OF newCoordinator_builds])
  let ?cs = "if t = transportGRPC then [CompensationClient] else []"
  have "moves (needs Saga_service t) F (?cs @ [Nats, PgPool, Signals]) (?cs @ [Nats, PgPool, Signals])
    (bindE (wrap m (StartConsumers E saga_specs)) (\<lambda>stops. deferring (stopAll stops) (do {
       _ \<leftarrow> act (Detached ''relay''); saga_serve E })))"
    by (rule service.moves_consumers, rule moves_detached, rule saga_serves)
      (use assms in \<open>auto simp: needs_simps specs_distinct saga_specs_def\<close>)
  moreover have "moves (needs Saga_service t) F (?cs @ [Nats, PgPool, Signals]) [Nats, PgPool, Signals] (cleanupClosers ?cs)"
    using service.moves_cleanup [where rs = ?cs and os = "[Nats, PgPool, Signals]"] by (auto simp: connections_def)
  ultimately show "moves (needs Saga_service t) F (?cs @ [Nats, PgPool, Signals]) (?cs @ [Nats, PgPool, Signals])
      (bindE (wrap m (StartConsumers E saga_specs)) (\<lambda>stops. deferring (stopAll stops) (do {
       _ \<leftarrow> act (Detached ''relay''); saga_serve E })))"
    "moves (needs Saga_service t) F (?cs @ [Nats, PgPool, Signals]) [Nats, PgPool, Signals] (cleanupClosers closers)"
    if "closers = ?cs" for closers
    using that by auto
qed (auto simp: connections_def)

lemma saga_Run_balanced: "moves (needs Saga_service t) {} [Signals] [Signals] (saga_Run E t)"
  unfolding saga_Run_def
  by (rule service.run_migrations, rule service.run_migrations, rule service.run_pool, rule service.run_broker, rule service.run_streams,
      rule saga_coordinated)
    (auto simp: needs_simps)

lemma subscription_serves:
  assumes "{PgPool, Redis, Nats} \<subseteq> set os" "set (schemas Subscription_service) \<subseteq> F"
    and new: "Goroutine ''relay'' \<notin> set os" "Goroutine ''cleanup'' \<notin> set os" "Server ''public'' \<notin> set os" "Server ''internal-grpc'' \<notin> set os"
  shows "moves (needs Subscription_service t) F os os (do { _ \<leftarrow> startBackground; subscription_serve E })"
proof -
  let ?N = "needs Subscription_service t" and ?R = "Goroutine ''relay''" and ?C = "Goroutine ''cleanup''"
    and ?S = "Server ''public''" and ?I = "Server ''internal-grpc''"
  have 1: "moves ?N F os (?R # os) (act (Opened ?R))" by (rule moves_open) (use assms in auto)
  have 2: "moves ?N F (?R # os) (?C # ?R # os) (act (Opened ?C))" by (rule moves_open) (use assms in auto)
  have 3: "moves ?N F (?C # ?R # os) (?S # ?C # ?R # os) (act (Opened ?S))" by (rule moves_open) (use assms in auto)
  have 4: "moves ?N F (?S # ?C # ?R # os) (?I # ?S # ?C # ?R # os) (act (Opened ?I))" by (rule moves_open) (use assms in auto)
  have 5: "moves ?N F (?I # ?S # ?C # ?R # os) (?I # ?S # ?C # ?R # os) (act (Cancelled ''relay''))"
    "moves ?N F (?I # ?S # ?C # ?R # os) (?I # ?S # ?C # ?R # os) (act (Cancelled ''cleanup''))"
    by (rule moves_cancel, simp)+
  have 6: "moves ?N F (?I # ?S # ?C # ?R # os) (?I # ?S # ?C # os) (act (Closed ?R))"
    using service.moves_closed [of ?R "[?I, ?S, ?C]" os] new by (simp add: connections_def)
  have 7: "moves ?N F (?I # ?S # ?C # os) (?I # ?S # os) (act (Closed ?C))"
    using service.moves_closed [of ?C "[?I, ?S]" os] new by (simp add: connections_def)
  have 8: "moves ?N F (?I # ?S # os) (?I # os) (server_Shutdown E ''public'')"
    using service.moves_shut [of "''public''" "[?I]" os] new by simp
  have 9: "moves ?N F (?I # os) os (server_Shutdown E ''internal-grpc'')"
    using service.moves_shut [of "''internal-grpc''" "[]" os] new by simp
  have down: "moves ?N F (?I # ?S # ?C # ?R # os) os (subscription_gracefulShutdown E)"
    unfolding subscription_gracefulShutdown_def
    by (rule moves_bind [OF 5(1) moves_bind [OF 5(2) moves_bind [OF 6 moves_bind [OF 7 moves_bind [OF 8 9]]]]])
  show ?thesis
    unfolding startBackground_def subscription_serve_def
    by (rule moves_bind [OF moves_bind [OF 1 2] moves_bind [OF 3 moves_bind [OF 4 moves_bind [OF service.moves_await
      moves_bind [OF down moves_return]]]]])
qed

lemma subscription_Run_balanced: "moves (needs Subscription_service t) {} [Signals] [Signals] (subscription_Run E)"
  unfolding subscription_Run_def
proof (rule builds_defer [OF service.newInfrastructure_builds])
  let ?F = "HasStream ` fst ` set event_streams \<union> {HasStream StreamSubscriptions, HasSchema OutboxSchema, HasSchema ServiceSchema}"
  show "moves (needs Subscription_service t) ?F [Nats, Redis, PgPool, Signals] [Nats, Redis, PgPool, Signals]
      (bindE (wrap m (StartConsumers E subscription_specs)) (\<lambda>stops. deferring (stopAll stops) (
       bindE (newPublicServer E) (\<lambda>_. bindE (newInternalGRPCServer E) (\<lambda>_. do { _ \<leftarrow> startBackground; subscription_serve E })))))" for m
    unfolding newPublicServer_def newInternalGRPCServer_def
    by (rule service.moves_consumers, rule moves_bindE [OF opens_first [OF opens_wrap [OF opens_attempt] opens_wrap [OF opens_attempt]]],
        rule moves_bindE [OF opens_wrap [OF opens_attempt]], rule subscription_serves)
      (auto simp: needs_simps specs_distinct subscription_specs_def)
  show "moves (needs Subscription_service t) ?F [Nats, Redis, PgPool, Signals] [Signals] (cleanupClosers closers)"
    if "closers = [PgPool, Redis, Nats]" for closers
    using service.moves_cleanup [where rs = "[PgPool, Redis, Nats]" and os = "[Signals]"] that by (auto simp: connections_def)
qed simp

text \<open>The programs, the settings they read, and the transport that a configuration selects.\<close>

primrec service_main :: "service \<Rightarrow> env \<Rightarrow> process \<Rightarrow> environ \<Rightarrow> (boot, nat) state" where
  "service_main Subscription_service E = subscription_main E"
| "service_main Notifier_service E = notifier_main E"
| "service_main Scanner_service E = scanner_main E"
| "service_main Saga_service E = saga_main E"

primrec service_fields :: "service \<Rightarrow> env_field list" where
  "service_fields Subscription_service = SubscriptionConfig_fields"
| "service_fields Notifier_service = NotifierConfig_fields"
| "service_fields Scanner_service = ScannerConfig_fields"
| "service_fields Saga_service = SagaConfig_fields"

definition transport_of :: "process \<Rightarrow> environ \<Rightarrow> string" where
  "transport_of process environ = (case LoadSaga process environ of Inl e \<Rightarrow> '''' | Inr cfg \<Rightarrow> saga_CompensateTransport cfg)"

lemma bootstrap_Main_balanced:
  assumes "\<And>cfg. load = Inr cfg \<Longrightarrow> moves (needs svc t) {} [Signals] [Signals] (run cfg)"
  shows "moves (needs svc t) {} [] [] (bootstrap_Main E load run)"
proof -
  have 1: "moves (needs svc t) {} [] [Signals] (act (Opened Signals))" by (rule moves_open) auto
  have 2: "moves (needs svc t) {} [Signals] [] (act (Closed Signals))"
    using service.moves_pop [where os = "[]" and r = Signals] by (simp add: connections_def)
  have "moves (needs svc t) {} [] [] (do { _ \<leftarrow> act (Opened Signals); deferring (act (Closed Signals)) (run cfg) })"
    if "load = Inr cfg" for cfg
    by (rule moves_bind [OF 1 moves_deferring [OF assms [OF that] 2]])
  then have 3: "moves (needs svc t) {} [] [] (bindE (wrap m (liftE load)) (\<lambda>cfg. do {
      _ \<leftarrow> act (Opened Signals); deferring (act (Closed Signals)) (run cfg) }))" for m
    by (intro movesI) (cases load; auto simp: wp_simps simp del: wp_bind elim!: movesD)
  show ?thesis
    unfolding bootstrap_Main_def launch_def by (rule moves_bind [OF moves_bind [OF moves_attempt 3] moves_return])
qed

lemma service_main_balanced: "moves (needs svc (transport_of process environ)) {} [] [] (service_main svc E process environ)"
  by (cases svc)
    (auto simp: subscription_main_def notifier_main_def scanner_main_def saga_main_def transport_of_def
      intro!: bootstrap_Main_balanced subscription_Run_balanced notifier_Run_balanced scanner_Run_balanced saga_Run_balanced)

lemma launch_refused:
  "wp (bootstrap_Main E (Inl e) run) (\<lambda>status log. status = 1 \<and> snd log = []) (0, [])"
  by (auto simp: bootstrap_Main_def launch_def attempt_def wp_simps split: fault.splits)

lemma service_main_refused:
  assumes "envconfig_documented process" "refused environ (service_fields svc)"
  shows "wp (service_main svc E process environ) (\<lambda>status log. status = 1 \<and> snd log = []) (0, [])"
proof -
  have "\<exists>e. service_main svc E process environ = bootstrap_Main E (Inl e) (\<lambda>_ :: unit. ok ())"
    using assms(2) loads_refused [OF assms(1), of environ]
    by (cases svc) (auto simp: subscription_main_def notifier_main_def scanner_main_def saga_main_def bootstrap_Main_def launch_def
        bindE_def wrap_def liftE_def)
  with launch_refused show ?thesis by metis
qed


text \<open>A notifier whose broker cannot create the third stream, and one without an SMTP server.\<close>

definition demo_environ :: environ where
  "demo_environ = [''DATABASE_URL'' \<mapsto> ''db'', ''SMTP_HOST'' \<mapsto> ''h'', ''SMTP_USER'' \<mapsto> ''u'', ''SMTP_PASSWORD'' \<mapsto> ''p'', ''SMTP_FROM'' \<mapsto> ''f'']"


text \<open>
  The notifier and the orchestrator start their relay without a way to wait for it: unlike in the subscription service, the
  broker connection and the pool are closed with the relay possibly still running.
\<close>

lemma relay_not_awaited:
  "Detached ''relay'' \<in> set (snd (snd (run_state (notifier_Run calm_env) (0, [])))) \<and>
   Detached ''relay'' \<in> set (snd (snd (run_state (saga_Run calm_env transportGRPC) (0, []))))"
  by code_simp

end
