(* ===== verification/Telemetry.thy ===== *)
theory Telemetry
  imports Connect
begin

text \<open>
  What surrounds the handlers (\<open>infrastructure/logging\<close>, \<open>infrastructure/metrics\<close>): the identifiers a context carries, from the edge of the
  service into every log line and from one service to the next; the collectors and the code that counts; and the public API
  with all of it in place.
\<close>

section \<open>Identifiers\<close>

definition WithRequestID :: "ctx \<Rightarrow> string \<Rightarrow> ctx" where
  "WithRequestID c i = c\<lparr>ctx_requestID := i\<rparr>"

definition RequestID :: "ctx \<Rightarrow> string" where
  "RequestID c = ctx_requestID c"

definition ScanID :: "ctx \<Rightarrow> string" where
  "ScanID c = ctx_scanID c"

definition ctx_SagaID :: "ctx \<Rightarrow> string" where
  "ctx_SagaID c = ctx_sagaID c"

definition WithProtocol :: "ctx \<Rightarrow> string \<Rightarrow> ctx" where
  "WithProtocol c p = c\<lparr>ctx_protocol := p\<rparr>"

definition Protocol :: "ctx \<Rightarrow> string" where
  "Protocol c = ctx_protocol c"

lemmas id_defs = WithRequestID_def RequestID_def WithScanID_def ScanID_def WithSagaID_def ctx_SagaID_def WithProtocol_def Protocol_def

subsection \<open>Headers\<close>

text \<open>
  \<open>textproto.CanonicalMIMEHeaderKey\<close>, on names of letters and hyphens: a capital at the start and after every hyphen.
\<close>

definition lower :: "char \<Rightarrow> char" where
  "lower c = (if char_between CHR ''A'' CHR ''Z'' c then char_of (of_char c + (32 :: nat)) else c)"

fun canonical :: "bool \<Rightarrow> string \<Rightarrow> string" where
  "canonical first [] = []"
| "canonical first (c # cs) = (if first then fold_char c else lower c) # canonical (c = CHR ''-'') cs"

type_synonym headers = "(string \<times> string) list"

definition header_Get :: "headers \<Rightarrow> string \<Rightarrow> string" where
  "header_Get h k = (case map_of h (canonical True k) of None \<Rightarrow> '''' | Some v \<Rightarrow> v)"

definition header_Set :: "headers \<Rightarrow> string \<Rightarrow> string \<Rightarrow> headers" where
  "header_Set h k v = (canonical True k, v) # filter (\<lambda>(k', _). k' \<noteq> canonical True k) h"

lemma header_Get_Set: "header_Get (header_Set h k v) k' = (if canonical True k' = canonical True k then v else header_Get h k')"
proof -
  have "map_of (filter (\<lambda>(x, _). x \<noteq> a) h) b = map_of h b" if "b \<noteq> a" for a b
    using that by (induction h) auto
  then show ?thesis by (auto simp: header_Get_def header_Set_def)
qed

subsection \<open>Between services\<close>

definition requestIDMetaKey :: string where
  "requestIDMetaKey = ''x-request-id''"

definition scanIDMetaKey :: string where
  "scanIDMetaKey = ''x-scan-id''"

definition requestIDHeader :: string where
  "requestIDHeader = ''X-Request-Id''"

definition attachOutgoingIDs :: "ctx \<Rightarrow> headers \<Rightarrow> headers" where
  "attachOutgoingIDs c h =
     (let h = (if RequestID c \<noteq> '''' then header_Set h requestIDMetaKey (RequestID c) else h)
      in if ScanID c \<noteq> '''' then header_Set h scanIDMetaKey (ScanID c) else h)"

definition readIncomingIDs :: "env \<Rightarrow> ctx \<Rightarrow> headers \<Rightarrow> ('db world, ctx) state" where
  "readIncomingIDs E c h = do {
     i \<leftarrow> (if header_Get h requestIDMetaKey = '''' then NewString E
           else State_Monad.return (header_Get h requestIDMetaKey));
     let c = WithRequestID c i;
     State_Monad.return (if header_Get h scanIDMetaKey \<noteq> '''' then WithScanID c (header_Get h scanIDMetaKey) else c)
   }"

text \<open>The interceptor acts on both sides of a call; \<open>next\<close> sees the context and the headers.\<close>

definition ConnectCorrelationInterceptor :: "env \<Rightarrow> bool \<Rightarrow> (ctx \<Rightarrow> headers \<Rightarrow> ('db world, 'r) state) \<Rightarrow> ctx \<Rightarrow> headers \<Rightarrow>
    ('db world, 'r) state" where
  "ConnectCorrelationInterceptor E isClient nxt c h =
     (if isClient then nxt c (attachOutgoingIDs c h)
      else do { c \<leftarrow> readIncomingIDs E c h; nxt c h })"

subsection \<open>The edge\<close>

record http_request =
  rq_header :: headers
  rq_path :: string

definition HasPrefix :: "string \<Rightarrow> string \<Rightarrow> bool" where
  "HasPrefix s p \<longleftrightarrow> take (length p) s = p"

definition DetectProtocol :: "http_request \<Rightarrow> string" where
  "DetectProtocol r =
     (let ct = header_Get (rq_header r) ''Content-Type'' in
      if HasPrefix ct ''application/grpc-web'' then ''grpc-web''
      else if HasPrefix ct ''application/grpc'' then ''grpc''
      else if HasPrefix (rq_path r) ''/api/'' then ''rest''
      else ''connect'')"

text \<open>The handler is given the new context; the result carries the response headers.\<close>

definition EdgeMiddleware :: "(ctx \<Rightarrow> ('s, 'r) state) \<Rightarrow> ('s, string) state \<Rightarrow> ctx \<Rightarrow> http_request \<Rightarrow>
    ('s, headers \<times> 'r) state" where
  "EdgeMiddleware nxt newString c r = do {
     i \<leftarrow> (if header_Get (rq_header r) requestIDHeader = '''' then newString
           else State_Monad.return (header_Get (rq_header r) requestIDHeader));
     x \<leftarrow> nxt (WithProtocol (WithRequestID c i) (DetectProtocol r));
     State_Monad.return (header_Set [] requestIDHeader i, x)
   }"

section \<open>Log lines\<close>

text \<open>
  A chain of handlers: the JSON handler at the end, with the attributes it was given by \<open>With\<close>, and around it handlers that add one
  field of the context to the record.
\<close>

datatype log_handler = JSONHandler "(string \<times> string) list" | FieldHandler log_handler string "ctx \<Rightarrow> string"

primrec WithAttrs :: "log_handler \<Rightarrow> (string \<times> string) list \<Rightarrow> log_handler" where
  "WithAttrs (JSONHandler pre) attrs = JSONHandler (pre @ attrs)"
| "WithAttrs (FieldHandler inner key extract) attrs = FieldHandler (WithAttrs inner attrs) key extract"

primrec Handle :: "log_handler \<Rightarrow> ctx \<Rightarrow> (string \<times> string) list \<Rightarrow> (string \<times> string) list" where
  "Handle (JSONHandler pre) c attrs = pre @ attrs"
| "Handle (FieldHandler inner key extract) c attrs =
     Handle inner c (if extract c \<noteq> '''' then attrs @ [(key, extract c)] else attrs)"

definition NewRequestIDHandler :: "log_handler \<Rightarrow> log_handler" where
  "NewRequestIDHandler inner = FieldHandler inner ''request_id'' RequestID"

definition NewScanIDHandler :: "log_handler \<Rightarrow> log_handler" where
  "NewScanIDHandler inner = FieldHandler inner ''scan_id'' ScanID"

definition NewSagaIDHandler :: "log_handler \<Rightarrow> log_handler" where
  "NewSagaIDHandler inner = FieldHandler inner ''saga_id'' ctx_SagaID"

text \<open>The logger every service gets from \<open>launch\<close>.\<close>

definition service_logger :: log_handler where
  "service_logger = NewRequestIDHandler (NewScanIDHandler (NewSagaIDHandler (JSONHandler [])))"

definition context_fields :: "ctx \<Rightarrow> (string \<times> string) list" where
  "context_fields c = filter (\<lambda>(k, v). v \<noteq> '''')
     [(''request_id'', RequestID c), (''scan_id'', ScanID c), (''saga_id'', ctx_SagaID c)]"

text \<open>Every line of every logger derived with \<open>With\<close> carries the identifiers the context has, and no others.\<close>

lemma log_carries_ids:
  "Handle (foldl WithAttrs service_logger attrss) c attrs = concat attrss @ attrs @ context_fields c"
proof -
  have "foldl WithAttrs (NewRequestIDHandler (NewScanIDHandler (NewSagaIDHandler (JSONHandler pre)))) attrss =
      NewRequestIDHandler (NewScanIDHandler (NewSagaIDHandler (JSONHandler (pre @ concat attrss))))" for pre
    by (induction attrss arbitrary: pre)
      (simp_all add: NewRequestIDHandler_def NewScanIDHandler_def NewSagaIDHandler_def)
  from this [of "[]"] show ?thesis
    by (simp add: service_logger_def NewRequestIDHandler_def NewScanIDHandler_def NewSagaIDHandler_def context_fields_def)
qed

text \<open>
  Identifiers survive (\<open>connect_correlation.go\<close>, \<open>edge.go\<close>, \<open>handler.go\<close>, \<open>launch\<close>): what the client side of the interceptor attaches,
  the server side reads back, whatever headers were there and whatever case the names are written in; the edge takes the
  same request id and returns it to the caller; and every log line written with the context carries exactly its identifiers.
\<close>

theorem correlation_round_trip:
  fixes w :: "'db world"
  assumes "RequestID c \<noteq> ''''" and "run_state (readIncomingIDs E c0 (attachOutgoingIDs c h)) w = (c', w')"
  shows "RequestID c' = RequestID c \<and> (ScanID c \<noteq> '''' \<longrightarrow> ScanID c' = ScanID c) \<and> w' = w \<and>
    (\<exists>x s'. run_state (EdgeMiddleware nxt newString c0 \<lparr>rq_header = attachOutgoingIDs c h, rq_path = path\<rparr>) s =
       (([(''X-Request-Id'', RequestID c)], x), s') \<and>
     run_state (nxt (c0\<lparr>ctx_requestID := RequestID c,
       ctx_protocol := DetectProtocol \<lparr>rq_header = attachOutgoingIDs c h, rq_path = path\<rparr>\<rparr>)) s = (x, s')) \<and>
    Handle (foldl WithAttrs service_logger attrss) c' attrs = concat attrss @ attrs @ context_fields c'"
proof -
  have keys: "canonical True requestIDMetaKey = ''X-Request-Id''" "canonical True scanIDMetaKey = ''X-Scan-Id''"
    "canonical True requestIDHeader = ''X-Request-Id''"
    by code_simp+
  have got: "header_Get (attachOutgoingIDs c h) requestIDMetaKey = RequestID c"
    "ScanID c \<noteq> '''' \<Longrightarrow> header_Get (attachOutgoingIDs c h) scanIDMetaKey = ScanID c"
    "header_Get (attachOutgoingIDs c h) requestIDHeader = RequestID c"
    using assms(1) by (simp_all add: attachOutgoingIDs_def header_Get_Set keys Let_def)
  have "c' = (if header_Get (attachOutgoingIDs c h) scanIDMetaKey \<noteq> ''''
      then WithScanID (WithRequestID c0 (RequestID c)) (header_Get (attachOutgoingIDs c h) scanIDMetaKey)
      else WithRequestID c0 (RequestID c)) \<and> w' = w"
    using assms by (auto simp: readIncomingIDs_def got(1) Let_def)
  then have "RequestID c' = RequestID c \<and> (ScanID c \<noteq> '''' \<longrightarrow> ScanID c' = ScanID c) \<and> w' = w"
    using got(2) by (auto simp: id_defs)
  moreover have "\<exists>x s'. run_state (EdgeMiddleware nxt newString c0 \<lparr>rq_header = attachOutgoingIDs c h, rq_path = path\<rparr>) s =
       (([(''X-Request-Id'', RequestID c)], x), s') \<and>
     run_state (nxt (c0\<lparr>ctx_requestID := RequestID c,
       ctx_protocol := DetectProtocol \<lparr>rq_header = attachOutgoingIDs c h, rq_path = path\<rparr>\<rparr>)) s = (x, s')"
    using assms(1)
    by (auto simp: EdgeMiddleware_def got(3) header_Set_def keys id_defs split: prod.splits)
  ultimately show ?thesis using log_carries_ids by blast
qed

theorem correlation_round_trip_witness:
  "(\<lambda>c'. RequestID c' = ''r1'' \<and> ScanID c' = ''s1'') (fst (run_state (readIncomingIDs calm_env Background
     (attachOutgoingIDs (Background\<lparr>ctx_requestID := ''r1'', ctx_scanID := ''s1''\<rparr>) [(''X-Scan-Id'', ''old'')])) (fresh_world ())))"
proof -
  let ?c = "Background\<lparr>ctx_requestID := ''r1'', ctx_scanID := ''s1''\<rparr>"
  have ids: "RequestID ?c = ''r1''" "ScanID ?c = ''s1''" by (simp_all add: id_defs)
  then have "RequestID ?c \<noteq> ''''" by simp
  note rt = correlation_round_trip [OF this prod.collapse [symmetric], of calm_env Background "[(''X-Scan-Id'', ''old'')]" "fresh_world ()"]
  from rt [THEN conjunct1] rt [THEN conjunct2, THEN conjunct1] show ?thesis using ids by simp
qed

section \<open>Collectors\<close>

text \<open>The collectors of \<open>metrics.go\<close>: their names and the names of their labels.\<close>

definition collectors :: "(string \<times> string list) list" where
  "collectors =
     [(''requests_total'', [''protocol'', ''procedure'', ''code'']),
      (''request_duration_seconds'', [''protocol'', ''procedure'']),
      (''scanner_runs_total'', []),
      (''scanner_duration_seconds'', []),
      (''events_published_total'', [''subject'', ''result'']),
      (''events_consumed_total'', [''subject'', ''result'']),
      (''github_api_errors_total'', [''type'']),
      (''subscription_operations_total'', [''operation'', ''result'']),
      (''scanner_errors_total'', [''reason'']),
      (''db_queries_total'', [''operation'', ''table'']),
      (''db_query_errors_total'', [''operation'', ''table'']),
      (''db_query_duration_seconds'', [''operation'', ''table'']),
      (''cache_operations_total'', [''operation'', ''result'']),
      (''cache_operation_duration_seconds'', [''operation'']),
      (''email_sends_total'', [''type'', ''status'']),
      (''email_send_duration_seconds'', [''type'']),
      (''github_api_requests_total'', [''operation'', ''result'']),
      (''github_api_request_duration_seconds'', [''operation''])]"

text \<open>
  The registry: how often each series was incremented or observed. \<open>MustRegister\<close> panics on a name it has, and \<open>WithLabelValues\<close>
  panics when the number of values is not that of the labels.
\<close>

record metrics =
  series :: "string \<times> string list \<Rightarrow> nat"
  metrics_panicked :: bool

definition MustRegister :: "(string \<times> string list) list \<Rightarrow> metrics" where
  "MustRegister cs = \<lparr>series = (\<lambda>_. 0), metrics_panicked = (\<not> distinct (map fst cs))\<rparr>"

definition count :: "string \<Rightarrow> string list \<Rightarrow> metrics \<Rightarrow> metrics" where
  "count name values m =
     (if metrics_panicked m then m
      else if map_option length (map_of collectors name) = Some (length values)
      then m\<lparr>series := (series m)((name, values) := Suc (series m (name, values)))\<rparr>
      else m\<lparr>metrics_panicked := True\<rparr>)"

definition counting :: "string \<Rightarrow> string list \<Rightarrow> (metrics \<times> 's, unit) state" where
  "counting name values = State (\<lambda>(m, s). ((), count name values m, s))"

text \<open>Code that does not count, in a process that does.\<close>

definition uncounted :: "('s, 'a) state \<Rightarrow> (metrics \<times> 's, 'a) state" where
  "uncounted p = State (\<lambda>(m, s). case run_state p s of (a, s') \<Rightarrow> (a, m, s'))"

definition ResultLabel :: "'e + 'a \<Rightarrow> string" where
  "ResultLabel r = (case r of Inr _ \<Rightarrow> ''success'' | Inl _ \<Rightarrow> ''error'')"

definition RecordScanRun :: "(metrics \<times> 's, unit) state" where
  "RecordScanRun = do { _ \<leftarrow> counting ''scanner_runs_total'' []; counting ''scanner_duration_seconds'' [] }"

text \<open>\<open>Metered.Execute\<close>: the deferred function counts the outcome.\<close>

definition Metered_Execute :: "string \<Rightarrow> ('s, error + 'a) state \<Rightarrow> (metrics \<times> 's, error + 'a) state" where
  "Metered_Execute operation inner = do {
     r \<leftarrow> uncounted inner;
     _ \<leftarrow> counting ''subscription_operations_total'' [operation, ResultLabel r];
     State_Monad.return r
   }"

text \<open>\<open>PgxTracer\<close>: the operation and the start are values of the context of the query.\<close>

definition TraceQueryEnd :: "(string \<times> string) option \<Rightarrow> bool \<Rightarrow> error option \<Rightarrow> (metrics \<times> 's, unit) state" where
  "TraceQueryEnd dbOp started e = do {
     let (operation, table) = (case dbOp of Some op \<Rightarrow> op | None \<Rightarrow> (''unknown'', ''unknown''));
     _ \<leftarrow> counting ''db_queries_total'' [operation, table];
     _ \<leftarrow> (if started then counting ''db_query_duration_seconds'' [operation, table] else State_Monad.return ());
     if (case e of Some e \<Rightarrow> \<not> errors_Is e ErrNoRows | None \<Rightarrow> False)
     then counting ''db_query_errors_total'' [operation, table] else State_Monad.return ()
   }"

primrec code_String :: "code \<Rightarrow> string" where
  "code_String CodeInvalidArgument = ''invalid_argument''"
| "code_String CodeNotFound = ''not_found''"
| "code_String CodeAlreadyExists = ''already_exists''"
| "code_String CodeInternal = ''internal''"
| "code_String CodeUnauthenticated = ''unauthenticated''"

definition ObservabilityInterceptor :: "string \<Rightarrow> (ctx \<Rightarrow> (metrics \<times> 's, connect_error + 'r) state) \<Rightarrow> ctx \<Rightarrow>
    (metrics \<times> 's, connect_error + 'r) state" where
  "ObservabilityInterceptor procedure nxt c = do {
     r \<leftarrow> nxt c;
     let proto = (if Protocol c = '''' then ''unknown'' else Protocol c);
     let code = (case r of Inl (k, m) \<Rightarrow> code_String k | Inr _ \<Rightarrow> ''ok'');
     _ \<leftarrow> counting ''requests_total'' [proto, procedure, code];
     _ \<leftarrow> counting ''request_duration_seconds'' [proto, procedure];
     State_Monad.return r
   }"

section \<open>The public API with everything around it\<close>

text \<open>\<open>buildUseCases\<close>: the use cases are metered.\<close>

fun metered_handle :: "env \<Rightarrow> 'a deps \<Rightarrow> ctx \<Rightarrow> request \<Rightarrow> (metrics \<times> 'a sub_db_scheme world, connect_error + response) state" where
  "metered_handle E D c (SubscribeRequest email repo) =
     reply (Metered_Execute ''subscribe'' (subscribe_Execute E (dp_gh D) (dp_jwt D) (dp_ttl D) (dp_base D) c email repo))
       (\<lambda>_. Message ''subscription successful, confirmation email sent'')"
| "metered_handle E D c (ConfirmRequest token) =
     reply (Metered_Execute ''confirm'' (confirm_Execute E (dp_jwt D) c token)) (\<lambda>_. Message ''subscription confirmed successfully'')"
| "metered_handle E D c (UnsubscribeRequest token) =
     reply (Metered_Execute ''unsubscribe'' (unsubscribe_Execute E c token)) (\<lambda>_. Message ''unsubscribed successfully'')"
| "metered_handle E D c (ListSubscriptionsRequest email) =
     reply (Metered_Execute ''list'' (list_Execute E c email)) (\<lambda>views. Subscriptions (toProtoSubscriptions views))"

text \<open>
  \<open>NewConnectHandler\<close> with its three interceptors, under the middleware of \<open>NewHandler\<close>. \<open>procedure\<close> is the generated name of the
  procedure of a request.
\<close>

definition NewConnectHandler :: "env \<Rightarrow> 'a deps \<Rightarrow> string \<Rightarrow> (request \<Rightarrow> string option option) \<Rightarrow> (request \<Rightarrow> string) \<Rightarrow> string \<Rightarrow>
    request \<Rightarrow> ctx \<Rightarrow> (metrics \<times> 'a sub_db_scheme world, connect_error + response) state" where
  "NewConnectHandler E D apiKey V procedure auth req =
     ObservabilityInterceptor (procedure req) (\<lambda>c.
       AuthInterceptor apiKey auth req (\<lambda>req. ValidationInterceptor V req (metered_handle E D c)))"

definition public_handler :: "env \<Rightarrow> 'a deps \<Rightarrow> string \<Rightarrow> (request \<Rightarrow> string option option) \<Rightarrow> (request \<Rightarrow> string) \<Rightarrow> http_request \<Rightarrow>
    request \<Rightarrow> (metrics \<times> 'a sub_db_scheme world, headers \<times> (connect_error + response)) state" where
  "public_handler E D apiKey V procedure r req =
     EdgeMiddleware (NewConnectHandler E D apiKey V procedure (header_Get (rq_header r) ''Authorization'') req)
       (uncounted (NewString E)) Background r"

section \<open>Instrumentation changes nothing\<close>

lemma count_simps:
  "\<not> metrics_panicked m \<Longrightarrow> map_option length (map_of collectors name) = Some (length values) \<Longrightarrow>
     \<not> metrics_panicked (count name values m) \<and>
     series (count name values m) = (series m)((name, values) := Suc (series m (name, values)))"
  by (simp add: count_def)

fun operation_of :: "request \<Rightarrow> string" where
  "operation_of (SubscribeRequest email repo) = ''subscribe''"
| "operation_of (ConfirmRequest token) = ''confirm''"
| "operation_of (UnsubscribeRequest token) = ''unsubscribe''"
| "operation_of (ListSubscriptionsRequest email) = ''list''"

lemma metered_handle_run:
  "run_state (metered_handle E D c req) (m, w) = (case run_state (handle E D c req) w of
     (r, w') \<Rightarrow> (r, count ''subscription_operations_total'' [operation_of req, ResultLabel r] m, w'))"
  by (cases req) (auto simp: Service_Subscribe_def Service_Confirm_def Service_Unsubscribe_def Service_ListSubscriptions_def
      reply_def Metered_Execute_def uncounted_def counting_def ResultLabel_def split: prod.splits sum.splits)

text \<open>The counters of the operations, when the use case was reached at all.\<close>

lemma chain_run:
  assumes "\<not> metrics_panicked m"
  shows "\<exists>m1. run_state (AuthInterceptor apiKey auth req (\<lambda>req. ValidationInterceptor V req (metered_handle E D c))) (m, w) =
      (case run_state (ConnectHandler E D apiKey V c auth req) w of (r, w') \<Rightarrow> (r, m1, w')) \<and>
    \<not> metrics_panicked m1 \<and> (\<forall>values. series m1 (''requests_total'', values) = series m (''requests_total'', values))"
proof -
  have labels: "map_option length (map_of collectors ''subscription_operations_total'') = Some 2" by code_simp
  have "\<not> metrics_panicked (count ''subscription_operations_total'' [a, b] m) \<and>
      (\<forall>values. series (count ''subscription_operations_total'' [a, b] m) (''requests_total'', values) = series m (''requests_total'', values))" for a b
    using count_simps [OF assms, of "''subscription_operations_total''" "[a, b]"] labels by simp
  with assms show ?thesis
    unfolding AuthInterceptor_def ValidationInterceptor_def ConnectHandler_def
    by (auto simp: metered_handle_run split: option.splits prod.splits)
qed

lemma DetectProtocol_nonempty: "DetectProtocol r \<noteq> ''''"
  by (simp add: DetectProtocol_def Let_def)

definition status_of :: "connect_error + 'r \<Rightarrow> string" where
  "status_of r = (case r of Inl (k, m) \<Rightarrow> code_String k | Inr _ \<Rightarrow> ''ok'')"

text \<open>
  \<^bold>\<open>C40.\<close> The instrumented public API is the API (\<open>NewHandler\<close>, \<open>NewConnectHandler\<close>, \<open>EdgeMiddleware\<close>, the observability interceptor,
  \<open>Metered\<close>): a request is answered, and changes the database, exactly as by the handler behind authentication and validation, in a
  context with the request id (the caller's, or a new one, which the response carries) and the protocol; it is counted
  exactly once, under its protocol, procedure and status; and no collector panics, at registration or with these labels.
\<close>

theorem instrumentation_transparent:
  fixes w :: "'a sub_db_scheme world"
  assumes "\<not> metrics_panicked m" and "run_state (public_handler E D apiKey V procedure r req) (m, w) = ((hs, res), m', w')"
  shows "\<exists>i w1. (if header_Get (rq_header r) requestIDHeader = '''' then run_state (NewString E) w = (i, w1)
        else i = header_Get (rq_header r) requestIDHeader \<and> w1 = w) \<and>
      hs = [(''X-Request-Id'', i)] \<and>
      run_state (ConnectHandler E D apiKey V (Background\<lparr>ctx_requestID := i, ctx_protocol := DetectProtocol r\<rparr>)
        (header_Get (rq_header r) ''Authorization'') req) w1 = (res, w') \<and>
      \<not> metrics_panicked m' \<and> \<not> metrics_panicked (MustRegister collectors) \<and>
      (\<forall>values. series m' (''requests_total'', values) = series m (''requests_total'', values) +
        (if values = [DetectProtocol r, procedure req, status_of res] then 1 else 0))"
proof -
  let ?auth = "header_Get (rq_header r) ''Authorization''"
  have key: "canonical True requestIDHeader = ''X-Request-Id''" by code_simp
  have labels: "map_option length (map_of collectors ''requests_total'') = Some 3"
    "map_option length (map_of collectors ''request_duration_seconds'') = Some 2" by code_simp+
  have register: "\<not> metrics_panicked (MustRegister collectors)" by (simp add: MustRegister_def) code_simp
  obtain i w1 where i: "if header_Get (rq_header r) requestIDHeader = '''' then run_state (NewString E) w = (i, w1)
      else i = header_Get (rq_header r) requestIDHeader \<and> w1 = w"
    by (metis prod.collapse)
  let ?c = "WithProtocol (WithRequestID Background i) (DetectProtocol r)"
  obtain res1 w2 where run: "run_state (ConnectHandler E D apiKey V ?c ?auth req) w1 = (res1, w2)" by (metis prod.collapse)
  from chain_run [OF assms(1), of apiKey ?auth req V E D ?c w1] obtain m1 where
    chain: "run_state (AuthInterceptor apiKey ?auth req (\<lambda>req. ValidationInterceptor V req (metered_handle E D ?c))) (m, w1) = (res1, m1, w2)"
    and m1: "\<not> metrics_panicked m1" "\<And>values. series m1 (''requests_total'', values) = series m (''requests_total'', values)"
    unfolding run by auto
  let ?m2 = "count ''requests_total'' [DetectProtocol r, procedure req, status_of res1] m1"
  let ?m3 = "count ''request_duration_seconds'' [DetectProtocol r, procedure req] ?m2"
  have m2: "\<not> metrics_panicked ?m2" "series ?m2 = (series m1)((''requests_total'', [DetectProtocol r, procedure req, status_of res1]) :=
      Suc (series m1 (''requests_total'', [DetectProtocol r, procedure req, status_of res1])))"
    using count_simps [OF m1(1), of "''requests_total''" "[DetectProtocol r, procedure req, status_of res1]"] labels(1) by simp_all
  have m3: "\<not> metrics_panicked ?m3" "\<And>values. series ?m3 (''requests_total'', values) = series ?m2 (''requests_total'', values)"
    using count_simps [OF m2(1), of "''request_duration_seconds''" "[DetectProtocol r, procedure req]"] labels(2) by simp_all
  have "run_state (NewConnectHandler E D apiKey V procedure ?auth req ?c) (m, w1) = (res1, ?m3, w2)"
    using chain DetectProtocol_nonempty [of r]
    by (simp add: NewConnectHandler_def ObservabilityInterceptor_def counting_def status_of_def WithProtocol_def Protocol_def Let_def)
  then have "run_state (public_handler E D apiKey V procedure r req) (m, w) = (([(''X-Request-Id'', i)], res1), ?m3, w2)"
    using i by (auto simp: public_handler_def EdgeMiddleware_def uncounted_def header_Set_def key split: if_splits)
  with assms(2) have "((hs, res), m', w') = (([(''X-Request-Id'', i)], res1), ?m3, w2)" by (rule trans [OF sym])
  then have out: "hs = [(''X-Request-Id'', i)]" "res = res1" "m' = ?m3" "w' = w2" by blast+
  show ?thesis
    using i run m3 m2 m1(2) register
    by (intro exI [where x = i] exI [where x = w1]) (auto simp: out WithProtocol_def WithRequestID_def)
qed

definition demo_deps :: "unit deps" where
  "demo_deps = \<lparr>dp_gh = demo_gh, dp_jwt = demo_jwt, dp_ttl = 0, dp_base = ''x''\<rparr>"

theorem instrumentation_transparent_witness:
  "series (fst (snd (run_state (public_handler calm_env demo_deps ''key'' (\<lambda>_. None) (\<lambda>_. ''List'')
      \<lparr>rq_header = [(''X-Request-Id'', ''r1'')], rq_path = ''/api/subscriptions''\<rparr> (ListSubscriptionsRequest ''a@b''))
      (MustRegister collectors, fresh_world demo_sub_db)))) (''requests_total'', [''rest'', ''List'', ''unauthenticated'']) = 1"
proof -
  let ?r = "\<lparr>rq_header = [(''X-Request-Id'', ''r1'')], rq_path = ''/api/subscriptions''\<rparr>"
  let ?run = "run_state (public_handler calm_env demo_deps ''key'' (\<lambda>_. None) (\<lambda>_. ''List'') ?r (ListSubscriptionsRequest ''a@b''))
      (MustRegister collectors, fresh_world demo_sub_db)"
  have start: "\<not> metrics_panicked (MustRegister collectors)" "series (MustRegister collectors) k = 0" for k
    by (simp_all add: MustRegister_def) code_simp
  have proto: "DetectProtocol ?r = ''rest''" "header_Get (rq_header ?r) ''Authorization'' = ''''" by code_simp+
  have "bearerToken '''' \<noteq> ''key''" by code_simp
  then have "run_state (ConnectHandler calm_env demo_deps ''key'' (\<lambda>_. None) c '''' (ListSubscriptionsRequest ''a@b'')) w1 =
      (Inl (CodeUnauthenticated, ''unauthorized''), w1)" for c w1
    by (simp add: ConnectHandler_def AuthInterceptor_def)
  moreover obtain hs res m' w' where run: "?run = ((hs, res), m', w')" by (metis prod.collapse)
  ultimately have "series m' (''requests_total'', [''rest'', ''List'', ''unauthenticated'']) = 1"
    using instrumentation_transparent [OF start(1) run] unfolding proto by (auto simp: start(2) status_of_def)
  with run show ?thesis by simp
qed

end
