(* ===== verification/Settings.thy ===== *)
theory Settings
  imports Schedule Startup_Spec Telemetry
begin

text \<open>
  From the settings to the running services (\<open>buildApp\<close>, \<open>buildComponents\<close> and \<open>Run\<close> under \<open>internal/bootstrap\<close>): which setting reaches
  which use case, and what that means for the loops and the fetch pass.
\<close>

section \<open>What the settings reach\<close>

text \<open>\<open>buildApp\<close>: the service behind the public API, the clean-up, the consumer, and the compensation use case.\<close>

record 'a app =
  app_svc :: "'a deps"
  app_cleanup :: "ctx \<Rightarrow> ('a sub_db_scheme world, error + unit) state"
  app_consumers :: "ctx \<Rightarrow> (string \<times> string \<times> 'a sub_db_scheme handler) list"
  app_compensate :: "ctx \<Rightarrow> string \<Rightarrow> string \<Rightarrow> ('a sub_db_scheme world, error + bool) state"

text \<open>The JWT library is a function of the secret.\<close>

definition buildApp :: "env \<Rightarrow> 'a sub_db_scheme gitHubClient \<Rightarrow> (string \<Rightarrow> jwt) \<Rightarrow> SubscriptionConfig \<Rightarrow> 'a app" where
  "buildApp E gh library cfg =
     \<lparr>app_svc = \<lparr>dp_gh = gh, dp_jwt = library (sub_JWTSecret cfg), dp_ttl = sub_ConfirmTokenTTL cfg, dp_base = sub_BaseURL cfg\<rparr>,
      app_cleanup = cleanup_Run E (sub_ConfirmTokenTTL cfg),
      app_consumers = subscription_consumers E,
      app_compensate = compensate_Execute E\<rparr>"

text \<open>\<open>buildComponents\<close> of the notifier and of the scanner, whose fetch pass is the argument \<open>scan\<close>.\<close>

record 'a notifier_components =
  nc_eventConsumer :: "ctx \<Rightarrow> (string \<times> string \<times> 'a notif_db_scheme handler) list"
  nc_retrier :: retry_config
  nc_processed :: "time \<Rightarrow> ('a notif_db_scheme world, error + nat) state"

definition notifier_buildComponents :: "env \<Rightarrow> mailer \<Rightarrow> NotifierConfig \<Rightarrow> 'a notifier_components" where
  "notifier_buildComponents E M cfg =
     \<lparr>nc_eventConsumer = notifier_consumers E M (notif_BaseURL cfg),
      nc_retrier = \<lparr>MaxRetries = notif_MaxRetries cfg, ConfirmationTTL = notif_ConfirmationTTL cfg\<rparr>,
      nc_processed = DeleteProcessedBefore E\<rparr>"

record 'a scanner_components =
  sc_watch :: "('a scan_db_scheme world, error + outcome list) state"
  sc_eventConsumer :: "(string \<times> string \<times> 'a scan_db_scheme handler) list"

definition scanner_buildComponents :: "env \<Rightarrow> 'a scan_db_scheme scan_fn \<Rightarrow> 'a scanner_components" where
  "scanner_buildComponents E scan = \<lparr>sc_watch = watch_Run E scan, sc_eventConsumer = scanner_consumers E\<rparr>"

section \<open>The loops with their settings\<close>

text \<open>The clean-up that \<open>startBackground\<close> starts, the loop of \<open>startMaintenance\<close>, and that of \<open>startScheduler\<close>.\<close>

definition subscription_background :: "env \<Rightarrow> SubscriptionConfig \<Rightarrow> unit tick list \<Rightarrow> ('a sub_db_scheme world, unit option) state" where
  "subscription_background E cfg evs = runCleanup E (sub_ConfirmTokenTTL cfg) (sub_PendingCleanupInterval cfg) evs"

definition notifier_maintenance :: "env \<Rightarrow> mailer \<Rightarrow> NotifierConfig \<Rightarrow> unit tick list \<Rightarrow> ('a notif_db_scheme world, unit option) state" where
  "notifier_maintenance E M cfg evs =
     runMaintenance E M (notif_BaseURL cfg) (nc_retrier (notifier_buildComponents E M cfg :: 'a notifier_components))
       (notif_ProcessedTTL cfg) (notif_RetryInterval cfg) evs"

definition scanner_scheduler :: "env \<Rightarrow> ScannerConfig \<Rightarrow> error + (string \<times> release) list \<Rightarrow> (error + (string \<times> release) list) tick list \<Rightarrow>
    ('a scan_db_scheme world, unit option) state" where
  "scanner_scheduler E cfg first evs =
     Scheduler_Start E (\<lambda>results _. sc_watch (scanner_buildComponents E (\<lambda>_. liftE results))) (scan_ScanInterval cfg) Background first evs"

lemma scanner_scheduler_run: "scanner_scheduler E cfg first evs = run_scheduler E (scan_ScanInterval cfg) first evs"
  by (simp add: scanner_scheduler_def run_scheduler_def scanner_buildComponents_def)

lemma loops_go_on:
  "0 < scan_ScanInterval sc \<Longrightarrow> fst (run_state (scanner_scheduler E sc first evs) w) = Some ()"
  "0 < sub_PendingCleanupInterval uc \<Longrightarrow> fst (run_state (subscription_background E uc cevs) u) = Some ()"
  "0 < notif_RetryInterval nc \<Longrightarrow> fst (run_state (notifier_maintenance E M nc mevs) v) = Some ()"
  by (simp_all add: scanner_scheduler_run subscription_background_def notifier_maintenance_def loops_are_passes case_prod_unfold)

lemma loops_panic:
  "scan_ScanInterval sc \<le> 0 \<Longrightarrow> fst (run_state (scanner_scheduler E sc first evs) w) = None"
  "sub_PendingCleanupInterval uc \<le> 0 \<Longrightarrow> fst (run_state (subscription_background E uc cevs) u) = None"
  "notif_RetryInterval nc \<le> 0 \<Longrightarrow> fst (run_state (notifier_maintenance E M nc mevs) v) = None"
  by (simp_all add: scanner_scheduler_run subscription_background_def notifier_maintenance_def zero_interval_panics)

section \<open>Settings that are not checked\<close>

text \<open>An environment with the required variables and one other.\<close>

definition bare_but :: "string \<Rightarrow> environ \<Rightarrow> env_field list \<Rightarrow> bool" where
  "bare_but key environ fs \<longleftrightarrow> (\<forall>f \<in> set fs. fld_key f \<noteq> key \<longrightarrow> (lookup_field environ f \<noteq> None) = fld_required f)"

lemma load_overridden:
  assumes "envconfig_documented proc" "distinct (map fld_key fs)" "bare_but (fld_key f) environ fs"
    and "\<And>g. g \<in> set fs \<Longrightarrow> default_setting environ g \<noteq> None"
    and "f \<in> set fs" "fld_outer f = None" "environ (fld_key f) = Some t" "parse_setting (fld_kind f) t = Some x"
    and "\<And>v. v (fld_key f) = x \<Longrightarrow> R (build v)"
  shows "\<exists>cfg. load_with msg fs build proc environ = Inr cfg \<and> R cfg"
proof -
  have f: "setting_of environ f = Some x"
    using assms(6-8) by (simp add: setting_of_def field_text_def lookup_field_def)
  have "setting_of environ g = default_setting environ g" if "g \<in> set fs" "g \<noteq> f" for g
  proof -
    from that assms(2,5) have "fld_key g \<noteq> fld_key f" by (metis distinct_map inj_onD)
    with assms(3) that(1) show ?thesis
      by (auto simp: bare_but_def setting_of_def default_setting_def field_text_def split: option.splits)
  qed
  with f assms(4) have "\<forall>g \<in> set fs. setting_of environ g \<noteq> None" by (metis option.distinct(1))
  from load_settings [OF assms(1,2) this] f assms(5,9) show ?thesis by (metis option.inject)
qed

lemma zero_texts: "parse_setting KindInt ''0'' = Some (SInt 0)" "parse_setting KindDuration ''0'' = Some (SDuration 0)"
  by code_simp+

lemma zero_workers_accepted:
  assumes "envconfig_documented proc" "bare_but ''SCAN_WORKERS'' environ ScannerConfig_fields" "environ ''SCAN_WORKERS'' = Some ''0''"
  shows "\<exists>cfg. LoadScanner proc environ = Inr cfg \<and> scan_WorkerCount cfg = 0"
  unfolding LoadScanner_def
  by (rule load_overridden [OF assms(1) keys_distinct(2) _ defaults_readable,
        where f = "optional ''SCAN_WORKERS'' KindInt ''5''" and t = "''0''" and x = "SInt 0"])
    (simp_all add: assms zero_texts del: parse_setting.simps, simp add: ScannerConfig_fields_def)

lemma zero_intervals_accepted:
  assumes "envconfig_documented proc"
  shows "bare_but ''SCAN_INTERVAL'' environ ScannerConfig_fields \<Longrightarrow> environ ''SCAN_INTERVAL'' = Some ''0'' \<Longrightarrow>
      \<exists>cfg. LoadScanner proc environ = Inr cfg \<and> scan_ScanInterval cfg = 0"
    and "bare_but ''PENDING_CLEANUP_INTERVAL'' environ SubscriptionConfig_fields \<Longrightarrow> environ ''PENDING_CLEANUP_INTERVAL'' = Some ''0'' \<Longrightarrow>
      \<exists>cfg. LoadSubscription proc environ = Inr cfg \<and> sub_PendingCleanupInterval cfg = 0"
    and "bare_but ''RETRY_INTERVAL'' environ NotifierConfig_fields \<Longrightarrow> environ ''RETRY_INTERVAL'' = Some ''0'' \<Longrightarrow>
      \<exists>cfg. LoadNotifier proc environ = Inr cfg \<and> notif_RetryInterval cfg = 0"
  unfolding LoadScanner_def LoadSubscription_def LoadNotifier_def
  subgoal
    by (rule load_overridden [OF assms(1) keys_distinct(2) _ defaults_readable,
          where f = "optional ''SCAN_INTERVAL'' KindDuration ''10m''" and t = "''0''" and x = "SDuration 0"])
      (simp_all add: zero_texts del: parse_setting.simps, simp add: ScannerConfig_fields_def)
  subgoal
    by (rule load_overridden [OF assms(1) keys_distinct(1) _ defaults_readable,
          where f = "optional ''PENDING_CLEANUP_INTERVAL'' KindDuration ''24h''" and t = "''0''" and x = "SDuration 0"])
      (simp_all add: zero_texts del: parse_setting.simps, simp add: SubscriptionConfig_fields_def)
  subgoal
    by (rule load_overridden [OF assms(1) keys_distinct(3) _ defaults_readable,
          where f = "optional ''RETRY_INTERVAL'' KindDuration ''15m''" and t = "''0''" and x = "SDuration 0"])
      (simp_all add: zero_texts del: parse_setting.simps, simp add: NotifierConfig_fields_def)
  done

text \<open>
  \<^bold>\<open>C24.\<close> Settings and the loops (\<open>config\<close>, \<open>buildApp\<close>, \<open>buildComponents\<close>, \<open>startScheduler\<close>, \<open>startBackground\<close>, \<open>startMaintenance\<close>): with the required
  variables alone, the configurations load, the three loops never panic, and no interleaving of the fetch pass runs forever or is
  stuck before it is over. A zero interval or zero workers are accepted as well: then the loop panics,
  and a fetch pass with a repository to fetch observes nothing and never ends.
\<close>

theorem settings_decide:
  assumes "envconfig_documented proc"
  shows "(bare environ ScannerConfig_fields \<longrightarrow> (\<exists>cfg. LoadScanner proc environ = Inr cfg \<and>
      (\<forall>E first evs w. fst (run_state (scanner_scheduler E cfg first evs) w) = Some ()) \<and>
      (\<forall>gh. wfp (\<lambda>s' s. scan_step (scan_WorkerCount cfg) gh s s') \<and>
        (\<forall>s. \<not> scan_final s \<longrightarrow> (\<exists>s'. scan_step (scan_WorkerCount cfg) gh s s'))))) \<and>
    (bare environ SubscriptionConfig_fields \<longrightarrow> (\<exists>cfg. LoadSubscription proc environ = Inr cfg \<and>
      (\<forall>E evs w. fst (run_state (subscription_background E cfg evs) w) = Some ()))) \<and>
    (bare environ NotifierConfig_fields \<longrightarrow> (\<exists>cfg. LoadNotifier proc environ = Inr cfg \<and>
      (\<forall>E M evs w. fst (run_state (notifier_maintenance E M cfg evs) w) = Some ()))) \<and>
    (bare_but ''SCAN_WORKERS'' environ ScannerConfig_fields \<and> environ ''SCAN_WORKERS'' = Some ''0'' \<longrightarrow>
      (\<exists>cfg. LoadScanner proc environ = Inr cfg \<and> (\<forall>gh r rs s.
        scan_reaches (scan_WorkerCount cfg) gh \<lparr>todo = rs, handed = Some r, running = [], observed = [], cancelled = False\<rparr> s \<longrightarrow>
          observed s = [] \<and> \<not> scan_final s))) \<and>
    (bare_but ''SCAN_INTERVAL'' environ ScannerConfig_fields \<and> environ ''SCAN_INTERVAL'' = Some ''0'' \<longrightarrow>
      (\<exists>cfg. LoadScanner proc environ = Inr cfg \<and> (\<forall>E first evs w. fst (run_state (scanner_scheduler E cfg first evs) w) = None))) \<and>
    (bare_but ''PENDING_CLEANUP_INTERVAL'' environ SubscriptionConfig_fields \<and> environ ''PENDING_CLEANUP_INTERVAL'' = Some ''0'' \<longrightarrow>
      (\<exists>cfg. LoadSubscription proc environ = Inr cfg \<and> (\<forall>E evs w. fst (run_state (subscription_background E cfg evs) w) = None))) \<and>
    (bare_but ''RETRY_INTERVAL'' environ NotifierConfig_fields \<and> environ ''RETRY_INTERVAL'' = Some ''0'' \<longrightarrow>
      (\<exists>cfg. LoadNotifier proc environ = Inr cfg \<and> (\<forall>E M evs w. fst (run_state (notifier_maintenance E M cfg evs) w) = None)))"
proof (intro conjI impI, goal_cases)
  case 1
  from scanner_defaults [OF assms 1] show ?case by (auto simp: second_def intro!: loops_go_on scan_pass_ends scan_not_stuck)
next
  case 2
  from subscription_defaults [OF assms 2] show ?case by (auto simp: second_def intro!: loops_go_on)
next
  case 3
  from notifier_defaults [OF assms 3] show ?case by (auto simp: second_def intro!: loops_go_on)
next
  case 4
  with zero_workers_accepted [OF assms] scan_zero_workers_blocks show ?case by metis
next
  case 5
  with zero_intervals_accepted(1) [OF assms] loops_panic(1) show ?case by (metis order_refl)
next
  case 6
  with zero_intervals_accepted(2) [OF assms] loops_panic(2) show ?case by (metis order_refl)
next
  case 7
  with zero_intervals_accepted(3) [OF assms] loops_panic(3) show ?case by (metis order_refl)
qed

theorem settings_decide_witness:
  "(\<exists>cfg. LoadNotifier demo_process demo_environ = Inr cfg \<and>
     fst (run_state (notifier_maintenance calm_env demo_mailer cfg [Ticked (), Cancel]) (notif_w demo_final)) = Some ()) \<and>
   (\<exists>cfg. LoadNotifier demo_process (demo_environ(''RETRY_INTERVAL'' \<mapsto> ''0'')) = Inr cfg \<and>
     fst (run_state (notifier_maintenance calm_env demo_mailer cfg [Ticked (), Cancel]) (notif_w demo_final)) = None)"
proof -
  have "bare demo_environ NotifierConfig_fields"
    by (simp add: bare_def NotifierConfig_fields_def SMTPConfig_fields_def lookup_field_def demo_environ_def)
  moreover have "bare_but ''RETRY_INTERVAL'' (demo_environ(''RETRY_INTERVAL'' \<mapsto> ''0'')) NotifierConfig_fields"
    by (simp add: bare_but_def NotifierConfig_fields_def SMTPConfig_fields_def lookup_field_def demo_environ_def)
  moreover have "(demo_environ(''RETRY_INTERVAL'' \<mapsto> ''0'')) ''RETRY_INTERVAL'' = Some ''0''" by simp
  ultimately have "\<exists>cfg. LoadNotifier demo_process demo_environ = Inr cfg \<and>
      (\<forall>E M evs (w :: notif_db world). fst (run_state (notifier_maintenance E M cfg evs) w) = Some ())"
    "\<exists>cfg. LoadNotifier demo_process (demo_environ(''RETRY_INTERVAL'' \<mapsto> ''0'')) = Inr cfg \<and>
      (\<forall>E M evs (w :: notif_db world). fst (run_state (notifier_maintenance E M cfg evs) w) = None)"
    using settings_decide [OF demo_process_documented, of demo_environ, THEN conjunct2, THEN conjunct2, THEN conjunct1]
      settings_decide [OF demo_process_documented, of "demo_environ(''RETRY_INTERVAL'' \<mapsto> ''0'')", THEN conjunct2, THEN conjunct2,
        THEN conjunct2, THEN conjunct2, THEN conjunct2, THEN conjunct2]
    by blast+
  then show ?thesis by blast
qed

end
