(* ===== verification/Routes.thy ===== *)
theory Routes
  imports Telemetry "HOL-Library.Sublist"
begin

text \<open>
  The HTTP routes of the services: \<open>MetricsHandler\<close> of \<open>bootstrap/bootstrap.go\<close>, and those of the public server,
  \<open>NewHandler\<close> in \<open>bootstrap/subscription/handler.go\<close>.
\<close>

section \<open>The multiplexer\<close>

text \<open>
  \<open>http.ServeMux\<close> for patterns that are paths, on a path without empty and dot segments: a pattern stands for its own path and, when it
  ends in a slash, for every path below it; the longest pattern that matches wins. \<open>Handle\<close> panics on a pattern it has.
\<close>

definition path_matches :: "string \<Rightarrow> string \<Rightarrow> bool" where
  "path_matches pattern path \<longleftrightarrow> path = pattern \<or> pattern \<noteq> [] \<and> last pattern = CHR ''/'' \<and> prefix pattern path"

primrec longest :: "string \<times> 'h \<Rightarrow> (string \<times> 'h) list \<Rightarrow> string \<times> 'h" where
  "longest r [] = r"
| "longest r (r' # rs) = longest (if length (fst r) < length (fst r') then r' else r) rs"

definition ServeMux_Handler :: "(string \<times> 'h) list \<Rightarrow> string \<Rightarrow> 'h option" where
  "ServeMux_Handler routes path =
     (case filter (\<lambda>r. path_matches (fst r) path) routes of [] \<Rightarrow> None | r # rs \<Rightarrow> Some (snd (longest r rs)))"

section \<open>The routes\<close>

datatype endpoint = Transcoder | GRPCHealth | GRPCReflectV1 | GRPCReflectV1Alpha | HealthOK | PromHTTP

text \<open>The answer of \<open>/health\<close>.\<close>

definition health_answer :: "nat \<times> string" where
  "health_answer = (200, ''{\"status\":\"ok\"}'')"

definition MetricsHandler :: "(string \<times> endpoint) list" where
  "MetricsHandler = [(''/metrics'', PromHTTP), (''/health'', HealthOK)]"

text \<open>The paths of the health and reflection services come from their packages.\<close>

definition NewHandler :: "string \<Rightarrow> string \<Rightarrow> string \<Rightarrow> (string \<times> endpoint) list" where
  "NewHandler healthPath reflectV1Path reflectV1AlphaPath =
     [(''/'', Transcoder), (healthPath, GRPCHealth), (reflectV1Path, GRPCReflectV1), (reflectV1AlphaPath, GRPCReflectV1Alpha),
      (''/health'', HealthOK), (''/metrics'', PromHTTP)]"

text \<open>A handler of a service serves the paths of its procedures, \<open>/name/Procedure\<close>.\<close>

definition service_path :: "string \<Rightarrow> bool" where
  "service_path p \<longleftrightarrow> (\<exists>name. p = ''/'' @ name @ ''/'' \<and> name \<noteq> [] \<and> CHR ''/'' \<notin> set name)"

lemma service_path_props:
  assumes "service_path p"
  shows "p \<noteq> ''/''" "p \<noteq> ''/health''" "p \<noteq> ''/metrics''" "Suc 0 < length p"
    and "path_matches p path = prefix p path" "\<not> prefix p ''/health''" "\<not> prefix p ''/metrics''"
proof -
  obtain name where p: "p = ''/'' @ name @ ''/''" "name \<noteq> []" "CHR ''/'' \<notin> set name"
    using assms by (auto simp: service_path_def)
  then show "p \<noteq> ''/''" "Suc 0 < length p" by auto
  show "path_matches p path = prefix p path" using p by (auto simp: path_matches_def)
  have slash: "CHR ''/'' \<in> set (tl q)" if "prefix p q" for q
    using that p(1) by (auto simp: prefix_def)
  from slash [of "''/health''"] slash [of "''/metrics''"] show "\<not> prefix p ''/health''" "\<not> prefix p ''/metrics''" by auto
  then show "p \<noteq> ''/health''" "p \<noteq> ''/metrics''" by auto
qed

lemma own_path_matches:
  "path_matches ''/health'' path = (path = ''/health'')" "path_matches ''/metrics'' path = (path = ''/metrics'')"
  "path \<noteq> [] \<Longrightarrow> hd path = CHR ''/'' \<Longrightarrow> path_matches ''/'' path"
  by (auto simp: path_matches_def neq_Nil_conv)

text \<open>
  The routes are what they should be: no pattern is registered twice; \<open>/health\<close> and \<open>/metrics\<close> answer on every server; on the public
  server the paths of the health and reflection services reach them, and everything else reaches the API.
\<close>

theorem routes_reach:
  assumes "service_path h" "service_path r" "service_path a" and "distinct [h, r, a]" and "path \<noteq> []" "hd path = CHR ''/''"
  shows "distinct (map fst (NewHandler h r a)) \<and> distinct (map fst MetricsHandler) \<and>
    ServeMux_Handler MetricsHandler ''/health'' = Some HealthOK \<and> ServeMux_Handler MetricsHandler ''/metrics'' = Some PromHTTP \<and>
    ServeMux_Handler (NewHandler h r a) ''/health'' = Some HealthOK \<and> ServeMux_Handler (NewHandler h r a) ''/metrics'' = Some PromHTTP \<and>
    (path \<notin> {''/health'', ''/metrics''} \<and> \<not> prefix h path \<and> \<not> prefix r path \<and> \<not> prefix a path \<longrightarrow>
      ServeMux_Handler (NewHandler h r a) path = Some Transcoder) \<and>
    (prefix h path \<and> \<not> prefix r path \<and> \<not> prefix a path \<longrightarrow> ServeMux_Handler (NewHandler h r a) path = Some GRPCHealth)"
proof -
  note props = service_path_props [OF assms(1)] service_path_props [OF assms(2)] service_path_props [OF assms(3)]
  note route = ServeMux_Handler_def NewHandler_def MetricsHandler_def own_path_matches props
  have below: "path \<noteq> ''/health''" "path \<noteq> ''/metrics''" if "prefix h path" using that props(6,7) by metis+
  have 1: "ServeMux_Handler (NewHandler h r a) ''/health'' = Some HealthOK" "ServeMux_Handler (NewHandler h r a) ''/metrics'' = Some PromHTTP"
    by (simp_all add: route)
  have 2: "ServeMux_Handler (NewHandler h r a) path = Some Transcoder"
    if "path \<notin> {''/health'', ''/metrics''} \<and> \<not> prefix h path \<and> \<not> prefix r path \<and> \<not> prefix a path"
    using that assms(5,6) by (simp add: route)
  have 3: "ServeMux_Handler (NewHandler h r a) path = Some GRPCHealth" if "prefix h path \<and> \<not> prefix r path \<and> \<not> prefix a path"
    using that assms(5,6) below by (simp add: route)
  have 4: "distinct (map fst (NewHandler h r a))" using assms(4) props(1-3,8-10,15-17) by (simp add: NewHandler_def eq_commute)
  have 5: "distinct (map fst MetricsHandler)" "ServeMux_Handler MetricsHandler ''/health'' = Some HealthOK"
    "ServeMux_Handler MetricsHandler ''/metrics'' = Some PromHTTP"
    by (simp_all add: MetricsHandler_def ServeMux_Handler_def own_path_matches)
  show ?thesis using 1 2 3 4 5 by blast
qed

end
