(* ===== verification/Mail_Queue.thy ===== *)
theory Mail_Queue
  imports Mailer
begin

text \<open>
  The queue of the mailer (\<open>internal/notifier/adapter/mailer\<close>): callers put jobs into a buffered channel, one
  worker goroutine takes them out in order and sends them, and hands the errors back over a channel of capacity
  one that belongs to the job. Any number of callers run at the same time, each may give up when its context is
  done, and \<open>Shutdown\<close> closes the queue. The goroutines are the steps of a relation, in every interleaving.
\<close>

section \<open>Jobs, callers and the worker\<close>

definition jobBufferSize :: nat where
  "jobBufferSize = 64"

text \<open>The three calls of the mailer that queue a job.\<close>

datatype mail_call = SendConfirmation string string string | Deliver string string string
  | SendReleases "ReleaseNotification list"

text \<open>
  A job; its caller is also the owner of its result channel. \<open>SendConfirmation\<close> makes a job without one.
\<close>

record mailJob =
  job_caller :: nat
  job_messages :: "mail_msg list"
  job_result :: bool

text \<open>What each call queues, if the messages can be built (a release batch: if any of them can).\<close>

fun job_of :: "mailer \<Rightarrow> nat \<Rightarrow> mail_call \<Rightarrow> mailJob option" where
  "job_of M i (SendConfirmation to repo url) = (case buildConfirmation M to repo url of
     Inl e \<Rightarrow> None | Inr msg \<Rightarrow> Some \<lparr>job_caller = i, job_messages = [msg], job_result = False\<rparr>)"
| "job_of M i (Deliver to repo url) = (case buildConfirmation M to repo url of
     Inl e \<Rightarrow> None | Inr msg \<Rightarrow> Some \<lparr>job_caller = i, job_messages = [msg], job_result = True\<rparr>)"
| "job_of M i (SendReleases ns) = (case build_all M ns of (messages, recipients, failed) \<Rightarrow>
     if messages = [] then None else Some \<lparr>job_caller = i, job_messages = messages, job_result = True\<rparr>)"

datatype worker = Waiting | Sending mailJob | Stopped_worker

text \<open>
  A caller is in the first \<open>select\<close> (queueing), in the second one (waiting for the result), or has left:
  without having queued, having queued a job without result, having given up, or with the errors.
\<close>

datatype caller = Queueing mailJob | Awaiting mailJob | NotQueued | QueuedOnly mailJob | Abandoned mailJob
  | Answered mailJob "error option list"

text \<open>
  The mailer: the channel, whether it is closed, the worker, the result channels and the callers; the SMTP connection; and, as
  history, the jobs in the order they were queued and sent.
\<close>

record mail_queue =
  jobs :: "mailJob list"
  closed :: bool
  worker_state :: worker
  result_of :: "nat \<Rightarrow> error option list option"
  caller_of :: "nat \<Rightarrow> caller option"
  net :: "unit world"
  queued :: "mailJob list"
  sent_jobs :: "(mailJob \<times> error option list) list"
  panicked :: bool

text \<open>\<open>newMailer\<close>: an empty queue and a worker that waits.\<close>

definition newMailer :: mail_queue where
  "newMailer = \<lparr>jobs = [], closed = False, worker_state = Waiting, result_of = (\<lambda>_. None), caller_of = (\<lambda>_. None),
     net = fresh_world (), queued = [], sent_jobs = [], panicked = False\<rparr>"

text \<open>\<open>Shutdown\<close> closes the channel and then waits for the worker, at most as long as its context allows; the waiting changes nothing.\<close>

definition mailer_Shutdown :: "mail_queue \<Rightarrow> mail_queue" where
  "mailer_Shutdown q = q\<lparr>closed := True\<rparr>"

section \<open>Steps\<close>

text \<open>
  The worker: \<open>dispatch\<close> takes the next job, or ends when the channel is closed and drained; \<open>deliver\<close> sends the batch, under
  any pattern of failures, and puts the errors into the job's channel, which has room for one answer.
\<close>

inductive worker_step :: "mail_queue \<Rightarrow> mail_queue \<Rightarrow> bool" where
  dispatch: "\<not> panicked q \<Longrightarrow> worker_state q = Waiting \<Longrightarrow> jobs q = j # js \<Longrightarrow>
    worker_step q (q\<lparr>jobs := js, worker_state := Sending j\<rparr>)"
| deliver: "\<not> panicked q \<Longrightarrow> worker_state q = Sending j \<Longrightarrow>
    run_state (sendBatch E (job_messages j)) (net q) = (errs, w) \<Longrightarrow> job_result j \<Longrightarrow> result_of q (job_caller j) = None \<Longrightarrow>
    worker_step q (q\<lparr>worker_state := Waiting, net := w, sent_jobs := sent_jobs q @ [(j, errs)],
      result_of := (result_of q)(job_caller j := Some errs)\<rparr>)"
| deliver_only: "\<not> panicked q \<Longrightarrow> worker_state q = Sending j \<Longrightarrow>
    run_state (sendBatch E (job_messages j)) (net q) = (errs, w) \<Longrightarrow> \<not> job_result j \<Longrightarrow>
    worker_step q (q\<lparr>worker_state := Waiting, net := w, sent_jobs := sent_jobs q @ [(j, errs)]\<rparr>)"
| drained: "\<not> panicked q \<Longrightarrow> worker_state q = Waiting \<Longrightarrow> jobs q = [] \<Longrightarrow> closed q \<Longrightarrow>
    worker_step q (q\<lparr>worker_state := Stopped_worker\<rparr>)"

text \<open>
  The callers: a new call with its job; the two ways out of each \<open>select\<close>. A send on the closed channel panics, also in
  a \<open>select\<close>. \<open>Shutdown\<close> closes the channel; the bootstrap calls it once.
\<close>

inductive caller_step :: "mailer \<Rightarrow> mail_queue \<Rightarrow> mail_queue \<Rightarrow> bool" for M where
  call: "\<not> panicked q \<Longrightarrow> caller_of q i = None \<Longrightarrow> job_of M i c = Some j \<Longrightarrow>
    caller_step M q (q\<lparr>caller_of := (caller_of q)(i := Some (Queueing j))\<rparr>)"
| enqueue_job: "\<not> panicked q \<Longrightarrow> caller_of q i = Some (Queueing j) \<Longrightarrow> \<not> closed q \<Longrightarrow> length (jobs q) < jobBufferSize \<Longrightarrow>
    caller_step M q (q\<lparr>jobs := jobs q @ [j], queued := queued q @ [j],
      caller_of := (caller_of q)(i := Some (if job_result j then Awaiting j else QueuedOnly j))\<rparr>)"
| send_on_closed: "\<not> panicked q \<Longrightarrow> caller_of q i = Some (Queueing j) \<Longrightarrow> closed q \<Longrightarrow>
    caller_step M q (q\<lparr>panicked := True\<rparr>)"
| not_queued: "\<not> panicked q \<Longrightarrow> caller_of q i = Some (Queueing j) \<Longrightarrow>
    caller_step M q (q\<lparr>caller_of := (caller_of q)(i := Some NotQueued)\<rparr>)"
| answered: "\<not> panicked q \<Longrightarrow> caller_of q i = Some (Awaiting j) \<Longrightarrow> result_of q i = Some errs \<Longrightarrow>
    caller_step M q (q\<lparr>caller_of := (caller_of q)(i := Some (Answered j errs)), result_of := (result_of q)(i := None)\<rparr>)"
| abandoned: "\<not> panicked q \<Longrightarrow> caller_of q i = Some (Awaiting j) \<Longrightarrow>
    caller_step M q (q\<lparr>caller_of := (caller_of q)(i := Some (Abandoned j))\<rparr>)"
| Shutdown: "\<not> panicked q \<Longrightarrow> \<not> closed q \<Longrightarrow> caller_step M q (mailer_Shutdown q)"

inductive queue_reachable :: "mailer \<Rightarrow> mail_queue \<Rightarrow> bool" for M where
  start: "queue_reachable M newMailer"
| worker: "queue_reachable M q \<Longrightarrow> worker_step q q' \<Longrightarrow> queue_reachable M q'"
| caller: "queue_reachable M q \<Longrightarrow> caller_step M q q' \<Longrightarrow> queue_reachable M q'"

inductive_cases worker_stepE: "worker_step q q'"

inductive_cases caller_stepE: "caller_step M q q'"

section \<open>Batches\<close>

text \<open>A batch over an open connection as a function of the faults it meets.\<close>

fun sent_one :: "mail_msg \<Rightarrow> fault \<Rightarrow> error option \<times> effect list" where
  "sent_one m NoFault = (None, [mailed m])"
| "sent_one m (Fails t) = (Some (Errorf ''send email'' (External t)), [])"
| "sent_one m (Lost t) = (Some (Errorf ''send email'' (External t)), [mailed m])"

primrec sent_all :: "(nat \<Rightarrow> fault) \<Rightarrow> nat \<Rightarrow> mail_msg list \<Rightarrow> error option list \<times> effect list" where
  "sent_all f n [] = ([], [])"
| "sent_all f n (m # ms) = (case (sent_one m (f n), sent_all f (Suc n) ms) of ((e, a), (es, b)) \<Rightarrow> (e # es, a @ b))"

lemma send_each_run:
  "run_state (send_each E ms) w = (fst (sent_all (env_fault E) (ncalls w) ms),
     w\<lparr>ncalls := ncalls w + length ms, trace := trace w @ snd (sent_all (env_fault E) (ncalls w) ms)\<rparr>)"
proof (induction ms arbitrary: w)
  case (Cons m ms)
  then show ?case
    by (cases "env_fault E (ncalls w)") (simp_all add: smtp_Send_def Let_def case_prod_unfold)
qed simp

lemma sent_all_cong: "(\<And>k. k < length ms \<Longrightarrow> f (n + k) = g (n' + k)) \<Longrightarrow> sent_all f n ms = sent_all g n' ms"
proof (induction ms arbitrary: n n')
  case (Cons m ms)
  have "f n = g n'" using Cons.prems [of 0] by simp
  moreover have "sent_all f (Suc n) ms = sent_all g (Suc n') ms"
    using Cons.prems [of "Suc k" for k] by (intro Cons.IH) simp
  ultimately show ?case by simp
qed simp

text \<open>What a batch returned and sent, in some world.\<close>

definition realised :: "mail_msg list \<Rightarrow> error option list \<Rightarrow> effect list \<Rightarrow> bool" where
  "realised ms errs mails \<longleftrightarrow> (\<exists>E (w :: unit world) w'. run_state (sendBatch E ms) w = (errs, w') \<and> trace w' = trace w @ mails)"

lemma sendBatch_run:
  "run_state (sendBatch E ms) w = (case env_fault E (ncalls w) of
     NoFault \<Rightarrow> (fst (sent_all (env_fault E) (Suc (ncalls w)) ms),
       w\<lparr>ncalls := Suc (ncalls w) + length ms, trace := trace w @ snd (sent_all (env_fault E) (Suc (ncalls w)) ms)\<rparr>)
   | Fails t \<Rightarrow> (replicate (length ms) (Some (Errorf ''dial SMTP'' (External t))), w\<lparr>ncalls := Suc (ncalls w)\<rparr>)
   | Lost t \<Rightarrow> (replicate (length ms) (Some (Errorf ''dial SMTP'' (External t))), w\<lparr>ncalls := Suc (ncalls w)\<rparr>))"
  by (simp add: sendBatch_def smtp_Dial_def send_each_run split: fault.splits)

text \<open>An environment in which a batch that starts with call number two meets the same faults, and nothing else fails.\<close>

definition replaying :: "env \<Rightarrow> nat \<Rightarrow> nat \<Rightarrow> env" where
  "replaying E n k = E\<lparr>env_fault := (\<lambda>i. if i = 2 \<or> (2 < i \<and> i \<le> k + 2 \<and> env_fault E n = NoFault) then env_fault E (n + i - 2) else NoFault)\<rparr>"

lemma sendBatch_replayed:
  assumes "run_state (sendBatch E ms) w = (errs, w')" "trace w' = trace w @ mails" "ncalls v = 2"
  shows "\<exists>n. run_state (sendBatch (replaying E (ncalls w) (length ms)) ms) v = (errs, v\<lparr>ncalls := n, trace := trace v @ mails\<rparr>) \<and>
    env_fault (replaying E (ncalls w) (length ms)) n = NoFault"
proof -
  let ?E = "replaying E (ncalls w) (length ms)"
  have dial: "env_fault ?E (ncalls v) = env_fault E (ncalls w)" using assms(3) by (simp add: replaying_def)
  consider (up) "env_fault E (ncalls w) = NoFault" | (down) t where "env_fault E (ncalls w) \<in> {Fails t, Lost t}"
    by (cases "env_fault E (ncalls w)") auto
  then show ?thesis
  proof cases
    case up
    have "sent_all (env_fault ?E) (Suc (ncalls v)) ms = sent_all (env_fault E) (Suc (ncalls w)) ms"
      by (rule sent_all_cong) (simp add: replaying_def up assms(3))
    moreover have "errs = fst (sent_all (env_fault E) (Suc (ncalls w)) ms)" "mails = snd (sent_all (env_fault E) (Suc (ncalls w)) ms)"
      using assms(1,2) unfolding sendBatch_run up by auto
    moreover have "env_fault ?E (Suc (ncalls v) + length ms) = NoFault" using assms(3) by (simp add: replaying_def)
    ultimately show ?thesis
      unfolding sendBatch_run [of ?E] dial up by (intro exI [where x = "Suc (ncalls v) + length ms"]) simp
  next
    case (down t)
    then have "errs = replicate (length ms) (Some (Errorf ''dial SMTP'' (External t)))" "mails = []"
      using assms(1,2) unfolding sendBatch_run by auto
    moreover have "env_fault ?E (Suc (ncalls v)) = NoFault" using assms(3) down by (auto simp: replaying_def)
    ultimately show ?thesis
      unfolding sendBatch_run [of ?E] dial using down by (intro exI [where x = "Suc (ncalls v)"]) auto
  qed
qed

section \<open>The invariant\<close>

text \<open>The job the worker holds, and the job a caller has put into the queue.\<close>

definition in_hand :: "mail_queue \<Rightarrow> mailJob list" where
  "in_hand q = (case worker_state q of Sending j \<Rightarrow> [j] | _ \<Rightarrow> [])"

fun queued_by :: "caller option \<Rightarrow> mailJob option" where
  "queued_by (Some (Awaiting j)) = Some j"
| "queued_by (Some (QueuedOnly j)) = Some j"
| "queued_by (Some (Abandoned j)) = Some j"
| "queued_by (Some (Answered j errs)) = Some j"
| "queued_by _ = None"

text \<open>
  First the channel: what was queued is sent, in hand or still queued, in this order. Then the callers: every queued job
  belongs to the one caller that queued it. Then the answers: every answer is the outcome of a job of its caller.
\<close>

definition channel_ok :: "mail_queue \<Rightarrow> bool" where
  "channel_ok q \<longleftrightarrow>
     queued q = map fst (sent_jobs q) @ in_hand q @ jobs q \<and> length (jobs q) \<le> jobBufferSize \<and>
     (worker_state q = Stopped_worker \<longrightarrow> closed q \<and> jobs q = []) \<and> (panicked q \<longrightarrow> closed q)"

definition callers_ok :: "mail_queue \<Rightarrow> bool" where
  "callers_ok q \<longleftrightarrow>
     distinct (map job_caller (queued q)) \<and>
     (\<forall>j \<in> set (queued q). queued_by (caller_of q (job_caller j)) = Some j) \<and>
     (\<forall>i j. caller_of q i = Some (Queueing j) \<longrightarrow> job_caller j = i) \<and>
     (\<forall>i j. queued_by (caller_of q i) = Some j \<longrightarrow> job_caller j = i \<and> j \<in> set (queued q))"

definition answers_ok :: "mail_queue \<Rightarrow> bool" where
  "answers_ok q \<longleftrightarrow>
     (\<forall>i errs. result_of q i = Some errs \<longrightarrow> (\<exists>j. (j, errs) \<in> set (sent_jobs q) \<and> job_caller j = i)) \<and>
     (\<forall>i j errs. caller_of q i = Some (Answered j errs) \<longrightarrow> (j, errs) \<in> set (sent_jobs q))"

text \<open>The mails that left, job by job in the order of the queue.\<close>

definition mails_ok :: "mail_queue \<Rightarrow> bool" where
  "mails_ok q \<longleftrightarrow> (\<exists>batches. trace (net q) = concat batches \<and>
     list_all2 (\<lambda>(j, errs) mails. realised (job_messages j) errs mails) (sent_jobs q) batches)"

lemmas queue_defs = channel_ok_def in_hand_def mailer_Shutdown_def

lemma channel_ok_worker: "worker_step q q' \<Longrightarrow> channel_ok q \<Longrightarrow> channel_ok q'"
  by (erule worker_stepE) (auto simp: queue_defs)

lemma channel_ok_caller: "caller_step M q q' \<Longrightarrow> channel_ok q \<Longrightarrow> channel_ok q'"
  by (erule caller_stepE) (auto simp: queue_defs split: worker.splits)

lemma callers_ok_worker: "worker_step q q' \<Longrightarrow> callers_ok q \<Longrightarrow> callers_ok q'"
  by (erule worker_stepE) (auto simp: callers_ok_def)

lemma job_of_caller: "job_of M i c = Some j \<Longrightarrow> job_caller j = i"
  by (cases c) (auto split: sum.splits prod.splits if_splits)

text \<open>A caller that moves on without a new job, or with its first one.\<close>

lemma callers_ok_same:
  assumes "callers_ok q" "queued_by (caller_of q i) = queued_by (Some c)" "\<And>j. c = Queueing j \<Longrightarrow> job_caller j = i"
    and "queued q' = queued q" "caller_of q' = (caller_of q)(i := Some c)"
  shows "callers_ok q'"
proof -
  have "queued_by (caller_of q' k) = queued_by (caller_of q k)" for k using assms(2,5) by simp
  moreover have "caller_of q' k = Some (Queueing j) \<Longrightarrow> job_caller j = k" for k j
    using assms(1,3,5) by (cases "k = i") (simp_all add: callers_ok_def)
  ultimately show ?thesis using assms(1,4) by (simp add: callers_ok_def)
qed

lemma callers_ok_new:
  assumes "callers_ok q" "caller_of q i = Some (Queueing j)" "queued_by (Some c) = Some j" "\<And>j'. c \<noteq> Queueing j'"
    and "queued q' = queued q @ [j]" "caller_of q' = (caller_of q)(i := Some c)"
  shows "callers_ok q'"
proof -
  have own: "job_caller j = i" using assms(1,2) unfolding callers_ok_def by blast
  have fresh: "i \<notin> job_caller ` set (queued q)"
  proof
    assume "i \<in> job_caller ` set (queued q)"
    then obtain j' where "queued_by (caller_of q i) = Some j'" using assms(1) unfolding callers_ok_def by blast
    with assms(2) show False by simp
  qed
  have by': "queued_by (caller_of q' k) = (if k = i then Some j else queued_by (caller_of q k))" for k
    using assms(3,6) by simp
  have "caller_of q' k = Some (Queueing j') \<Longrightarrow> job_caller j' = k" for k j'
    using assms(1,4,6) by (cases "k = i") (simp_all add: callers_ok_def)
  moreover have "\<forall>j' \<in> set (queued q'). queued_by (caller_of q' (job_caller j')) = Some j'"
  proof
    fix j'
    assume "j' \<in> set (queued q')"
    then consider "j' = j" | "j' \<in> set (queued q)" "job_caller j' \<noteq> i" using assms(5) fresh by force
    then show "queued_by (caller_of q' (job_caller j')) = Some j'"
      unfolding by' using own assms(1) by cases (simp_all add: callers_ok_def)
  qed
  moreover have "queued_by (caller_of q' k) = Some j' \<Longrightarrow> job_caller j' = k \<and> j' \<in> set (queued q')" for k j'
    using assms(1,5) own unfolding by' by (cases "k = i") (simp_all add: callers_ok_def)
  moreover have "distinct (map job_caller (queued q'))"
    using assms(1,5) own fresh by (simp add: callers_ok_def)
  ultimately show ?thesis unfolding callers_ok_def by blast
qed

lemma callers_ok_caller: "caller_step M q q' \<Longrightarrow> callers_ok q \<Longrightarrow> callers_ok q'"
proof (erule caller_stepE, goal_cases)
  case (1 i c j)
  then show ?case by (auto intro!: callers_ok_same [of q i "Queueing j"] job_of_caller)
next
  case (2 i j)
  then show ?case
    by (auto intro!: callers_ok_new [of q i j "if job_result j then Awaiting j else QueuedOnly j"])
next
  case (4 i j)
  then show ?case by (auto intro!: callers_ok_same [of q i NotQueued])
next
  case (5 i j errs)
  then show ?case by (auto intro!: callers_ok_same [of q i "Answered j errs"])
next
  case (6 i j)
  then show ?case by (auto intro!: callers_ok_same [of q i "Abandoned j"])
qed (auto simp: callers_ok_def mailer_Shutdown_def)

lemma answers_ok_worker: "worker_step q q' \<Longrightarrow> answers_ok q \<Longrightarrow> answers_ok q'"
  by (erule worker_stepE) (auto simp: answers_ok_def)

text \<open>The job with a given caller is unique, so an answer belongs to the job that waits for it.\<close>

lemma same_caller:
  "channel_ok q \<Longrightarrow> callers_ok q \<Longrightarrow> (j, errs) \<in> set (sent_jobs q) \<Longrightarrow> caller_of q (job_caller j) = Some (Awaiting j') \<Longrightarrow> j' = j"
proof -
  assume "channel_ok q" "callers_ok q" and sent: "(j, errs) \<in> set (sent_jobs q)"
    and await: "caller_of q (job_caller j) = Some (Awaiting j')"
  then have "j \<in> set (queued q)" by (force simp: channel_ok_def)
  with \<open>callers_ok q\<close> have "queued_by (caller_of q (job_caller j)) = Some j" unfolding callers_ok_def by blast
  with await show "j' = j" by simp
qed

lemma answers_ok_caller:
  "caller_step M q q' \<Longrightarrow> channel_ok q \<Longrightarrow> callers_ok q \<Longrightarrow> answers_ok q \<Longrightarrow> answers_ok q'"
proof (erule caller_stepE, goal_cases)
  case (5 i j errs)
  then obtain j' where "(j', errs) \<in> set (sent_jobs q)" "job_caller j' = i" by (auto simp: answers_ok_def)
  with 5 show ?case using same_caller [of q j' errs j] by (auto simp: answers_ok_def)
qed (auto simp: answers_ok_def mailer_Shutdown_def split: if_splits)

lemma realised_sent: "realised ms errs mails \<Longrightarrow> batch_sent ms errs mails"
  unfolding realised_def using wpD [OF wp_sendBatch] mails_only_fields by (metis same_append_eq)

lemma mails_ok_job:
  assumes "mails_ok q" "(j, errs) \<in> set (sent_jobs q)"
  shows "\<exists>mails. realised (job_messages j) errs mails \<and> set mails \<subseteq> set (trace (net q))"
proof -
  from assms(1) obtain batches where b: "trace (net q) = concat batches"
    "list_all2 (\<lambda>(j, errs) mails. realised (job_messages j) errs mails) (sent_jobs q) batches"
    unfolding mails_ok_def by blast
  from assms(2) obtain k where k: "k < length (sent_jobs q)" "sent_jobs q ! k = (j, errs)"
    by (auto simp: in_set_conv_nth)
  from list_all2_nthD [OF b(2) k(1)] k(2) have "realised (job_messages j) errs (batches ! k)" by simp
  moreover have "batches ! k \<in> set batches" using k(1) list_all2_lengthD [OF b(2)] by simp
  ultimately show ?thesis unfolding b(1) set_concat by blast
qed

lemma mails_ok_in_trace:
  "mails_ok q \<Longrightarrow> (j, errs) \<in> set (sent_jobs q) \<Longrightarrow> (m, None) \<in> set (zip (job_messages j) errs) \<Longrightarrow>
     mailed m \<in> set (trace (net q))"
  using mails_ok_job [of q j errs] realised_sent unfolding batch_sent_def by blast

lemma mails_ok_sent:
  assumes "mails_ok q" "run_state (sendBatch E (job_messages j)) (net q) = (errs, w)"
    and "net q' = w" "sent_jobs q' = sent_jobs q @ [(j, errs)]"
  shows "mails_ok q'"
proof -
  from assms(1) obtain batches where b: "trace (net q) = concat batches"
    "list_all2 (\<lambda>(j, errs) mails. realised (job_messages j) errs mails) (sent_jobs q) batches"
    unfolding mails_ok_def by blast
  from wpD [OF wp_sendBatch assms(2)] obtain mails where mails: "trace w = trace (net q) @ mails"
    using mails_only_fields by blast
  with assms(2) have "realised (job_messages j) errs mails" unfolding realised_def by blast
  with b mails assms(3,4) show ?thesis
    unfolding mails_ok_def by (intro exI [where x = "batches @ [mails]"]) (auto intro: list_all2_appendI)
qed

lemma mails_ok_worker: "worker_step q q' \<Longrightarrow> mails_ok q \<Longrightarrow> mails_ok q'"
proof (erule worker_stepE, goal_cases)
  case (2 j E errs w)
  then show ?case by (auto intro!: mails_ok_sent [of q E j errs w])
next
  case (3 j E errs w)
  then show ?case by (auto intro!: mails_ok_sent [of q E j errs w])
qed (auto simp: mails_ok_def)

lemma mails_ok_caller: "caller_step M q q' \<Longrightarrow> mails_ok q \<Longrightarrow> mails_ok q'"
  by (erule caller_stepE) (auto simp: mails_ok_def mailer_Shutdown_def)

definition queue_ok :: "mail_queue \<Rightarrow> bool" where
  "queue_ok q \<longleftrightarrow> channel_ok q \<and> callers_ok q \<and> answers_ok q \<and> mails_ok q"

lemma reachable_queue_ok: "queue_reachable M q \<Longrightarrow> queue_ok q"
proof (induction rule: queue_reachable.induct)
  case start
  show ?case
    by (simp add: queue_ok_def newMailer_def queue_defs callers_ok_def answers_ok_def mails_ok_def fresh_world_def)
next
  case (worker q q')
  then show ?case
    unfolding queue_ok_def using channel_ok_worker callers_ok_worker answers_ok_worker mails_ok_worker by blast
next
  case (caller q q')
  then show ?case
    unfolding queue_ok_def using channel_ok_caller callers_ok_caller answers_ok_caller mails_ok_caller by blast
qed

section \<open>Progress of the worker\<close>

text \<open>The steps the worker still has to make until the queue is empty and it has stopped.\<close>

definition left_steps :: "mail_queue \<Rightarrow> nat" where
  "left_steps q = 2 * length (jobs q) + (case worker_state q of Waiting \<Rightarrow> 1 | Sending _ \<Rightarrow> 2 | Stopped_worker \<Rightarrow> 0)"

lemma worker_step_left: "worker_step q q' \<Longrightarrow> left_steps q = Suc (left_steps q')"
  by (erule worker_stepE) (simp_all add: left_steps_def)

lemma worker_step_keeps: "worker_step q q' \<Longrightarrow> closed q' = closed q \<and> panicked q' = panicked q \<and> queued q' = queued q"
  by (erule worker_stepE) auto

text \<open>The worker never blocks on a result channel: nobody answered the job it holds.\<close>

lemma in_hand_unanswered:
  assumes "queue_ok q" "worker_state q = Sending j"
  shows "result_of q (job_caller j) = None"
proof (rule ccontr)
  assume "result_of q (job_caller j) \<noteq> None"
  then obtain j' errs where "(j', errs) \<in> set (sent_jobs q)" and same: "job_caller j' = job_caller j"
    using assms(1) unfolding queue_ok_def answers_ok_def by blast
  then have "job_caller j \<in> job_caller ` fst ` set (sent_jobs q)" by (metis fst_conv imageI)
  moreover have "queued q = map fst (sent_jobs q) @ j # jobs q"
    using assms(1)[unfolded queue_ok_def channel_ok_def] assms(2) by (simp add: in_hand_def)
  moreover have "distinct (map job_caller (queued q))" using assms(1) unfolding queue_ok_def callers_ok_def by blast
  ultimately show False by (simp add: image_image)
qed

lemma worker_progress:
  assumes "queue_ok q" "\<not> panicked q" "worker_state q \<noteq> Stopped_worker" "closed q \<or> jobs q \<noteq> [] \<or> worker_state q \<noteq> Waiting"
  shows "\<exists>q'. worker_step q q'"
proof (cases "worker_state q")
  case Waiting
  show ?thesis
  proof (cases "jobs q")
    case Nil
    with assms(4) Waiting have "closed q" by simp
    from worker_step.drained [OF assms(2) Waiting Nil this] show ?thesis by (rule exI)
  next
    case (Cons j js)
    from worker_step.dispatch [OF assms(2) Waiting this] show ?thesis by (rule exI)
  qed
next
  case (Sending j)
  obtain errs w where sent: "run_state (sendBatch (faulty_env []) (job_messages j)) (net q) = (errs, w)" by (rule prod.exhaust)
  show ?thesis
  proof (cases "job_result j")
    case True
    from worker_step.deliver [OF assms(2) Sending sent this in_hand_unanswered [OF assms(1) Sending]]
    show ?thesis by (rule exI)
  next
    case False
    from worker_step.deliver_only [OF assms(2) Sending sent this] show ?thesis by (rule exI)
  qed
next
  case Stopped_worker
  with assms(3) show ?thesis by contradiction
qed

lemma queue_reachable_worker_steps:
  "(worker_step ^^ n) q q' \<Longrightarrow> queue_reachable M q \<Longrightarrow>
     queue_reachable M q' \<and> closed q' = closed q \<and> panicked q' = panicked q \<and> queued q' = queued q \<and>
     left_steps q = n + left_steps q'"
proof (induction n arbitrary: q')
  case (Suc n)
  then obtain q1 where "(worker_step ^^ n) q q1" "worker_step q1 q'" by auto
  with Suc worker_step_keeps worker_step_left queue_reachable.worker show ?case
    by (metis add_Suc_shift add_Suc)
qed simp

lemma worker_runs_down:
  "queue_reachable M q \<Longrightarrow> closed q \<Longrightarrow> \<not> panicked q \<Longrightarrow> \<exists>q'. worker_step\<^sup>*\<^sup>* q q' \<and> worker_state q' = Stopped_worker"
proof (induction "left_steps q" arbitrary: q rule: less_induct)
  case less
  show ?case
  proof (cases "worker_state q = Stopped_worker")
    case False
    with less.prems obtain q1 where "worker_step q q1"
      using worker_progress [OF reachable_queue_ok] by blast
    with less worker_step_keeps worker_step_left queue_reachable.worker show ?thesis
      by (metis converse_rtranclp_into_rtranclp lessI)
  qed blast
qed

section \<open>The properties of the queue\<close>

text \<open>
  \<^bold>\<open>C18.\<close> The mailer's queue under any number of concurrent callers (\<open>mailer.go\<close>): jobs are sent in the order
  they were queued, each at most once and never more than 64 waiting; the mails that left are those of the sent jobs, in that
  order; a caller that gets an answer gets the errors of its own job, and every message without an error was handed to
  the SMTP server. A panic needs \<open>Shutdown\<close> before it.
\<close>

theorem mail_queue_answers:
  assumes "queue_reachable M q"
  shows "queued q = map fst (sent_jobs q) @ in_hand q @ jobs q \<and> distinct (map job_caller (queued q)) \<and>
    length (jobs q) \<le> 64 \<and> (panicked q \<longrightarrow> closed q) \<and>
    (\<exists>batches. trace (net q) = concat batches \<and>
       list_all2 (\<lambda>(j, errs) mails. batch_sent (job_messages j) errs mails) (sent_jobs q) batches) \<and>
    (caller_of q i = Some (Answered j errs) \<longrightarrow> job_caller j = i \<and> (j, errs) \<in> set (sent_jobs q) \<and>
       (\<forall>m. (m, None) \<in> set (zip (job_messages j) errs) \<longrightarrow> mailed m \<in> set (trace (net q))))"
proof -
  have ch: "channel_ok q" and ca: "callers_ok q" and an: "answers_ok q" and ma: "mails_ok q"
    using reachable_queue_ok [OF assms] by (simp_all add: queue_ok_def)
  have answered: "caller_of q i = Some (Answered j errs) \<longrightarrow> job_caller j = i \<and> (j, errs) \<in> set (sent_jobs q)"
  proof
    assume a: "caller_of q i = Some (Answered j errs)"
    then have "queued_by (caller_of q i) = Some j" by simp
    with a ca an show "job_caller j = i \<and> (j, errs) \<in> set (sent_jobs q)"
      unfolding callers_ok_def answers_ok_def by blast
  qed
  have "\<exists>batches. trace (net q) = concat batches \<and>
      list_all2 (\<lambda>(j, errs) mails. batch_sent (job_messages j) errs mails) (sent_jobs q) batches"
    using ma realised_sent unfolding mails_ok_def by (fastforce elim!: list_all2_mono)
  moreover have "distinct (map job_caller (queued q))" using ca unfolding callers_ok_def by blast
  ultimately show ?thesis
    using answered mails_ok_in_trace [OF ma] ch unfolding channel_ok_def jobBufferSize_def by blast
qed

definition demo_job :: "nat \<Rightarrow> mailJob" where
  "demo_job i = the (job_of demo_mailer i (Deliver ''a@b'' ''a/b'' ''https:u''))"

text \<open>One caller queues its confirmation, a second one is still waiting for room, and the mailer is shut down.\<close>

definition demo_closing :: mail_queue where
  "demo_closing = newMailer\<lparr>jobs := [demo_job 0], queued := [demo_job 0], closed := True,
     caller_of := [0 \<mapsto> Awaiting (demo_job 0), 1 \<mapsto> Queueing (demo_job 1)]\<rparr>"

lemma demo_job: "job_of demo_mailer i (Deliver ''a@b'' ''a/b'' ''https:u'') = Some (demo_job i)" "job_result (demo_job i)"
  by (simp_all add: demo_job_def buildConfirmation_def renderTemplate_def buildMessage_def demo_mailer_def)

lemma demo_closing_reachable: "queue_reachable demo_mailer demo_closing"
proof -
  let ?q1 = "newMailer\<lparr>caller_of := [0 \<mapsto> Queueing (demo_job 0)]\<rparr>"
  let ?q2 = "newMailer\<lparr>caller_of := [0 \<mapsto> Awaiting (demo_job 0)], jobs := [demo_job 0], queued := [demo_job 0]\<rparr>"
  let ?q3 = "?q2\<lparr>caller_of := [0 \<mapsto> Awaiting (demo_job 0), 1 \<mapsto> Queueing (demo_job 1)]\<rparr>"
  have "queue_reachable demo_mailer newMailer" by (rule queue_reachable.start)
  moreover have "caller_step demo_mailer newMailer ?q1"
    using caller_step.call [of newMailer 0 demo_mailer _ "demo_job 0", OF _ _ demo_job(1)] by (simp add: newMailer_def)
  moreover have "caller_step demo_mailer ?q1 ?q2"
    using caller_step.enqueue_job [of ?q1 0 "demo_job 0" demo_mailer] demo_job(2) by (simp add: newMailer_def jobBufferSize_def)
  moreover have "caller_step demo_mailer ?q2 ?q3"
    using caller_step.call [of ?q2 1 demo_mailer _ "demo_job 1", OF _ _ demo_job(1)] by (simp add: newMailer_def)
  moreover have "caller_step demo_mailer ?q3 demo_closing"
    using caller_step.Shutdown [of ?q3 demo_mailer] by (simp add: newMailer_def demo_closing_def mailer_Shutdown_def)
  ultimately show ?thesis by (metis queue_reachable.caller)
qed

theorem mail_queue_answers_witness:
  "queued demo_closing = map fst (sent_jobs demo_closing) @ in_hand demo_closing @ jobs demo_closing \<and>
   queued demo_closing = [demo_job 0]"
  using mail_queue_answers [OF demo_closing_reachable] by (simp add: demo_closing_def)



text \<open>
  A call that is still in its first \<open>select\<close> when \<open>Shutdown\<close> closes the channel panics, and takes the process and the jobs still
  queued with it.
\<close>

lemma mail_send_after_shutdown_panics:
  "\<exists>q. queue_reachable demo_mailer q \<and> panicked q \<and> jobs q \<noteq> [] \<and> (\<nexists>q'. worker_step q q')"
proof (intro exI conjI)
  let ?q = "demo_closing\<lparr>panicked := True\<rparr>"
  have "caller_step demo_mailer demo_closing ?q"
    by (rule caller_step.send_on_closed [of _ 1 "demo_job 1"]) (simp_all add: demo_closing_def newMailer_def)
  with demo_closing_reachable show "queue_reachable demo_mailer ?q" by (rule queue_reachable.caller)
  show "panicked ?q" "jobs ?q \<noteq> []" by (simp_all add: demo_closing_def)
  show "\<nexists>q'. worker_step ?q q'" by (auto elim: worker_stepE)
qed

section \<open>What the callers see\<close>

text \<open>What \<open>DeliverConfirmation\<close> and \<open>SendReleaseNotifications\<close> return in the states in which a caller has left.\<close>

fun confirmation_of :: "caller \<Rightarrow> (error + unit) option" where
  "confirmation_of NotQueued = Some (Inl (Errorf ''queue confirmation email'' (Sentinel Canceled)))"
| "confirmation_of (Abandoned j) = Some (Inl (Errorf ''await confirmation email result'' (Sentinel Canceled)))"
| "confirmation_of (Answered j errs) =
     Some (case errs of Some e # _ \<Rightarrow> Inl (Errorf ''send confirmation email'' e) | _ \<Rightarrow> Inr ())"
| "confirmation_of _ = None"

fun releases_of :: "string list \<Rightarrow> string list \<Rightarrow> caller \<Rightarrow> BatchResult option" where
  "releases_of recipients failed (Answered j errs) = Some \<lparr>Sent = length (filter (\<lambda>e. e = None) errs),
     Failed = failed @ map fst (filter (\<lambda>(r, e). e \<noteq> None) (zip recipients errs))\<rparr>"
| "releases_of recipients failed NotQueued = Some \<lparr>Sent = 0, Failed = failed @ recipients\<rparr>"
| "releases_of recipients failed (Abandoned j) = Some \<lparr>Sent = 0, Failed = failed @ recipients\<rparr>"
| "releases_of recipients failed _ = None"

text \<open>
  A call of theory \<open>Mailer\<close>: it ends before queueing, or sends its batch and gives up, or sends it and returns the answer.
\<close>

lemma call_queue_left:
  assumes "E = faulty_env [(1, Fails t)]"
  shows "buildConfirmation M to repo url = Inr msg \<Longrightarrow> run_state (DeliverConfirmation E M to repo url) (fresh_world ()) =
      (Inl (Errorf ''queue confirmation email'' (Sentinel Canceled)), (fresh_world ())\<lparr>ncalls := 2\<rparr>)"
    and "build_all M ns = (messages, recipients, failed) \<Longrightarrow> messages \<noteq> [] \<Longrightarrow>
      run_state (SendReleaseNotifications E M ns) (fresh_world ()) =
      (\<lparr>Sent = 0, Failed = failed @ recipients\<rparr>, (fresh_world ())\<lparr>ncalls := 2\<rparr>)"
  using assms
  by (simp_all add: DeliverConfirmation_def SendReleaseNotifications_def bindE_def liftE_def select_done_def fresh_world_def)

lemma call_abandoned:
  assumes "E = faulty_env [(3 + length ms, Fails t)]"
  shows "buildConfirmation M to repo url = Inr msg \<Longrightarrow> ms = [msg] \<Longrightarrow>
      fst (run_state (DeliverConfirmation E M to repo url) (fresh_world ())) =
      Inl (Errorf ''await confirmation email result'' (Sentinel Canceled))"
    and "build_all M ns = (ms, recipients, failed) \<Longrightarrow> ms \<noteq> [] \<Longrightarrow>
      fst (run_state (SendReleaseNotifications E M ns) (fresh_world ())) = \<lparr>Sent = 0, Failed = failed @ recipients\<rparr>"
  using assms
  by (simp_all add: DeliverConfirmation_def SendReleaseNotifications_def bindE_def liftE_def select_done_def fresh_world_def sendBatch_run)

lemma call_answered:
  assumes "realised ms errs mails"
  shows "buildConfirmation M to repo url = Inr msg \<Longrightarrow> ms = [msg] \<Longrightarrow> \<exists>E w'.
      run_state (DeliverConfirmation E M to repo url) (fresh_world ()) = (the (confirmation_of (Answered j errs)), w') \<and> trace w' = mails"
    and "build_all M ns = (ms, recipients, failed) \<Longrightarrow> ms \<noteq> [] \<Longrightarrow> \<exists>E w'.
      run_state (SendReleaseNotifications E M ns) (fresh_world ()) = (the (releases_of recipients failed (Answered j errs)), w') \<and> trace w' = mails"
proof -
  from assms obtain E and w w' :: "unit world" where run: "run_state (sendBatch E ms) w = (errs, w')" "trace w' = trace w @ mails"
    unfolding realised_def by blast
  let ?E = "replaying E (ncalls w) (length ms)" and ?v = "(fresh_world ())\<lparr>ncalls := 2\<rparr>"
  have start: "env_fault ?E 1 = NoFault" by (simp add: replaying_def)
  from sendBatch_replayed [OF run, of ?v] obtain n where
    n: "run_state (sendBatch ?E ms) ?v = (errs, ?v\<lparr>ncalls := n, trace := trace ?v @ mails\<rparr>)" "env_fault ?E n = NoFault" by auto
  note call = DeliverConfirmation_def SendReleaseNotifications_def bindE_def liftE_def select_done_def
  show "\<exists>E w'. run_state (DeliverConfirmation E M to repo url) (fresh_world ()) = (the (confirmation_of (Answered j errs)), w') \<and> trace w' = mails"
    if "buildConfirmation M to repo url = Inr msg" "ms = [msg]"
    using that n start by (intro exI [where x = ?E]) (auto simp: call fresh_world_def numeral_2_eq_2 split: list.splits option.splits)
  show "\<exists>E w'. run_state (SendReleaseNotifications E M ns) (fresh_world ()) =
      (the (releases_of recipients failed (Answered j errs)), w') \<and> trace w' = mails"
    if "build_all M ns = (ms, recipients, failed)" "ms \<noteq> []"
    using that n start by (intro exI [where x = ?E]) (simp add: call fresh_world_def numeral_2_eq_2)
qed

text \<open>Every way a caller has left is a run of its call; \<open>P\<close> is about the mails of the job it was answered for.\<close>

lemma confirmation_returned:
  assumes msg: "buildConfirmation M to repo url = Inr msg" and r: "confirmation_of c = Some r"
    and answered: "\<And>j errs. c = Answered j errs \<Longrightarrow> \<exists>mails. realised [msg] errs mails \<and> P mails"
  shows "\<exists>E w'. run_state (DeliverConfirmation E M to repo url) (fresh_world ()) = (r, w') \<and>
    ((\<exists>j errs. c = Answered j errs) \<longrightarrow> P (trace w'))"
proof (cases c)
  case NotQueued
  have "run_state (DeliverConfirmation (faulty_env [(1, Fails [])]) M to repo url) (fresh_world ()) =
      (r, (fresh_world ())\<lparr>ncalls := 2\<rparr>)"
    using call_queue_left(1) [OF refl msg, of "[]"] r NotQueued by simp
  then show ?thesis using NotQueued by blast
next
  case (Abandoned j)
  have "fst (run_state (DeliverConfirmation (faulty_env [(3 + length [msg], Fails [])]) M to repo url) (fresh_world ())) = r"
    using call_abandoned(1) [OF refl msg refl, of "[]"] r Abandoned by simp
  then show ?thesis using Abandoned by (metis caller.distinct(29) prod.collapse)
next
  case (Answered j errs)
  from answered [OF this] obtain mails where m: "realised [msg] errs mails" "P mails" by blast
  from call_answered(1) [OF m(1) msg refl, of j] obtain E w' where
    "run_state (DeliverConfirmation E M to repo url) (fresh_world ()) = (the (confirmation_of c), w')" "trace w' = mails"
    unfolding Answered by blast
  with r m(2) show ?thesis by (metis option.sel)
qed (use r in simp_all)

lemma releases_returned:
  assumes build: "build_all M ns = (ms, recipients, failed)" "ms \<noteq> []" and r: "releases_of recipients failed c = Some r"
    and answered: "\<And>j errs. c = Answered j errs \<Longrightarrow> \<exists>mails. realised ms errs mails \<and> P mails"
  shows "\<exists>E w'. run_state (SendReleaseNotifications E M ns) (fresh_world ()) = (r, w') \<and>
    ((\<exists>j errs. c = Answered j errs) \<longrightarrow> P (trace w'))"
proof (cases c)
  case NotQueued
  have "run_state (SendReleaseNotifications (faulty_env [(1, Fails [])]) M ns) (fresh_world ()) =
      (r, (fresh_world ())\<lparr>ncalls := 2\<rparr>)"
    using call_queue_left(2) [OF refl build, of "[]"] r NotQueued by simp
  then show ?thesis using NotQueued by blast
next
  case (Abandoned j)
  have "fst (run_state (SendReleaseNotifications (faulty_env [(3 + length ms, Fails [])]) M ns) (fresh_world ())) = r"
    using call_abandoned(2) [OF refl build, of "[]"] r Abandoned by simp
  then show ?thesis using Abandoned by (metis caller.distinct(29) prod.collapse)
next
  case (Answered j errs)
  from answered [OF this] obtain mails where m: "realised ms errs mails" "P mails" by blast
  from call_answered(2) [OF m(1) build, of j] obtain E w' where
    "run_state (SendReleaseNotifications E M ns) (fresh_world ()) = (the (releases_of recipients failed c), w')" "trace w' = mails"
    unfolding Answered by blast
  with r m(2) show ?thesis by (metis option.sel)
qed (use r in simp_all)

text \<open>
  \<^bold>\<open>C17.\<close> The queue implements the mailer its callers are verified against (\<open>DeliverConfirmation\<close>, \<open>SendReleaseNotifications\<close>,
  \<open>dispatch\<close>, \<open>deliver\<close>): whatever other callers, the worker and \<open>Shutdown\<close> do, a call that has returned has returned what some run of the
  same call of theory \<open>Mailer\<close> returns, which sends its batch as soon as it is queued; and when it was answered, that run sends the mails
  that really left for it.
\<close>

theorem mail_queue_refines_mailer:
  assumes "queue_reachable M q" and "caller_of q i = Some c" and "job_of M i call = Some job" and "queued_by (Some c) \<in> {None, Some job}"
  shows "(call = Deliver to repo url \<and> confirmation_of c = Some r \<longrightarrow>
      (\<exists>E w'. run_state (DeliverConfirmation E M to repo url) (fresh_world ()) = (r, w') \<and>
        ((\<exists>j errs. c = Answered j errs) \<longrightarrow> set (trace w') \<subseteq> set (trace (net q))))) \<and>
    (call = SendReleases ns \<and> build_all M ns = (messages, recipients, failed) \<and> releases_of recipients failed c = Some b \<longrightarrow>
      (\<exists>E w'. run_state (SendReleaseNotifications E M ns) (fresh_world ()) = (b, w') \<and>
        ((\<exists>j errs. c = Answered j errs) \<longrightarrow> set (trace w') \<subseteq> set (trace (net q)))))"
proof -
  have ok: "answers_ok q" "mails_ok q" using reachable_queue_ok [OF assms(1)] by (simp_all add: queue_ok_def)
  have answered: "\<exists>mails. realised (job_messages job) errs mails \<and> set mails \<subseteq> set (trace (net q))" if "c = Answered j errs" for j errs
  proof -
    from that assms(4) have "caller_of q i = Some (Answered job errs)" using assms(2) by simp
    with ok(1) have "(job, errs) \<in> set (sent_jobs q)" unfolding answers_ok_def by blast
    with mails_ok_job [OF ok(2)] show ?thesis by blast
  qed
  show ?thesis
  proof (intro conjI impI)
    assume a: "call = Deliver to repo url \<and> confirmation_of c = Some r"
    with assms(3) obtain msg where "buildConfirmation M to repo url = Inr msg" "job_messages job = [msg]"
      by (auto split: sum.splits)
    with a answered show "\<exists>E w'. run_state (DeliverConfirmation E M to repo url) (fresh_world ()) = (r, w') \<and>
        ((\<exists>j errs. c = Answered j errs) \<longrightarrow> set (trace w') \<subseteq> set (trace (net q)))"
      by (intro confirmation_returned [where msg = msg]) simp_all
  next
    assume a: "call = SendReleases ns \<and> build_all M ns = (messages, recipients, failed) \<and> releases_of recipients failed c = Some b"
    then have build: "build_all M ns = (messages, recipients, failed)" and b: "releases_of recipients failed c = Some b" by blast+
    from a assms(3) have ms: "messages \<noteq> []" "job_messages job = messages" by (auto split: if_splits)
    show "\<exists>E w'. run_state (SendReleaseNotifications E M ns) (fresh_world ()) = (b, w') \<and>
        ((\<exists>j errs. c = Answered j errs) \<longrightarrow> set (trace w') \<subseteq> set (trace (net q)))"
      by (rule releases_returned [OF build ms(1) b]) (use answered ms(2) in blast)
  qed
qed

text \<open>A caller that gave up before its confirmation could be queued.\<close>

lemma demo_refused_reachable:
  "queue_reachable demo_mailer (newMailer\<lparr>caller_of := [0 \<mapsto> NotQueued]\<rparr>)"
proof -
  let ?q = "newMailer\<lparr>caller_of := [0 \<mapsto> Queueing (demo_job 0)]\<rparr>"
  have "caller_step demo_mailer newMailer ?q"
    using caller_step.call [of newMailer 0 demo_mailer _ "demo_job 0", OF _ _ demo_job(1)] by (simp add: newMailer_def)
  moreover have "caller_step demo_mailer ?q (newMailer\<lparr>caller_of := [0 \<mapsto> NotQueued]\<rparr>)"
    using caller_step.not_queued [of ?q 0 "demo_job 0" demo_mailer] by (simp add: newMailer_def)
  ultimately show ?thesis by (metis queue_reachable.caller queue_reachable.start)
qed

theorem mail_queue_refines_mailer_witness:
  "\<exists>E w'. run_state (DeliverConfirmation E demo_mailer ''a@b'' ''a/b'' ''https:u'') (fresh_world ()) =
     (Inl (Errorf ''queue confirmation email'' (Sentinel Canceled)), w')"
proof -
  have "caller_of (newMailer\<lparr>caller_of := [0 \<mapsto> NotQueued]\<rparr>) 0 = Some NotQueued" by simp
  note refined = mail_queue_refines_mailer [OF demo_refused_reachable this demo_job(1)]
  have "queued_by (Some NotQueued) \<in> {None, Some (demo_job 0)}" by simp
  from refined [OF this, THEN conjunct1] show ?thesis by auto
qed

end
